theory Spec2Isabelle
  imports Complex_Main
begin

section \<open>FinBoard: response cache, path resolver, currency detection and fetch orchestration\<close>

text \<open>
  A shallow embedding of \<^verbatim>\<open>src/utils/cache.ts\<close>, \<^verbatim>\<open>src/utils/currencyDetection.ts\<close>,
  \<^verbatim>\<open>src/utils/api.ts\<close> and the header handling of the proxy route.

  Conventions.
  \<^item> Instants (\<^verbatim>\<open>Date.now()\<close>) are integers, in milliseconds; a TTL is an integer number
    of seconds. Every function that reads the clock takes the instant as an argument or
    reads it from the explicit world state.
  \<^item> Numbers are the integers they denote, with exact arithmetic. JavaScript computes in
    binary floating point, which is exact on integers below \<open>2\<^sup>5\<^sup>3\<close> in magnitude; what
    the code does with larger numbers (rounding, \<^verbatim>\<open>Infinity\<close>) is not modelled.
  \<^item> A JavaScript string is held as its UTF-8 bytes. Where the code counts UTF-16 code
    units or classifies characters (\<^verbatim>\<open>trim\<close>, \<^verbatim>\<open>parseInt\<close>, \<^verbatim>\<open>substring\<close>, case mapping),
    the model works on the characters the bytes encode.
  \<^item> The two module-level \<^verbatim>\<open>Map\<close>s are partial functions from keys to entries.
\<close>

subsection \<open>JavaScript values\<close>

text \<open>
  The values the code handles as \<^verbatim>\<open>any\<close>. An object is the list of its own enumerable
  properties in the order \<^verbatim>\<open>Object.keys\<close> reports them. \<open>JFunction\<close> stands for a value
  that is not data (a method found on a prototype).
\<close>

datatype jsval =
    JUndefined
  | JNull
  | JBool bool
  | JNum rat
  | JStr string
  | JArr "jsval list"
  | JObj "(string \<times> jsval) list"
  | JFunction

text \<open>Truthiness, as \<^verbatim>\<open>if (v)\<close> and \<^verbatim>\<open>v && ...\<close> test it.\<close>

fun truthy :: "jsval \<Rightarrow> bool" where
  "truthy JUndefined = False"
| "truthy JNull = False"
| "truthy (JBool b) = b"
| "truthy (JNum r) = (r \<noteq> 0)"
| "truthy (JStr s) = (s \<noteq> [])"
| "truthy (JArr xs) = True"
| "truthy (JObj kvs) = True"
| "truthy JFunction = True"

text \<open>\<^verbatim>\<open>typeof v === 'object'\<close>: objects, arrays and \<^verbatim>\<open>null\<close>.\<close>

fun typeof_object :: "jsval \<Rightarrow> bool" where
  "typeof_object JNull = True"
| "typeof_object (JArr xs) = True"
| "typeof_object (JObj kvs) = True"
| "typeof_object v = False"

fun isArray :: "jsval \<Rightarrow> bool" where
  "isArray (JArr xs) = True"
| "isArray v = False"

text \<open>
  Thrown values. The message of a \<^verbatim>\<open>TypeError\<close> is text chosen by the runtime; the message
  of an \<^verbatim>\<open>Error\<close> the code constructs is one of its templates, named here with the values
  substituted into it. \<open>Stringified v\<close> is \<^verbatim>\<open>String(v)\<close>, \<open>HttpStatus n\<close> is
  \<^verbatim>\<open>HTTP error! status: n\<close>.
\<close>

datatype message =
    Text string
  | Stringified jsval
  | HttpStatus nat
  | RateLimitWait int
  | ApiRateLimitWait int
  | Finnhub403 message
  | ApiReturned nat message
  | BadRequest message
  | InvalidJSON string
  | AlphaVantageError message
  | AlphaVantageInvalidCall message
  | AlphaVantageThankYou message
  | CorsError

datatype js_error =
    TypeError string
  | Error message

subsection \<open>Strings\<close>

fun starts_with :: "string \<Rightarrow> string \<Rightarrow> bool" where
  "starts_with s [] = True"
| "starts_with [] (d # p) = False"
| "starts_with (c # s) (d # p) = (c = d \<and> starts_with s p)"

text \<open>\<^verbatim>\<open>s.includes(p)\<close>\<close>

fun str_includes :: "string \<Rightarrow> string \<Rightarrow> bool" where
  "str_includes [] p = (p = [])"
| "str_includes (c # s) p = (starts_with (c # s) p \<or> str_includes s p)"

text \<open>
  The characters of a string, each as the bytes that encode it: a byte together with the
  continuation bytes (\<open>10xxxxxx\<close>) that follow it.
\<close>

definition is_continuation :: "char \<Rightarrow> bool" where
  "is_continuation c = (128 \<le> (of_char c :: nat) \<and> (of_char c :: nat) < 192)"

fun utf8_chars :: "string \<Rightarrow> string list" where
  "utf8_chars [] = []"
| "utf8_chars (c # s) =
     (case utf8_chars s of
        [] \<Rightarrow> [[c]]
      | ch # chs \<Rightarrow> if is_continuation (hd ch) then (c # ch) # chs else [c] # ch # chs)"

text \<open>
  The white space and line terminators of the language, which \<^verbatim>\<open>trim\<close> removes and
  \<^verbatim>\<open>parseInt\<close> skips: U+0009 to U+000D, U+0020, U+00A0, U+1680, U+2000 to U+200A, U+2028,
  U+2029, U+202F, U+205F, U+3000 and U+FEFF.
\<close>

definition white_space :: "string list" where
  "white_space =
     [[CHR 0x09], [CHR 0x0A], [CHR 0x0B], [CHR 0x0C], [CHR 0x0D], [CHR 0x20],
      [CHR 0xC2, CHR 0xA0],
      [CHR 0xE1, CHR 0x9A, CHR 0x80],
      [CHR 0xE2, CHR 0x80, CHR 0x80], [CHR 0xE2, CHR 0x80, CHR 0x81],
      [CHR 0xE2, CHR 0x80, CHR 0x82], [CHR 0xE2, CHR 0x80, CHR 0x83],
      [CHR 0xE2, CHR 0x80, CHR 0x84], [CHR 0xE2, CHR 0x80, CHR 0x85],
      [CHR 0xE2, CHR 0x80, CHR 0x86], [CHR 0xE2, CHR 0x80, CHR 0x87],
      [CHR 0xE2, CHR 0x80, CHR 0x88], [CHR 0xE2, CHR 0x80, CHR 0x89],
      [CHR 0xE2, CHR 0x80, CHR 0x8A],
      [CHR 0xE2, CHR 0x80, CHR 0xA8], [CHR 0xE2, CHR 0x80, CHR 0xA9],
      [CHR 0xE2, CHR 0x80, CHR 0xAF],
      [CHR 0xE2, CHR 0x81, CHR 0x9F],
      [CHR 0xE3, CHR 0x80, CHR 0x80],
      [CHR 0xEF, CHR 0xBB, CHR 0xBF]]"

definition is_space :: "string \<Rightarrow> bool" where
  "is_space ch = (ch \<in> set white_space)"

text \<open>\<^verbatim>\<open>s.trim()\<close>\<close>

definition trim :: "string \<Rightarrow> string" where
  "trim s = concat (rev (dropWhile is_space (rev (dropWhile is_space (utf8_chars s)))))"

text \<open>The string without its leading white space, where \<^verbatim>\<open>parseInt\<close> starts to read.\<close>

definition skip_white_space :: "string \<Rightarrow> string" where
  "skip_white_space s = concat (dropWhile is_space (utf8_chars s))"

text \<open>
  \<^verbatim>\<open>s.substring(0, n)\<close>: the first \<open>n\<close> UTF-16 code units. A character of four bytes is two
  code units, a surrogate pair; when the cut falls inside the pair the result ends with
  the high surrogate alone, held here in the three-byte form of its code point.
\<close>

definition high_surrogate :: "string \<Rightarrow> string" where
  "high_surrogate ch =
     (let cp = (of_char (ch ! 0) mod 8) * 262144 + (of_char (ch ! 1) mod 64) * 4096
               + (of_char (ch ! 2) mod 64) * 64 + (of_char (ch ! 3) mod 64 :: nat);
          hs = 55296 + (cp - 65536) div 1024
      in [CHR 0xED, char_of (128 + (hs div 64) mod 64), char_of (128 + hs mod 64)])"

fun take_units :: "nat \<Rightarrow> string list \<Rightarrow> string list" where
  "take_units n [] = []"
| "take_units n (ch # chs) =
     (if n = 0 then []
      else if length ch = 4 then
        (if n = 1 then [high_surrogate ch] else ch # take_units (n - 2) chs)
      else ch # take_units (n - 1) chs)"

definition substring0 :: "nat \<Rightarrow> string \<Rightarrow> string" where
  "substring0 n s = concat (take_units n (utf8_chars s))"

text \<open>
  \<^verbatim>\<open>s.toUpperCase()\<close> and \<^verbatim>\<open>s.toLowerCase()\<close>. The code searches the lower-cased key for
  field names, which are ASCII, and tests the upper-cased value against \<^verbatim>\<open>/^[A-Z]{3}$/\<close>
  and the table of glyphs. The mapping is exact on ASCII and on every other character
  that can take part in those tests: the characters whose upper-case form consists of
  letters \<open>A\<close> to \<open>Z\<close> or of a glyph of the table (sharp s, dotless i, long s, small xi and
  the ligatures U+FB00 to U+FB06), and the characters whose lower-case form contains an
  ASCII character (capital I with dot above, the Kelvin sign). Any other character outside
  ASCII is left as it is. Its upper-case form contains a character that is neither a
  letter \<open>A\<close> to \<open>Z\<close> nor a glyph of the table, and its lower-case form contains no ASCII
  character, as is true of the character itself: the tests come out the same.
\<close>

definition ascii_upper :: "char \<Rightarrow> char" where
  "ascii_upper c =
     (if 97 \<le> (of_char c :: nat) \<and> (of_char c :: nat) \<le> 122
      then char_of ((of_char c :: nat) - 32) else c)"

definition ascii_lower :: "char \<Rightarrow> char" where
  "ascii_lower c =
     (if 65 \<le> (of_char c :: nat) \<and> (of_char c :: nat) \<le> 90
      then char_of ((of_char c :: nat) + 32) else c)"

definition upper_special :: "(string \<times> string) list" where
  "upper_special =
     [([CHR 0xC3, CHR 0x9F], ''SS''),
      ([CHR 0xC4, CHR 0xB1], ''I''),
      ([CHR 0xC5, CHR 0xBF], ''S''),
      ([CHR 0xCE, CHR 0xBE], [CHR 0xCE, CHR 0x9E]),
      ([CHR 0xEF, CHR 0xAC, CHR 0x80], ''FF''),
      ([CHR 0xEF, CHR 0xAC, CHR 0x81], ''FI''),
      ([CHR 0xEF, CHR 0xAC, CHR 0x82], ''FL''),
      ([CHR 0xEF, CHR 0xAC, CHR 0x83], ''FFI''),
      ([CHR 0xEF, CHR 0xAC, CHR 0x84], ''FFL''),
      ([CHR 0xEF, CHR 0xAC, CHR 0x85], ''ST''),
      ([CHR 0xEF, CHR 0xAC, CHR 0x86], ''ST'')]"

definition lower_special :: "(string \<times> string) list" where
  "lower_special =
     [([CHR 0xC4, CHR 0xB0], [CHR 0x69, CHR 0xCC, CHR 0x87]),
      ([CHR 0xE2, CHR 0x84, CHR 0xAA], ''k'')]"

definition toUpperCase :: "string \<Rightarrow> string" where
  "toUpperCase s =
     concat (map (\<lambda>ch. case map_of upper_special ch of
                          Some r \<Rightarrow> r
                        | None \<Rightarrow> map ascii_upper ch)
                 (utf8_chars s))"

definition toLowerCase :: "string \<Rightarrow> string" where
  "toLowerCase s =
     concat (map (\<lambda>ch. case map_of lower_special ch of
                          Some r \<Rightarrow> r
                        | None \<Rightarrow> map ascii_lower ch)
                 (utf8_chars s))"

text \<open>\<^verbatim>\<open>s.split(c)\<close> for a one-character separator: never the empty list.\<close>

fun split_on :: "char \<Rightarrow> string \<Rightarrow> string list" where
  "split_on c [] = [[]]"
| "split_on c (x # xs) =
     (if x = c then [] # split_on c xs
      else (case split_on c xs of
              w # ws \<Rightarrow> (x # w) # ws
            | [] \<Rightarrow> [[x]]))"

definition is_digit :: "char \<Rightarrow> bool" where
  "is_digit c = (48 \<le> (of_char c :: nat) \<and> (of_char c :: nat) \<le> 57)"

definition digit_val :: "char \<Rightarrow> nat" where
  "digit_val c = of_char c - 48"

definition digits_val :: "string \<Rightarrow> nat" where
  "digits_val ds = foldl (\<lambda>acc c. acc * 10 + digit_val c) 0 ds"

text \<open>
  \<^verbatim>\<open>parseInt(s, 10)\<close>: leading white space, an optional sign, then the longest run of
  decimal digits; \<open>None\<close> is \<^verbatim>\<open>NaN\<close>. The value is the integer the digits denote.
\<close>

definition parseInt10 :: "string \<Rightarrow> int option" where
  "parseInt10 s =
     (let t = skip_white_space s;
          neg = (t \<noteq> [] \<and> hd t = CHR ''-'');
          r = (if t \<noteq> [] \<and> (hd t = CHR ''-'' \<or> hd t = CHR ''+'') then tl t else t);
          ds = takeWhile is_digit r
      in if ds = [] then None
         else Some (if neg then - int (digits_val ds) else int (digits_val ds)))"

subsection \<open>The response cache (cache.ts)\<close>

record CacheEntry =
  data :: jsval
  timestamp :: int
  expiresAt :: int
  url :: string

type_synonym cache = "string \<rightharpoonup> CacheEntry"

text \<open>
  \<^verbatim>\<open>getCachedData(key)\<close> at instant \<open>now\<close>: the entry or \<open>None\<close> (\<^verbatim>\<open>null\<close>), and the
  cache afterwards (an expired entry is deleted).
\<close>

definition getCachedData :: "string \<Rightarrow> int \<Rightarrow> cache \<Rightarrow> CacheEntry option \<times> cache" where
  "getCachedData key now c =
     (case c key of
        None \<Rightarrow> (None, c)
      | Some entry \<Rightarrow>
          if now \<ge> expiresAt entry then (None, c(key := None))
          else (Some entry, c))"

text \<open>\<^verbatim>\<open>setCachedData(key, data, ttlSeconds, url)\<close> at instant \<open>now\<close>.\<close>

definition setCachedData :: "string \<Rightarrow> jsval \<Rightarrow> int \<Rightarrow> string \<Rightarrow> int \<Rightarrow> cache \<Rightarrow> cache" where
  "setCachedData key d ttlSeconds u now c =
     c(key \<mapsto> \<lparr>data = d, timestamp = now, expiresAt = now + ttlSeconds * 1000, url = u\<rparr>)"

definition invalidateCache :: "string \<Rightarrow> cache \<Rightarrow> cache" where
  "invalidateCache key c = c(key := None)"

definition clearCache :: "cache \<Rightarrow> cache" where
  "clearCache c = Map.empty"

definition clearCacheByUrlPattern :: "string \<Rightarrow> cache \<Rightarrow> cache" where
  "clearCacheByUrlPattern urlPattern c =
     (\<lambda>key. case c key of
        None \<Rightarrow> None
      | Some entry \<Rightarrow> if str_includes (url entry) urlPattern then None else Some entry)"

definition cleanupExpiredCache :: "int \<Rightarrow> cache \<Rightarrow> cache" where
  "cleanupExpiredCache now c =
     (\<lambda>key. case c key of
        None \<Rightarrow> None
      | Some entry \<Rightarrow> if now \<ge> expiresAt entry then None else Some entry)"

text \<open>\<^verbatim>\<open>getCacheAge(key)\<close>: whole seconds since the entry was stored.\<close>

definition getCacheAge :: "string \<Rightarrow> int \<Rightarrow> cache \<Rightarrow> int option" where
  "getCacheAge key now c =
     (case c key of
        None \<Rightarrow> None
      | Some entry \<Rightarrow>
          if now \<ge> expiresAt entry then None
          else Some ((now - timestamp entry) div 1000))"

text \<open>
  The caches the module can hold: it starts empty and changes only through the exported
  operations, each at some instant.
\<close>

inductive reachable :: "cache \<Rightarrow> bool" where
  r_init: "reachable Map.empty"
| r_set: "reachable c \<Longrightarrow> reachable (setCachedData key d ttlSeconds u now c)"
| r_get: "reachable c \<Longrightarrow> reachable (snd (getCachedData key now c))"
| r_invalidate: "reachable c \<Longrightarrow> reachable (invalidateCache key c)"
| r_clear: "reachable c \<Longrightarrow> reachable (clearCache c)"
| r_pattern: "reachable c \<Longrightarrow> reachable (clearCacheByUrlPattern urlPattern c)"
| r_cleanup: "reachable c \<Longrightarrow> reachable (cleanupExpiredCache now c)"

text \<open>Every stored entry was built by \<open>setCachedData\<close> from an instant and a TTL.\<close>

definition built :: "CacheEntry \<Rightarrow> bool" where
  "built e = (\<exists>ttlSeconds. expiresAt e = timestamp e + ttlSeconds * 1000)"

subsection \<open>The path resolver (getNestedValue in api.ts)\<close>

text \<open>
  A canonical array index: \<^verbatim>\<open>"0"\<close>, or decimal digits with no leading zero.
\<close>

definition array_index :: "string \<Rightarrow> nat option" where
  "array_index key =
     (if key \<noteq> [] \<and> list_all is_digit key \<and> (key = ''0'' \<or> hd key \<noteq> CHR ''0'')
      then Some (digits_val key) else None)"

text \<open>Own properties of an object or an array (its indices and \<^verbatim>\<open>length\<close>).\<close>

fun has_own :: "jsval \<Rightarrow> string \<Rightarrow> bool" where
  "has_own (JObj kvs) key = (key \<in> set (map fst kvs))"
| "has_own (JArr xs) key =
     (key = ''length'' \<or> (case array_index key of Some i \<Rightarrow> i < length xs | None \<Rightarrow> False))"
| "has_own v key = False"

fun own_prop :: "jsval \<Rightarrow> string \<Rightarrow> jsval" where
  "own_prop (JObj kvs) key = (case map_of kvs key of Some v \<Rightarrow> v | None \<Rightarrow> JUndefined)"
| "own_prop (JArr xs) key =
     (if key = ''length'' then JNum (of_nat (length xs))
      else (case array_index key of
              Some i \<Rightarrow> if i < length xs then xs ! i else JUndefined
            | None \<Rightarrow> JUndefined))"
| "own_prop v key = JUndefined"

text \<open>
  The members an object or array inherits from its prototype (\<^verbatim>\<open>toString\<close>, \<^verbatim>\<open>map\<close>, ...)
  belong to the runtime, not to this repository: they are the parameter \<open>inh\<close>, which
  gives the inherited member of a value under a name, if there is one.

  \<^verbatim>\<open>key in v\<close> raises a \<^verbatim>\<open>TypeError\<close> unless \<open>v\<close> is an object or an array.
\<close>

type_synonym inherited = "jsval \<Rightarrow> string \<Rightarrow> jsval option"

fun js_in :: "inherited \<Rightarrow> string \<Rightarrow> jsval \<Rightarrow> js_error + bool" where
  "js_in inh key (JObj kvs) = Inr (has_own (JObj kvs) key \<or> inh (JObj kvs) key \<noteq> None)"
| "js_in inh key (JArr xs) = Inr (has_own (JArr xs) key \<or> inh (JArr xs) key \<noteq> None)"
| "js_in inh key v = Inl (TypeError ''right-hand side of in is not an object'')"

text \<open>
  \<^verbatim>\<open>v[key]\<close> for a string key: a \<^verbatim>\<open>TypeError\<close> on \<^verbatim>\<open>null\<close> and \<^verbatim>\<open>undefined\<close>, the own
  property if there is one, else the inherited member, else \<^verbatim>\<open>undefined\<close>.
\<close>

fun get_member :: "inherited \<Rightarrow> jsval \<Rightarrow> string \<Rightarrow> js_error + jsval" where
  "get_member inh JUndefined key = Inl (TypeError ''cannot read properties of undefined'')"
| "get_member inh JNull key = Inl (TypeError ''cannot read properties of null'')"
| "get_member inh v key =
     (if has_own v key then Inr (own_prop v key)
      else (case inh v key of Some m \<Rightarrow> Inr m | None \<Rightarrow> Inr JUndefined))"

text \<open>
  \<^verbatim>\<open>xs[index]\<close> on an array, for the number \<^verbatim>\<open>parseInt\<close> returned: the element when the
  index is in range, \<^verbatim>\<open>undefined\<close> otherwise and for \<^verbatim>\<open>NaN\<close> (no prototype has a member
  named by a number).
\<close>

definition array_at :: "jsval list \<Rightarrow> int option \<Rightarrow> jsval" where
  "array_at xs index =
     (case index of
        None \<Rightarrow> JUndefined
      | Some i \<Rightarrow> if 0 \<le> i \<and> i < int (length xs) then xs ! nat i else JUndefined)"

text \<open>
  One iteration of the loop over the path's segments, on the value \<open>current\<close>:
  \<open>Inr None\<close> is \<^verbatim>\<open>return undefined\<close>, \<open>Inr (Some v)\<close> goes on with \<open>current = v\<close>,
  \<open>Inl e\<close> is a thrown \<open>e\<close>.
\<close>

definition resolve_segment :: "inherited \<Rightarrow> jsval \<Rightarrow> string \<Rightarrow> js_error + jsval option" where
  "resolve_segment inh current key =
     (if CHR ''['' \<in> set key then
        (case split_on CHR ''['' key of
           arrayKey # indexStr # rest \<Rightarrow>
             (let index = parseInt10 (remove1 CHR '']'' indexStr) in
              if truthy current \<and> typeof_object current then
                (case js_in inh arrayKey current of
                   Inl e \<Rightarrow> Inl e
                 | Inr False \<Rightarrow> Inr None
                 | Inr True \<Rightarrow>
                     (case get_member inh current arrayKey of
                        Inl e \<Rightarrow> Inl e
                      | Inr (JArr xs) \<Rightarrow>
                          if array_at xs index \<noteq> JUndefined then Inr (Some (array_at xs index))
                          else Inr None
                      | Inr v \<Rightarrow> Inr None))
              else Inr None)
         | _ \<Rightarrow> Inl (TypeError ''cannot read properties of undefined''))
      else
        (if truthy current \<and> typeof_object current then
           (case js_in inh key current of
              Inl e \<Rightarrow> Inl e
            | Inr False \<Rightarrow> Inr None
            | Inr True \<Rightarrow>
                (case get_member inh current key of
                   Inl e \<Rightarrow> Inl e
                 | Inr v \<Rightarrow> Inr (Some v)))
         else Inr None))"

fun resolve_keys :: "inherited \<Rightarrow> jsval \<Rightarrow> string list \<Rightarrow> js_error + jsval option" where
  "resolve_keys inh current [] = Inr (Some current)"
| "resolve_keys inh current (key # keys) =
     (case resolve_segment inh current key of
        Inl e \<Rightarrow> Inl e
      | Inr None \<Rightarrow> Inr None
      | Inr (Some v) \<Rightarrow> resolve_keys inh v keys)"

text \<open>\<^verbatim>\<open>getNestedValue(obj, path)\<close>; \<open>JUndefined\<close> is the not-found result.\<close>

definition getNestedValue :: "inherited \<Rightarrow> jsval \<Rightarrow> string \<Rightarrow> js_error + jsval" where
  "getNestedValue inh obj path =
     (case resolve_keys inh obj (split_on CHR ''.'' path) of
        Inl e \<Rightarrow> Inl e
      | Inr None \<Rightarrow> Inr JUndefined
      | Inr (Some v) \<Rightarrow> Inr v)"

text \<open>A runtime whose prototypes add nothing, for running examples.\<close>

definition no_inherited :: inherited where
  "no_inherited v key = None"

text \<open>
  What every runtime provides at least: the methods every object and every array inherits
  from \<^verbatim>\<open>Object.prototype\<close>, and for a plain object the accessor \<^verbatim>\<open>__proto__\<close>, which
  yields \<^verbatim>\<open>Object.prototype\<close> itself (and \<^verbatim>\<open>null\<close> on that). \<open>object_prototype\<close> is that
  object as \<^verbatim>\<open>in\<close> and member access see it; they do not regard that its properties are not
  enumerable. A real runtime provides more (the methods of \<^verbatim>\<open>Array.prototype\<close>).
\<close>

definition object_methods :: "string list" where
  "object_methods =
     [''constructor'', ''hasOwnProperty'', ''isPrototypeOf'', ''propertyIsEnumerable'',
      ''toLocaleString'', ''toString'', ''valueOf'']"

definition object_prototype :: jsval where
  "object_prototype = JObj (map (\<lambda>name. (name, JFunction)) object_methods)"

fun with_object_methods :: inherited where
  "with_object_methods (JObj kvs) key =
     (if key \<in> set object_methods then Some JFunction
      else if key = ''__proto__''
        then Some (if JObj kvs = object_prototype then JNull else object_prototype)
      else None)"
| "with_object_methods (JArr xs) key = (if key \<in> set object_methods then Some JFunction else None)"
| "with_object_methods v key = None"

subsection \<open>Currency detection (currencyDetection.ts)\<close>

definition CURRENCY_FIELD_NAMES :: "string list" where
  "CURRENCY_FIELD_NAMES =
     [''currency'', ''currencyCode'', ''currency_code'', ''base_currency'', ''baseCurrency'',
      ''vs_currency'', ''vsCurrency'', ''quote_currency'', ''quoteCurrency'', ''symbol'',
      ''code'', ''currencySymbol'', ''currency_symbol'', ''unit'', ''denomination'']"

text \<open>The glyphs of the two tables, as their UTF-8 bytes.\<close>

definition rupee_sign :: string where "rupee_sign = [CHR 0xE2, CHR 0x82, CHR 0xB9]"

definition euro_sign :: string where "euro_sign = [CHR 0xE2, CHR 0x82, CHR 0xAC]"

definition pound_sign :: string where "pound_sign = [CHR 0xC2, CHR 0xA3]"

definition yen_sign :: string where "yen_sign = [CHR 0xC2, CHR 0xA5]"

definition bitcoin_sign :: string where "bitcoin_sign = [CHR 0xE2, CHR 0x82, CHR 0xBF]"

definition xi_sign :: string where "xi_sign = [CHR 0xCE, CHR 0x9E]"

definition CURRENCY_CODE_TO_SYMBOL :: "(string \<times> string) list" where
  "CURRENCY_CODE_TO_SYMBOL =
     [(''USD'', ''$''), (''INR'', rupee_sign), (''EUR'', euro_sign), (''GBP'', pound_sign),
      (''JPY'', yen_sign), (''CNY'', yen_sign), (''AUD'', ''A$''), (''CAD'', ''C$''),
      (''CHF'', ''CHF''), (''BTC'', bitcoin_sign), (''ETH'', xi_sign), (''USDT'', ''$''),
      (''USDC'', ''$'')]"

definition SYMBOL_TO_CURRENCY_CODE :: "(string \<times> string) list" where
  "SYMBOL_TO_CURRENCY_CODE =
     [(''$'', ''USD''), (rupee_sign, ''INR''), (euro_sign, ''EUR''), (pound_sign, ''GBP''),
      (yen_sign, ''JPY''), (bitcoin_sign, ''BTC''), (xi_sign, ''ETH'')]"

record CurrencyInfo =
  code :: string
  symbol :: string
  path :: string

text \<open>\<^verbatim>\<open>path ? `${path}.${key}` : key\<close>\<close>

definition child_path :: "string \<Rightarrow> string \<Rightarrow> string" where
  "child_path p key = (if p \<noteq> [] then p @ ''.'' @ key else key)"

text \<open>\<^verbatim>\<open>/^[A-Z]{3}$/.test(s)\<close>\<close>

definition is_code3 :: "string \<Rightarrow> bool" where
  "is_code3 s =
     (length s = 3 \<and> list_all (\<lambda>c. 65 \<le> (of_char c :: nat) \<and> (of_char c :: nat) \<le> 90) s)"

text \<open>
  The test the loop makes on one key and its value: the key contains a known field name
  (case-insensitively), the value is a non-blank string, and it is a three-letter code or
  a known glyph.
\<close>

definition match_field :: "string \<Rightarrow> string \<Rightarrow> jsval \<Rightarrow> CurrencyInfo option" where
  "match_field p key v =
     (let lowerKey = toLowerCase key in
      if list_ex (\<lambda>field. str_includes lowerKey (toLowerCase field)) CURRENCY_FIELD_NAMES then
        (case v of
           JStr s \<Rightarrow>
             if trim s \<noteq> [] then
               (let currencyValue = toUpperCase (trim s) in
                if length currencyValue = 3 \<and> is_code3 currencyValue then
                  Some \<lparr>code = currencyValue,
                        symbol = (case map_of CURRENCY_CODE_TO_SYMBOL currencyValue of
                                    Some glyph \<Rightarrow> glyph | None \<Rightarrow> currencyValue),
                        path = child_path p key\<rparr>
                else
                  (case map_of SYMBOL_TO_CURRENCY_CODE currencyValue of
                     Some c \<Rightarrow> Some \<lparr>code = c, symbol = currencyValue, path = child_path p key\<rparr>
                   | None \<Rightarrow> None))
             else None
         | _ \<Rightarrow> None)
      else None)"

text \<open>\<^verbatim>\<open>typeof value === 'object' && value !== null && !Array.isArray(value)\<close>\<close>

fun is_plain_object :: "jsval \<Rightarrow> bool" where
  "is_plain_object (JObj kvs) = True"
| "is_plain_object v = False"

text \<open>
  \<^verbatim>\<open>findCurrencyInObject(obj, path, maxDepth, currentDepth)\<close>; \<open>scan_keys\<close> is its
  \<^verbatim>\<open>for (const key of Object.keys(obj))\<close> loop over the properties not yet visited.
\<close>

fun findCurrencyInObject :: "jsval \<Rightarrow> string \<Rightarrow> nat \<Rightarrow> nat \<Rightarrow> CurrencyInfo option"
  and scan_keys :: "(string \<times> jsval) list \<Rightarrow> string \<Rightarrow> nat \<Rightarrow> nat \<Rightarrow> CurrencyInfo option"
where
  "findCurrencyInObject obj p maxDepth currentDepth =
     (if currentDepth > maxDepth \<or> obj = JNull \<or> obj = JUndefined then None
      else (case obj of
              JObj kvs \<Rightarrow> scan_keys kvs p maxDepth currentDepth
            | JArr xs \<Rightarrow>
                (case xs of
                   [] \<Rightarrow> None
                 | x # rest \<Rightarrow> findCurrencyInObject x p maxDepth (currentDepth + 1))
            | _ \<Rightarrow> None))"
| "scan_keys [] p maxDepth currentDepth = None"
| "scan_keys ((key, v) # kvs) p maxDepth currentDepth =
     (case match_field p key v of
        Some r \<Rightarrow> Some r
      | None \<Rightarrow>
          (case (if is_plain_object v
                 then findCurrencyInObject v (child_path p key) maxDepth (currentDepth + 1)
                 else None) of
             Some r \<Rightarrow> Some r
           | None \<Rightarrow> scan_keys kvs p maxDepth currentDepth))"

text \<open>\<^verbatim>\<open>detectCurrency(data)\<close>\<close>

definition detectCurrency :: "jsval \<Rightarrow> CurrencyInfo option" where
  "detectCurrency d =
     (if \<not> truthy d \<or> \<not> typeof_object d then None
      else (case findCurrencyInObject d [] 5 0 of
              Some r \<Rightarrow> Some r
            | None \<Rightarrow>
                (case (if truthy (own_prop d ''data'') \<and> typeof_object (own_prop d ''data'')
                       then findCurrencyInObject (own_prop d ''data'') ''data'' 5 0
                       else None) of
                   Some r \<Rightarrow> Some r
                 | None \<Rightarrow>
                     (case d of
                        JArr (x # rest) \<Rightarrow> findCurrencyInObject x ''[0]'' 5 0
                      | _ \<Rightarrow> None))))"

text \<open>
  The order the specification words: all the object's own keys are tested before any
  nested object is entered. \<open>own_keys_first\<close> is the match that order finds among the own
  keys of an object.
\<close>

fun own_keys_first :: "(string \<times> jsval) list \<Rightarrow> string \<Rightarrow> CurrencyInfo option" where
  "own_keys_first [] p = None"
| "own_keys_first ((key, v) # kvs) p =
     (case match_field p key v of Some r \<Rightarrow> Some r | None \<Rightarrow> own_keys_first kvs p)"

text \<open>A family of inputs: \<open>v\<close> wrapped in \<open>n\<close> objects, each under the key \<open>x\<close>.\<close>

fun nested :: "nat \<Rightarrow> jsval \<Rightarrow> jsval" where
  "nested 0 v = v"
| "nested (Suc n) v = JObj [(''x'', nested n v)]"

subsection \<open>The runtime around the fetch orchestrator\<close>

text \<open>
  \<^verbatim>\<open>parseInt(s)\<close> with no radix: as \<open>parseInt10\<close>, but a \<^verbatim>\<open>0x\<close> prefix selects base 16.
\<close>

definition is_hex_digit :: "char \<Rightarrow> bool" where
  "is_hex_digit c =
     (is_digit c \<or> (65 \<le> (of_char c :: nat) \<and> (of_char c :: nat) \<le> 70)
                \<or> (97 \<le> (of_char c :: nat) \<and> (of_char c :: nat) \<le> 102))"

definition hex_digit_val :: "char \<Rightarrow> nat" where
  "hex_digit_val c =
     (if is_digit c then of_char c - 48
      else if (of_char c :: nat) \<le> 70 then of_char c - 55
      else of_char c - 87)"

definition parseInt :: "string \<Rightarrow> int option" where
  "parseInt s =
     (let t = skip_white_space s;
          neg = (t \<noteq> [] \<and> hd t = CHR ''-'');
          r = (if t \<noteq> [] \<and> (hd t = CHR ''-'' \<or> hd t = CHR ''+'') then tl t else t);
          hex = (starts_with r ''0x'' \<or> starts_with r ''0X'');
          ds = (if hex then takeWhile is_hex_digit (drop 2 r) else takeWhile is_digit r);
          n = (if hex then foldl (\<lambda>acc c. acc * 16 + hex_digit_val c) 0 ds else digits_val ds)
      in if ds = [] then None
         else Some (if neg then - int n else int n))"

text \<open>
  \<^verbatim>\<open>new URL(u)\<close> is the browser's parser: a parameter. It gives the parts the code reads,
  or the message of the \<^verbatim>\<open>TypeError\<close> it throws.
\<close>

record parsed_url =
  origin :: string
  pathname :: string
  searchParams :: "(string \<times> string) list"

text \<open>
  A request as \<^verbatim>\<open>fetch\<close> receives it: the target itself, or the proxy route
  \<^verbatim>\<open>/api/proxy\<close> with the target and, when both are given, the key and header name as
  query parameters; and the custom headers (none for \<^verbatim>\<open>undefined\<close>).
\<close>

datatype target = Direct string | ViaProxy string "(string \<times> string) option"

record request =
  target :: target
  headers :: "(string \<times> string) list"

text \<open>
  A response: its status, the \<^verbatim>\<open>Retry-After\<close> header (\<open>None\<close> when \<^verbatim>\<open>headers.get\<close> gives
  \<^verbatim>\<open>null\<close>), what \<^verbatim>\<open>await response.json()\<close> settles to (\<open>None\<close> when it rejects) and what
  \<^verbatim>\<open>await response.text()\<close>, called after \<^verbatim>\<open>json()\<close> has rejected, settles to (\<open>Inl msg\<close>
  when it rejects with a \<^verbatim>\<open>TypeError\<close> of that message).
\<close>

record http_response =
  status :: nat
  statusText :: string
  retryAfter :: "string option"
  json_body :: "jsval option"
  text_body :: "string + string"

definition ok :: "http_response \<Rightarrow> bool" where
  "ok r = (200 \<le> status r \<and> status r \<le> 299)"

text \<open>
  What \<^verbatim>\<open>await fetch(...)\<close> settles to (\<open>Inl msg\<close> when it rejects, which \<^verbatim>\<open>fetch\<close> does
  with a \<^verbatim>\<open>TypeError\<close> of that message), and the milliseconds it took.
\<close>

record net_outcome =
  took :: nat
  settled :: "string + http_response"

text \<open>
  The runtime: the URL parser, \<^verbatim>\<open>String.prototype.localeCompare\<close>, and the network, which
  answers the \<open>n\<close>-th request issued (counting from 0).
\<close>

record runtime =
  parseURL :: "string \<Rightarrow> string + parsed_url"
  localeCompare :: "string \<Rightarrow> string \<Rightarrow> int"
  network :: "nat \<Rightarrow> request \<Rightarrow> net_outcome"

subsection \<open>Cache keys (generateCacheKey in cache.ts)\<close>

text \<open>
  \<^verbatim>\<open>entries.sort(([a], [b]) => a.localeCompare(b))\<close>: a stable sort on the parameter names.
\<close>

fun insert_entry ::
  "(string \<Rightarrow> string \<Rightarrow> int) \<Rightarrow> string \<times> string \<Rightarrow> (string \<times> string) list \<Rightarrow> (string \<times> string) list"
where
  "insert_entry cmp x [] = [x]"
| "insert_entry cmp x (y # ys) =
     (if cmp (fst x) (fst y) \<le> 0 then x # y # ys else y # insert_entry cmp x ys)"

definition sort_entries ::
  "(string \<Rightarrow> string \<Rightarrow> int) \<Rightarrow> (string \<times> string) list \<Rightarrow> (string \<times> string) list"
where
  "sort_entries cmp xs = foldr (insert_entry cmp) xs []"

text \<open>\<^verbatim>\<open>parts.join(sep)\<close>\<close>

fun join :: "string \<Rightarrow> string list \<Rightarrow> string" where
  "join sep [] = []"
| "join sep [x] = x"
| "join sep (x # y # ys) = x @ sep @ join sep (y # ys)"

definition generateCacheKey :: "runtime \<Rightarrow> string \<Rightarrow> string option \<Rightarrow> string option \<Rightarrow> string" where
  "generateCacheKey rt u key_opt header_opt =
     (case parseURL rt u of
        Inr urlObj \<Rightarrow>
          (let sortedParams =
                 join ''&'' (map (\<lambda>(k, v). k @ ''='' @ v)
                                (sort_entries (localeCompare rt) (searchParams urlObj)));
               baseUrl = origin urlObj @ pathname urlObj;
               keySuffix = (case key_opt of
                              Some k \<Rightarrow> if k \<noteq> [] then ''&_key='' @ substring0 8 k else []
                            | None \<Rightarrow> []);
               headerSuffix = (case header_opt of
                                 Some h \<Rightarrow> if h \<noteq> [] then ''&_header='' @ h else []
                               | None \<Rightarrow> [])
           in baseUrl @ ''?'' @ sortedParams @ keySuffix @ headerSuffix)
      | Inl msg \<Rightarrow>
          (let keySuffix = (case key_opt of
                              Some k \<Rightarrow> if k \<noteq> [] then ''_key_'' @ substring0 8 k else []
                            | None \<Rightarrow> []);
               headerSuffix = (case header_opt of
                                 Some h \<Rightarrow> if h \<noteq> [] then ''_header_'' @ h else []
                               | None \<Rightarrow> [])
           in u @ keySuffix @ headerSuffix))"

text \<open>
  What a comparison function must satisfy for the sort to be determined: it is total
  and transitive, and on the names at hand two names that compare equal are the same.
\<close>

definition total_preorder :: "(string \<Rightarrow> string \<Rightarrow> int) \<Rightarrow> bool" where
  "total_preorder cmp =
     ((\<forall>x y. cmp x y \<le> 0 \<or> cmp y x \<le> 0)
      \<and> (\<forall>x y z. cmp x y \<le> 0 \<longrightarrow> cmp y z \<le> 0 \<longrightarrow> cmp x z \<le> 0))"

definition separates :: "(string \<Rightarrow> string \<Rightarrow> int) \<Rightarrow> string set \<Rightarrow> bool" where
  "separates cmp names =
     (\<forall>x \<in> names. \<forall>y \<in> names. cmp x y \<le> 0 \<longrightarrow> cmp y x \<le> 0 \<longrightarrow> x = y)"

subsection \<open>The world of the orchestrator (api.ts)\<close>

record rate_limit =
  count :: nat
  resetTime :: "int option"

text \<open>
  The state a call reads and changes: the two module-level maps, the clock
  (\<^verbatim>\<open>Date.now()\<close>), and two ghost fields: the requests issued so far, in order, and the
  total time spent in \<^verbatim>\<open>setTimeout\<close>. A \<open>resetTime\<close> of \<open>None\<close> is \<^verbatim>\<open>NaN\<close>.
\<close>

record world =
  responseCache :: cache
  rateLimitCache :: "string \<rightharpoonup> rate_limit"
  clock :: int
  requests :: "request list"
  slept :: int

record fetch_args =
  req_url :: string
  apiKey :: "string option"
  apiKeyHeader :: "string option"
  retryCount :: int
  maxRetries :: int
  useProxy :: bool
  cacheTTL :: "int option"
  bypassCache :: bool

text \<open>The returned \<^verbatim>\<open>ApiResponse\<close>; \<open>r_error = None\<close> when the field is not set.\<close>

record api_response =
  r_data :: jsval
  r_error :: "message option"
  r_timestamp :: int
  fromCache :: bool
  cacheAge :: "int option"

text \<open>How the body of the \<^verbatim>\<open>try\<close> block ends.\<close>

datatype outcome =
    Return api_response world
  | Retry world
  | Throw js_error world

text \<open>\<^verbatim>\<open>cacheTTL !== undefined && cacheTTL > 0\<close>\<close>

definition cache_on :: "fetch_args \<Rightarrow> bool" where
  "cache_on a = (case cacheTTL a of Some ttl \<Rightarrow> 0 < ttl | None \<Rightarrow> False)"

definition cache_key :: "runtime \<Rightarrow> fetch_args \<Rightarrow> string" where
  "cache_key rt a = generateCacheKey rt (req_url a) (apiKey a) (apiKeyHeader a)"

text \<open>
  \<^verbatim>\<open>checkRateLimit(url)\<close>: \<open>Some t\<close> is \<^verbatim>\<open>{limited: true, resetTime: t}\<close>, \<open>None\<close> is
  \<^verbatim>\<open>{limited: false}\<close>. With a \<^verbatim>\<open>NaN\<close> reset time both comparisons are false.
\<close>

definition checkRateLimit :: "runtime \<Rightarrow> string \<Rightarrow> world \<Rightarrow> js_error + (int option \<times> world)" where
  "checkRateLimit rt u w =
     (case parseURL rt u of
        Inl msg \<Rightarrow> Inl (TypeError msg)
      | Inr urlObj \<Rightarrow>
          (case rateLimitCache w (origin urlObj) of
             None \<Rightarrow> Inr (None, w)
           | Some limit \<Rightarrow>
               (case resetTime limit of
                  None \<Rightarrow> Inr (None, w)
                | Some t \<Rightarrow>
                    if clock w < t then Inr (Some t, w)
                    else Inr (None, w\<lparr>rateLimitCache := (rateLimitCache w)(origin urlObj := None)\<rparr>))))"

definition recordRateLimit :: "runtime \<Rightarrow> string \<Rightarrow> int option \<Rightarrow> world \<Rightarrow> js_error + world" where
  "recordRateLimit rt u t w =
     (case parseURL rt u of
        Inl msg \<Rightarrow> Inl (TypeError msg)
      | Inr urlObj \<Rightarrow>
          Inr (w\<lparr>rateLimitCache := (rateLimitCache w)(origin urlObj \<mapsto> \<lparr>count = 1, resetTime = t\<rparr>)\<rparr>))"

text \<open>The test for an authentication parameter already in the URL.\<close>

definition urlHasAuth :: "string \<Rightarrow> bool" where
  "urlHasAuth u =
     (str_includes u ''token='' \<or> str_includes u ''apikey='' \<or> str_includes u ''api_key=''
      \<or> str_includes u ''key='')"

text \<open>
  \<^verbatim>\<open>obj[name] = v\<close> on an object literal, for a string \<open>v\<close>: the own property the
  assignment sets. Under the name \<^verbatim>\<open>__proto__\<close> it sets none: the assignment reaches the
  accessor \<^verbatim>\<open>Object.prototype\<close> defines, which ignores a value that is not an object.
\<close>

definition assigned :: "string \<Rightarrow> string \<Rightarrow> (string \<times> string) list" where
  "assigned name v = (if name = ''__proto__'' then [] else [(name, v)])"

text \<open>
  The \<^verbatim>\<open>headers\<close> object built for a direct request, as \<^verbatim>\<open>Object.keys\<close> sees it: its own
  properties.
\<close>

definition auth_headers :: "fetch_args \<Rightarrow> (string \<times> string) list" where
  "auth_headers a =
     (if \<not> useProxy a then
        (case apiKey a of
           None \<Rightarrow> []
         | Some k \<Rightarrow>
             (case apiKeyHeader a of
                None \<Rightarrow> []
              | Some h \<Rightarrow>
                  if k \<noteq> [] \<and> h \<noteq> [] \<and> trim k \<noteq> [] \<and> trim h \<noteq> [] \<and> \<not> urlHasAuth (req_url a)
                  then assigned h k else []))
      else [])"

text \<open>The key and header name handed to the proxy: \<^verbatim>\<open>if (apiKey && apiKeyHeader)\<close>.\<close>

definition proxy_params :: "fetch_args \<Rightarrow> (string \<times> string) option" where
  "proxy_params a =
     (case apiKey a of
        None \<Rightarrow> None
      | Some k \<Rightarrow>
          (case apiKeyHeader a of
             None \<Rightarrow> None
           | Some h \<Rightarrow> if k \<noteq> [] \<and> h \<noteq> [] then Some (k, h) else None))"

definition build_request :: "fetch_args \<Rightarrow> request" where
  "build_request a =
     (if useProxy a then \<lparr>target = ViaProxy (req_url a) (proxy_params a), headers = []\<rparr>
      else \<lparr>target = Direct (req_url a), headers = auth_headers a\<rparr>)"

text \<open>\<^verbatim>\<open>await fetch(...)\<close>: the request is logged and the clock moves by the time taken.\<close>

definition do_fetch :: "runtime \<Rightarrow> request \<Rightarrow> world \<Rightarrow> (string + http_response) \<times> world" where
  "do_fetch rt req w =
     (let out = network rt (length (requests w)) req
      in (settled out,
          w\<lparr>requests := requests w @ [req], clock := clock w + int (took out)\<rparr>))"

text \<open>
  \<^verbatim>\<open>await new Promise(resolve => setTimeout(resolve, ms))\<close>: the least the timer takes; a
  negative delay is no delay.
\<close>

definition sleep :: "int \<Rightarrow> world \<Rightarrow> world" where
  "sleep ms w = w\<lparr>clock := clock w + max 0 ms, slept := slept w + max 0 ms\<rparr>"

text \<open>\<^verbatim>\<open>Math.pow(2, retryCount) * 1000\<close>, in whole milliseconds.\<close>

definition backoff_ms :: "int \<Rightarrow> int" where
  "backoff_ms n = (if 0 \<le> n then 1000 * 2 ^ nat n else 1000 div 2 ^ nat (- n))"

text \<open>\<^verbatim>\<open>Math.ceil(ms / 1000)\<close>\<close>

definition ceil_seconds :: "int \<Rightarrow> int" where
  "ceil_seconds ms = - ((- ms) div 1000)"

text \<open>
  \<^verbatim>\<open>v.name\<close> for the names the orchestrator reads (\<^verbatim>\<open>error\<close>, \<^verbatim>\<open>data\<close>, ...), none of
  which a prototype defines: a \<^verbatim>\<open>TypeError\<close> on \<^verbatim>\<open>null\<close> and \<^verbatim>\<open>undefined\<close>, else the own
  property or \<^verbatim>\<open>undefined\<close>.
\<close>

fun member :: "jsval \<Rightarrow> string \<Rightarrow> js_error + jsval" where
  "member JNull key = Inl (TypeError ''cannot read properties of null'')"
| "member JUndefined key = Inl (TypeError ''cannot read properties of undefined'')"
| "member v key = Inr (own_prop v key)"

text \<open>\<^verbatim>\<open>a || b || ... || last\<close>\<close>

fun first_truthy :: "jsval list \<Rightarrow> jsval \<Rightarrow> jsval" where
  "first_truthy [] final = final"
| "first_truthy (v # vs) final = (if truthy v then v else first_truthy vs final)"

text \<open>The message computed from the body of a response that is not ok.\<close>

definition fallback_message :: "http_response \<Rightarrow> message" where
  "fallback_message resp =
     (case text_body resp of
        Inr text \<Rightarrow>
          if text \<noteq> [] then Text text
          else if statusText resp \<noteq> [] then Text (statusText resp)
          else HttpStatus (status resp)
      | Inl e \<Rightarrow>
          if statusText resp \<noteq> [] then Text (statusText resp) else HttpStatus (status resp))"

definition http_error_message :: "http_response \<Rightarrow> message" where
  "http_error_message resp =
     (case json_body resp of
        None \<Rightarrow> fallback_message resp
      | Some errorData \<Rightarrow>
          (case member errorData ''error'' of
             Inl e \<Rightarrow> fallback_message resp
           | Inr err \<Rightarrow>
               (let v = first_truthy
                          [err, own_prop errorData ''message'', own_prop errorData ''Error Message'',
                           own_prop errorData ''error_message'', own_prop errorData ''msg'',
                           own_prop errorData ''description'']
                          JUndefined
                in if truthy v then Stringified v
                   else (case errorData of
                           JStr s \<Rightarrow> Stringified errorData
                         | _ \<Rightarrow> HttpStatus (status resp)))))"

definition success :: "jsval \<Rightarrow> world \<Rightarrow> api_response" where
  "success d w =
     \<lparr>r_data = d, r_error = None, r_timestamp = clock w, fromCache = False, cacheAge = None\<rparr>"

definition failure :: "message \<Rightarrow> world \<Rightarrow> api_response" where
  "failure m w =
     \<lparr>r_data = JNull, r_error = Some m, r_timestamp = clock w, fromCache = False, cacheAge = None\<rparr>"

text \<open>\<^verbatim>\<open>if (cacheTTL !== undefined && cacheTTL > 0) setCachedData(cacheKey, d, cacheTTL, url)\<close>\<close>

definition cache_store :: "runtime \<Rightarrow> fetch_args \<Rightarrow> jsval \<Rightarrow> world \<Rightarrow> world" where
  "cache_store rt a d w =
     (case cacheTTL a of
        None \<Rightarrow> w
      | Some ttl \<Rightarrow>
          if 0 < ttl
          then w\<lparr>responseCache :=
                   setCachedData (cache_key rt a) d ttl (req_url a) (clock w) (responseCache w)\<rparr>
          else w)"

text \<open>\<^verbatim>\<open>if (cacheTTL !== undefined && cacheTTL > 0) invalidateCache(cacheKey)\<close>\<close>

definition invalidate_on_error :: "runtime \<Rightarrow> fetch_args \<Rightarrow> world \<Rightarrow> world" where
  "invalidate_on_error rt a w =
     (if cache_on a
      then w\<lparr>responseCache := invalidateCache (cache_key rt a) (responseCache w)\<rparr>
      else w)"

text \<open>The branch \<^verbatim>\<open>if (!response.ok)\<close>.\<close>

definition handle_error :: "runtime \<Rightarrow> fetch_args \<Rightarrow> http_response \<Rightarrow> world \<Rightarrow> outcome" where
  "handle_error rt a resp w =
     (let errorMessage = http_error_message resp in
      if status resp = 429 then
        (let t = (case retryAfter resp of
                    None \<Rightarrow> Some (clock w + 60000)
                  | Some s \<Rightarrow>
                      if s \<noteq> [] then map_option (\<lambda>n. clock w + n * 1000) (parseInt s)
                      else Some (clock w + 60000))
         in case recordRateLimit rt (req_url a) t w of
              Inl e \<Rightarrow> Throw e w
            | Inr w1 \<Rightarrow>
                (case t of
                   None \<Rightarrow> Throw (Error (ApiRateLimitWait 60)) w1
                 | Some r \<Rightarrow>
                     if retryCount a < maxRetries a \<and> r \<noteq> 0
                     then Retry (sleep (min (r - clock w1) 60000) w1)
                     else Throw (Error (ApiRateLimitWait
                                          (if r \<noteq> 0 then ceil_seconds (r - clock w1) else 60))) w1))
      else if status resp = 401 \<or> status resp = 403 then
        Throw (Error (if str_includes (req_url a) ''finnhub.io'' \<and> status resp = 403
                      then Finnhub403 errorMessage
                      else ApiReturned (status resp) errorMessage)) w
      else if status resp = 400 then Throw (Error (BadRequest errorMessage)) w
      else if 500 \<le> status resp \<and> retryCount a < maxRetries a
        then Retry (sleep (backoff_ms (retryCount a)) w)
      else Throw (Error errorMessage) w)"

text \<open>The Alpha Vantage guidance: \<^verbatim>\<open>errorMsg.includes(...)\<close> exists on strings and arrays only.\<close>

definition alpha_vantage_error :: "jsval \<Rightarrow> js_error" where
  "alpha_vantage_error errorMsg =
     (case errorMsg of
        JStr s \<Rightarrow>
          Error (if str_includes s ''Invalid API call'' then AlphaVantageInvalidCall (Stringified errorMsg)
                 else if str_includes s ''Thank you for using Alpha Vantage''
                   then AlphaVantageThankYou (Stringified errorMsg)
                 else AlphaVantageError (Stringified errorMsg))
      | JArr xs \<Rightarrow>
          Error (if JStr ''Invalid API call'' \<in> set xs then AlphaVantageInvalidCall (Stringified errorMsg)
                 else if JStr ''Thank you for using Alpha Vantage'' \<in> set xs
                   then AlphaVantageThankYou (Stringified errorMsg)
                 else AlphaVantageError (Stringified errorMsg))
      | _ \<Rightarrow> TypeError ''errorMsg.includes is not a function'')"

text \<open>The rest of the \<^verbatim>\<open>try\<close> block, for a response that is ok.\<close>

definition handle_ok :: "runtime \<Rightarrow> fetch_args \<Rightarrow> http_response \<Rightarrow> world \<Rightarrow> outcome" where
  "handle_ok rt a resp w =
     (case json_body resp of
        None \<Rightarrow>
          (case text_body resp of
             Inl msg \<Rightarrow> Throw (TypeError msg) w
           | Inr text \<Rightarrow> Throw (Error (InvalidJSON (substring0 100 text))) w)
      | Some d \<Rightarrow>
          (case member d ''error'' of
             Inl e \<Rightarrow> Throw e w
           | Inr err \<Rightarrow>
               if useProxy a then
                 (if truthy err then Throw (Error (Stringified err)) (invalidate_on_error rt a w)
                  else if truthy (own_prop d ''data'')
                    then Return (success (own_prop d ''data'') w) (cache_store rt a (own_prop d ''data'') w)
                  else Return (success d w) (cache_store rt a d w))
               else
                 (let errorMsg = first_truthy [err, own_prop d ''Error Message''] (own_prop d ''Note'')
                  in if truthy errorMsg then
                       (if str_includes (req_url a) ''alphavantage.co''
                        then Throw (alpha_vantage_error errorMsg) w
                        else Throw (Error (Stringified errorMsg)) w)
                     else Return (success d w) (cache_store rt a d w))))"

text \<open>
  The \<^verbatim>\<open>try\<close> block up to the request: the cache lookup and the rate-limit check.
  \<open>Inl\<close> is how the block ends there; \<open>Inr w1\<close> goes on to the request in world \<open>w1\<close>.
\<close>

definition before_request :: "runtime \<Rightarrow> fetch_args \<Rightarrow> world \<Rightarrow> outcome + world" where
  "before_request rt a w =
     (let looked = (if \<not> bypassCache a \<and> cache_on a
                    then getCachedData (cache_key rt a) (clock w) (responseCache w)
                    else (None, responseCache w));
          w0 = w\<lparr>responseCache := snd looked\<rparr>
      in case fst looked of
           Some cachedEntry \<Rightarrow>
             Inl (Return \<lparr>r_data = data cachedEntry, r_error = None,
                          r_timestamp = timestamp cachedEntry, fromCache = True,
                          cacheAge = getCacheAge (cache_key rt a) (clock w0) (responseCache w0)\<rparr> w0)
         | None \<Rightarrow>
             (case checkRateLimit rt (req_url a) w0 of
                Inl e \<Rightarrow> Inl (Throw e w0)
              | Inr (Some t, w1) \<Rightarrow>
                  Inl (Return (failure (RateLimitWait (ceil_seconds (t - clock w1))) w1) w1)
              | Inr (None, w1) \<Rightarrow> Inr w1))"

text \<open>The body of the \<^verbatim>\<open>try\<close> block.\<close>

definition attempt :: "runtime \<Rightarrow> fetch_args \<Rightarrow> world \<Rightarrow> outcome" where
  "attempt rt a w =
     (case before_request rt a w of
        Inl out \<Rightarrow> out
      | Inr w1 \<Rightarrow>
          (case do_fetch rt (build_request a) w1 of
             (Inl msg, w2) \<Rightarrow> Throw (TypeError msg) w2
           | (Inr resp, w2) \<Rightarrow>
               if \<not> ok resp then handle_error rt a resp w2 else handle_ok rt a resp w2))"

text \<open>The \<^verbatim>\<open>catch\<close> block.\<close>

definition is_cors_error :: "js_error \<Rightarrow> bool" where
  "is_cors_error e = (case e of TypeError msg \<Rightarrow> str_includes msg ''fetch'' | _ \<Rightarrow> False)"

definition error_text :: "js_error \<Rightarrow> message" where
  "error_text e = (case e of TypeError msg \<Rightarrow> Text msg | Error m \<Rightarrow> m)"

definition proxy_fallback :: "runtime \<Rightarrow> fetch_args \<Rightarrow> world \<Rightarrow> api_response \<times> world" where
  "proxy_fallback rt a w =
     (case do_fetch rt \<lparr>target = ViaProxy (req_url a) (proxy_params a), headers = []\<rparr> w of
        (Inl msg, w1) \<Rightarrow> (failure CorsError w1, w1)
      | (Inr proxyFetchResponse, w1) \<Rightarrow>
          if \<not> ok proxyFetchResponse then
            (case json_body proxyFetchResponse of
               None \<Rightarrow> (failure CorsError w1, w1)
             | Some errorData \<Rightarrow>
                 (failure CorsError (invalidate_on_error rt a w1), invalidate_on_error rt a w1))
          else
            (case json_body proxyFetchResponse of
               None \<Rightarrow> (failure CorsError w1, w1)
             | Some proxyData \<Rightarrow>
                 (case member proxyData ''data'' of
                    Inl e \<Rightarrow> (failure CorsError w1, w1)
                  | Inr pd \<Rightarrow> (success pd w1, cache_store rt a pd w1))))"

definition catch_handler :: "runtime \<Rightarrow> fetch_args \<Rightarrow> js_error \<Rightarrow> world \<Rightarrow> api_response \<times> world" where
  "catch_handler rt a e w =
     (if is_cors_error e \<and> \<not> useProxy a then proxy_fallback rt a w
      else (failure (error_text e) (invalidate_on_error rt a w), invalidate_on_error rt a w))"

text \<open>
  \<^verbatim>\<open>fetchApiData\<close>: the \<^verbatim>\<open>try\<close> block returns, or returns what the call with one more retry
  returns, or throws into the \<^verbatim>\<open>catch\<close> block.
\<close>

function fetchApiData :: "runtime \<Rightarrow> fetch_args \<Rightarrow> world \<Rightarrow> api_response \<times> world" where
  "fetchApiData rt a w =
     (case attempt rt a w of
        Return r w' \<Rightarrow> (r, w')
      | Retry w' \<Rightarrow> fetchApiData rt (a\<lparr>retryCount := retryCount a + 1\<rparr>) w'
      | Throw e w' \<Rightarrow> catch_handler rt a e w')"
  by pat_completeness auto
termination
proof (relation "measure (\<lambda>(rt, a, w). nat (maxRetries a - retryCount a))")
  show "wf (measure (\<lambda>(rt, a, w). nat (maxRetries a - retryCount a)))"
    by simp
next
  fix rt :: runtime and a :: fetch_args and w w' :: world
  assume retry: "attempt rt a w = Retry w'"
  have "before_request rt a w \<noteq> Inl (Retry w')"
    by (auto simp: before_request_def Let_def split: sum.splits option.splits prod.splits)
  moreover have "\<And>resp v. handle_ok rt a resp v \<noteq> Retry w'"
    by (auto simp: handle_ok_def Let_def split: sum.splits option.splits)
  moreover have "\<And>resp v. handle_error rt a resp v = Retry w' \<Longrightarrow> retryCount a < maxRetries a"
    by (auto simp: handle_error_def Let_def split: sum.splits option.splits if_splits)
  ultimately have "retryCount a < maxRetries a"
    using retry by (auto simp: attempt_def split: sum.splits prod.splits if_splits)
  then show "((rt, a\<lparr>retryCount := retryCount a + 1\<rparr>, w'), (rt, a, w))
      \<in> measure (\<lambda>(rt, a, w). nat (maxRetries a - retryCount a))"
    by simp
qed

text \<open>The world in which the \<^verbatim>\<open>try\<close> block ends.\<close>

fun world_of :: "outcome \<Rightarrow> world" where
  "world_of (Return r w) = w"
| "world_of (Retry w) = w"
| "world_of (Throw e w) = w"

text \<open>The request the \<^verbatim>\<open>catch\<close> block sends to the proxy route.\<close>

definition proxy_request :: "fetch_args \<Rightarrow> request" where
  "proxy_request a = \<lparr>target = ViaProxy (req_url a) (proxy_params a), headers = []\<rparr>"

text \<open>
  The proxy route (\<^verbatim>\<open>GET\<close> of \<^verbatim>\<open>/api/proxy\<close>) sends its own request to the target with two
  fixed headers and, \<^verbatim>\<open>if (apiKey && apiKeyHeader && apiKeyHeader.trim() !== '')\<close>, the
  assignment \<^verbatim>\<open>headers[apiKeyHeader] = apiKey\<close>. \<open>route_credential\<close> is the property that
  assignment sets, for the two parameters as the orchestrator passes them (both or
  neither).
\<close>

definition route_credential :: "(string \<times> string) option \<Rightarrow> (string \<times> string) list" where
  "route_credential params =
     (case params of
        None \<Rightarrow> []
      | Some (k, h) \<Rightarrow> if k \<noteq> [] \<and> h \<noteq> [] \<and> trim h \<noteq> [] then assigned h k else [])"

text \<open>
  The credential a request makes reach the API: the custom headers of a direct request;
  for a request to the proxy route, the header the route sets for it.
\<close>

definition credential :: "request \<Rightarrow> (string \<times> string) list" where
  "credential q =
     (case target q of
        Direct u \<Rightarrow> headers q
      | ViaProxy u params \<Rightarrow> route_credential params)"

text \<open>
  The specification's reading of the fallback: the proxy request \<open>p\<close> replays the direct
  request \<open>d\<close> when it names the same URL and makes the same credential reach the API.
\<close>

definition replays :: "request \<Rightarrow> request \<Rightarrow> bool" where
  "replays p d =
     (case target d of
        Direct u \<Rightarrow>
          (case target p of
             ViaProxy u' params \<Rightarrow> u' = u \<and> credential p = credential d
           | Direct u' \<Rightarrow> False)
      | ViaProxy u params \<Rightarrow> False)"

subsection \<open>A concrete runtime and inputs, for running the orchestrator\<close>

text \<open>
  A comparison byte by byte stands in for \<^verbatim>\<open>localeCompare\<close>; the parser is a table of the
  URLs used below with the parts the browser's parser gives for them.
\<close>

fun compare_strings :: "string \<Rightarrow> string \<Rightarrow> int" where
  "compare_strings [] [] = 0"
| "compare_strings [] (d # ds) = - 1"
| "compare_strings (c # cs) [] = 1"
| "compare_strings (c # cs) (d # ds) =
     (if (of_char c :: nat) < of_char d then - 1
      else if (of_char d :: nat) < of_char c then 1
      else compare_strings cs ds)"

definition demo_parse :: "string \<Rightarrow> string + parsed_url" where
  "demo_parse u =
     (if u = ''https://api.example.com/quote?symbol=IBM'' then
        Inr \<lparr>origin = ''https://api.example.com'', pathname = ''/quote'',
             searchParams = [(''symbol'', ''IBM'')]\<rparr>
      else if u = ''https://api.example.com/quote?symbol=IBM&token=abc'' then
        Inr \<lparr>origin = ''https://api.example.com'', pathname = ''/quote'',
             searchParams = [(''symbol'', ''IBM''), (''token'', ''abc'')]\<rparr>
      else if u = ''https://api.example.com/news'' then
        Inr \<lparr>origin = ''https://api.example.com'', pathname = ''/news'', searchParams = []\<rparr>
      else if u = ''https://api.example.com/q?b=2&a=1'' then
        Inr \<lparr>origin = ''https://api.example.com'', pathname = ''/q'',
             searchParams = [(''b'', ''2''), (''a'', ''1'')]\<rparr>
      else if u = ''https://api.example.com/q?a=1&b=2'' then
        Inr \<lparr>origin = ''https://api.example.com'', pathname = ''/q'',
             searchParams = [(''a'', ''1''), (''b'', ''2'')]\<rparr>
      else if u = ''https://api.example.com/q?a=1&a=2'' then
        Inr \<lparr>origin = ''https://api.example.com'', pathname = ''/q'',
             searchParams = [(''a'', ''1''), (''a'', ''2'')]\<rparr>
      else if u = ''https://api.example.com/q?a=2&a=1'' then
        Inr \<lparr>origin = ''https://api.example.com'', pathname = ''/q'',
             searchParams = [(''a'', ''2''), (''a'', ''1'')]\<rparr>
      else if u = ''https://api.example.com/q?%C3%A9=1&e%CC%81=2'' then
        Inr \<lparr>origin = ''https://api.example.com'', pathname = ''/q'',
             searchParams = [([CHR 0xC3, CHR 0xA9], ''1''), ([CHR ''e'', CHR 0xCC, CHR 0x81], ''2'')]\<rparr>
      else if u = ''https://api.example.com/q?e%CC%81=2&%C3%A9=1'' then
        Inr \<lparr>origin = ''https://api.example.com'', pathname = ''/q'',
             searchParams = [([CHR ''e'', CHR 0xCC, CHR 0x81], ''2''), ([CHR 0xC3, CHR 0xA9], ''1'')]\<rparr>
      else Inl ''Invalid URL'')"

definition demo_rt :: "(nat \<Rightarrow> request \<Rightarrow> net_outcome) \<Rightarrow> runtime" where
  "demo_rt net = \<lparr>parseURL = demo_parse, localeCompare = compare_strings, network = net\<rparr>"

text \<open>
  A runtime whose comparison, like \<^verbatim>\<open>localeCompare\<close>, takes canonically equivalent strings
  for equal: it compares byte by byte after writing \<open>e\<close> followed by the combining acute
  accent (U+0301) as the one letter U+00E9.
\<close>

fun compose_acute :: "string \<Rightarrow> string" where
  "compose_acute [] = []"
| "compose_acute (c # s) =
     (if c = CHR ''e'' \<and> starts_with (compose_acute s) [CHR 0xCC, CHR 0x81]
      then CHR 0xC3 # CHR 0xA9 # drop 2 (compose_acute s)
      else c # compose_acute s)"

definition canonical_compare :: "string \<Rightarrow> string \<Rightarrow> int" where
  "canonical_compare x y = compare_strings (compose_acute x) (compose_acute y)"

definition collating_rt :: runtime where
  "collating_rt =
     \<lparr>parseURL = demo_parse, localeCompare = canonical_compare,
      network = (\<lambda>n req. \<lparr>took = 20, settled = Inl ''Failed to fetch''\<rparr>)\<rparr>"

definition json_response :: "nat \<Rightarrow> jsval \<Rightarrow> http_response" where
  "json_response n v =
     \<lparr>status = n, statusText = [], retryAfter = None, json_body = Some v,
      text_body = Inl ''body stream already read''\<rparr>"

definition start_world :: "int \<Rightarrow> world" where
  "start_world t =
     \<lparr>responseCache = Map.empty, rateLimitCache = Map.empty, clock = t, requests = [], slept = 0\<rparr>"

definition quote_args :: fetch_args where
  "quote_args =
     \<lparr>req_url = ''https://api.example.com/quote?symbol=IBM'', apiKey = None, apiKeyHeader = None,
      retryCount = 0, maxRetries = 3, useProxy = False, cacheTTL = Some 30, bypassCache = False\<rparr>"

definition news_args :: fetch_args where
  "news_args =
     \<lparr>req_url = ''https://api.example.com/news'', apiKey = None, apiKeyHeader = None,
      retryCount = 0, maxRetries = 0, useProxy = False, cacheTTL = None, bypassCache = False\<rparr>"

definition net_ok_then_429 :: "nat \<Rightarrow> request \<Rightarrow> net_outcome" where
  "net_ok_then_429 n req =
     (if n = 0 then \<lparr>took = 20, settled = Inr (json_response 200 (JObj [(''price'', JNum 100)]))\<rparr>
      else \<lparr>took = 20, settled = Inr (json_response 429 (JObj []))\<rparr>)"

definition quote_entry :: CacheEntry where
  "quote_entry = \<lparr>data = JObj [(''price'', JNum 100)], timestamp = 1020, expiresAt = 31020,
      url = ''https://api.example.com/quote?symbol=IBM''\<rparr>"

definition quote_request :: request where
  "quote_request = \<lparr>target = Direct ''https://api.example.com/quote?symbol=IBM'', headers = []\<rparr>"

definition news_request :: request where
  "news_request = \<lparr>target = Direct ''https://api.example.com/news'', headers = []\<rparr>"

text \<open>A request with a key and a header name, and a network that always answers 200.\<close>

definition keyed_quote_args :: fetch_args where
  "keyed_quote_args = quote_args\<lparr>apiKey := Some ''secret'', apiKeyHeader := Some ''X-Api-Key''\<rparr>"

definition net_always_ok :: "nat \<Rightarrow> request \<Rightarrow> net_outcome" where
  "net_always_ok n req = \<lparr>took = 20, settled = Inr (json_response 200 (JObj [(''price'', JNum 100)]))\<rparr>"

text \<open>
  The same request with the header name \<^verbatim>\<open>__proto__\<close>; with a key of two spaces; with a key
  that is a no-break space (U+00A0); and with white space around the key.
\<close>

definition proto_args :: fetch_args where
  "proto_args = quote_args\<lparr>apiKey := Some ''secret'', apiKeyHeader := Some ''__proto__''\<rparr>"

definition blank_key_args :: fetch_args where
  "blank_key_args = quote_args\<lparr>apiKey := Some ''  '', apiKeyHeader := Some ''X-Api-Key''\<rparr>"

definition nbsp_key_args :: fetch_args where
  "nbsp_key_args =
     quote_args\<lparr>apiKey := Some [CHR 0xC2, CHR 0xA0], apiKeyHeader := Some ''X-Api-Key''\<rparr>"

definition padded_key_args :: fetch_args where
  "padded_key_args = quote_args\<lparr>apiKey := Some '' secret '', apiKeyHeader := Some ''X-Api-Key''\<rparr>"

text \<open>
  A request whose URL carries a token, made with a key and a header name as well.
\<close>

definition token_args :: fetch_args where
  "token_args =
     quote_args\<lparr>req_url := ''https://api.example.com/quote?symbol=IBM&token=abc'',
                apiKey := Some ''secret'', apiKeyHeader := Some ''X-Api-Key''\<rparr>"

text \<open>A network that always answers 500.\<close>

definition net_always_500 :: "nat \<Rightarrow> request \<Rightarrow> net_outcome" where
  "net_always_500 n req = \<lparr>took = 20, settled = Inr (json_response 500 (JObj []))\<rparr>"

text \<open>The quote request with a budget of two retries.\<close>

definition twice_args :: fetch_args where
  "twice_args = quote_args\<lparr>maxRetries := 2\<rparr>"

text \<open>
  Two networks: one answers the first request 429 with \<^verbatim>\<open>Retry-After: 30\<close> and 200 from then
  on; the other rejects the first request the way a CORS failure does and answers 429
  from then on.
\<close>

definition net_429_then_ok :: "nat \<Rightarrow> request \<Rightarrow> net_outcome" where
  "net_429_then_ok n req =
     (if n = 0
      then \<lparr>took = 20, settled = Inr ((json_response 429 (JObj []))\<lparr>retryAfter := Some ''30''\<rparr>)\<rparr>
      else \<lparr>took = 20, settled = Inr (json_response 200 (JObj [(''price'', JNum 100)]))\<rparr>)"

definition net_cors_then_429 :: "nat \<Rightarrow> request \<Rightarrow> net_outcome" where
  "net_cors_then_429 n req =
     (if n = 0 then \<lparr>took = 20, settled = Inl ''Failed to fetch''\<rparr>
      else \<lparr>took = 20,
            settled = Inr (json_response 429
                             (JObj [(''error'', JStr ''Too Many Requests''), (''status'', JNum 429)]))\<rparr>)"

text \<open>A network that answers 429 with an HTTP date in \<^verbatim>\<open>Retry-After\<close>.\<close>

definition net_429_date :: "nat \<Rightarrow> request \<Rightarrow> net_outcome" where
  "net_429_date n req =
     \<lparr>took = 20,
      settled = Inr ((json_response 429 (JObj []))
                      \<lparr>retryAfter := Some ''Wed, 21 Oct 2015 07:28:00 GMT''\<rparr>)\<rparr>"

text \<open>The world after the news request was answered 429 with \<^verbatim>\<open>Retry-After: 30\<close> at 1020.\<close>

definition blocked_world :: world where
  "blocked_world =
     \<lparr>responseCache = Map.empty,
      rateLimitCache = [''https://api.example.com'' \<mapsto> \<lparr>count = 1, resetTime = Some 31020\<rparr>],
      clock = 1020, requests = [news_request], slept = 0\<rparr>"

text \<open>The world after the news request was answered 429 with an HTTP date at 1020.\<close>

definition date_world :: world where
  "date_world =
     \<lparr>responseCache = Map.empty,
      rateLimitCache = [''https://api.example.com'' \<mapsto> \<lparr>count = 1, resetTime = None\<rparr>],
      clock = 1020, requests = [news_request], slept = 0\<rparr>"

text \<open>
  A network that rejects the first request the way a CORS failure does and answers the
  second, the proxy's, with its \<open>{data: ...}\<close> wrapper.
\<close>

definition net_cors_then_ok :: "nat \<Rightarrow> request \<Rightarrow> net_outcome" where
  "net_cors_then_ok n req =
     (if n = 0 then \<lparr>took = 20, settled = Inl ''Failed to fetch''\<rparr>
      else \<lparr>took = 20,
            settled = Inr (json_response 200 (JObj [(''data'', JObj [(''price'', JNum 100)])]))\<rparr>)"

text \<open>
  The worlds of a run: the quote stored at 1020, then another endpoint of the same origin
  answered 429 at 1040.
\<close>

definition stored_world :: world where
  "stored_world =
     \<lparr>responseCache = [''https://api.example.com/quote?symbol=IBM'' \<mapsto> quote_entry],
      rateLimitCache = Map.empty, clock = 1020, requests = [quote_request], slept = 0\<rparr>"

definition limited_world :: world where
  "limited_world =
     \<lparr>responseCache = [''https://api.example.com/quote?symbol=IBM'' \<mapsto> quote_entry],
      rateLimitCache = [''https://api.example.com'' \<mapsto> \<lparr>count = 1, resetTime = Some 61040\<rparr>],
      clock = 1040, requests = [quote_request, news_request], slept = 0\<rparr>"

text \<open>A forced refresh of the quote with no retry budget.\<close>

definition refresh_args :: fetch_args where
  "refresh_args = quote_args\<lparr>maxRetries := 0, bypassCache := True\<rparr>"

text \<open>
  The proxy fallback has a path of its own on which a failure leaves the entry: when the
  proxy request is rejected as well, the inner \<^verbatim>\<open>catch\<close> returns the CORS failure without
  reaching either \<^verbatim>\<open>invalidateCache\<close> call.
\<close>

definition net_all_rejected :: "nat \<Rightarrow> request \<Rightarrow> net_outcome" where
  "net_all_rejected n req = \<lparr>took = 20, settled = Inl ''Failed to fetch''\<rparr>"

text \<open>
  Inputs for the runs below: a forced refresh of the quote, and two requests whose URLs
  hold the parameters \<open>a=1\<close> and \<open>a=2\<close> in the two orders.
\<close>

definition force_args :: fetch_args where
  "force_args = quote_args\<lparr>bypassCache := True\<rparr>"

definition dup_args :: "string \<Rightarrow> fetch_args" where
  "dup_args u = quote_args\<lparr>req_url := u\<rparr>"

definition dup_world :: world where
  "dup_world =
     \<lparr>responseCache =
        [''https://api.example.com/q?a=1&a=2'' \<mapsto>
           \<lparr>data = JObj [(''price'', JNum 100)], timestamp = 1020, expiresAt = 31020,
            url = ''https://api.example.com/q?a=1&a=2''\<rparr>],
      rateLimitCache = Map.empty, clock = 1020,
      requests = [\<lparr>target = Direct ''https://api.example.com/q?a=1&a=2'', headers = []\<rparr>],
      slept = 0\<rparr>"

section \<open>Properties\<close>

subsection \<open>Properties of strings\<close>

lemma concat_utf8_chars [simp]: "concat (utf8_chars s) = s"
  by (induction s) (auto split: list.splits)

lemma trim_empty [simp]: "trim [] = []"
  by (simp add: trim_def)

lemma utf8_chars_ascii:
  "\<forall>c \<in> set s. (of_char c :: nat) < 128 \<Longrightarrow> utf8_chars s = map (\<lambda>c. [c]) s"
  by (induction s) (auto simp: is_continuation_def split: list.splits)

lemmas white_eval = is_continuation_def white_space_def is_space_def skip_white_space_def trim_def

lemmas case_eval = is_continuation_def ascii_upper_def ascii_lower_def upper_special_def
  lower_special_def toUpperCase_def toLowerCase_def char_of_eq_iff

subsection \<open>Properties of the cache\<close>

lemma getCachedData_hit:
  "fst (getCachedData key now c) = Some e \<Longrightarrow> c key = Some e \<and> now < expiresAt e"
  by (auto simp: getCachedData_def split: option.splits if_splits)

lemma getCachedData_absent:
  "c key = None \<Longrightarrow> getCachedData key now c = (None, c)"
  by (simp add: getCachedData_def)

lemma getCachedData_fresh:
  "c key = Some e \<Longrightarrow> now < expiresAt e \<Longrightarrow> getCachedData key now c = (Some e, c)"
  by (simp add: getCachedData_def)

lemma getCachedData_expired:
  "c key = Some e \<Longrightarrow> expiresAt e \<le> now \<Longrightarrow> getCachedData key now c = (None, c(key := None))"
  by (simp add: getCachedData_def)

lemma setCachedData_lookup:
  "setCachedData key d ttlSeconds u t0 c key =
     Some \<lparr>data = d, timestamp = t0, expiresAt = t0 + ttlSeconds * 1000, url = u\<rparr>"
  by (simp add: setCachedData_def)

lemma reachable_built:
  "reachable c \<Longrightarrow> c key = Some e \<Longrightarrow> built e"
proof (induction arbitrary: key e rule: reachable.induct)
  case r_init
  then show ?case by simp
next
  case (r_set c k d ttlSeconds u now)
  show ?case
  proof (cases "key = k")
    case True
    with r_set.prems have "e = \<lparr>data = d, timestamp = now, expiresAt = now + ttlSeconds * 1000, url = u\<rparr>"
      by (simp add: setCachedData_def)
    then show ?thesis unfolding built_def by auto
  next
    case False
    with r_set show ?thesis by (simp add: setCachedData_def)
  qed
next
  case (r_get c k now)
  then show ?case
    by (auto simp: getCachedData_def split: option.splits if_splits)
next
  case (r_invalidate c k)
  then show ?case by (auto simp: invalidateCache_def split: if_splits)
next
  case (r_clear c)
  then show ?case by (simp add: clearCache_def)
next
  case (r_pattern c urlPattern)
  then show ?case
    by (auto simp: clearCacheByUrlPattern_def split: option.splits if_splits)
next
  case (r_cleanup c now)
  then show ?case
    by (auto simp: cleanupExpiredCache_def split: option.splits if_splits)
qed

text \<open>
  C5. An entry stored with \<open>ttlSeconds = T > 0\<close> at instant \<open>t0\<close> is returned, the cache
  unchanged, at every instant strictly before \<open>t0 + T\<close> seconds; at every instant from
  \<open>t0 + T\<close> seconds on the lookup is a miss and the entry is gone afterwards. No lookup,
  on any cache, returns an entry at or after its expiry. With \<open>T = 5\<close>: a hit four
  seconds after storing, a miss six seconds after.
\<close>

theorem C5_ttl_window:
  assumes "0 < T"
  shows
    "(\<forall>now. now < t0 + T * 1000 \<longrightarrow>
        getCachedData key now (setCachedData key d T u t0 c) =
          (Some \<lparr>data = d, timestamp = t0, expiresAt = t0 + T * 1000, url = u\<rparr>,
           setCachedData key d T u t0 c))
     \<and> (\<forall>now. t0 + T * 1000 \<le> now \<longrightarrow>
        fst (getCachedData key now (setCachedData key d T u t0 c)) = None
        \<and> snd (getCachedData key now (setCachedData key d T u t0 c)) key = None)
     \<and> (\<forall>k now c0 e. fst (getCachedData k now c0) = Some e \<longrightarrow> now < expiresAt e)
     \<and> fst (getCachedData key (t0 + 4000) (setCachedData key d 5 u t0 c)) =
          Some \<lparr>data = d, timestamp = t0, expiresAt = t0 + 5000, url = u\<rparr>
     \<and> fst (getCachedData key (t0 + 6000) (setCachedData key d 5 u t0 c)) = None"
proof (intro conjI allI impI)
  fix now :: int
  assume "now < t0 + T * 1000"
  then show "getCachedData key now (setCachedData key d T u t0 c) =
          (Some \<lparr>data = d, timestamp = t0, expiresAt = t0 + T * 1000, url = u\<rparr>,
           setCachedData key d T u t0 c)"
    by (simp add: getCachedData_fresh [OF setCachedData_lookup])
next
  fix now :: int
  assume late: "t0 + T * 1000 \<le> now"
  then show "fst (getCachedData key now (setCachedData key d T u t0 c)) = None"
    by (simp add: getCachedData_expired [OF setCachedData_lookup])
  from late show "snd (getCachedData key now (setCachedData key d T u t0 c)) key = None"
    by (simp add: getCachedData_expired [OF setCachedData_lookup])
next
  fix k now c0 e
  assume "fst (getCachedData k now c0) = Some e"
  then show "now < expiresAt e"
    by (simp add: getCachedData_hit)
next
  show "fst (getCachedData key (t0 + 4000) (setCachedData key d 5 u t0 c)) =
          Some \<lparr>data = d, timestamp = t0, expiresAt = t0 + 5000, url = u\<rparr>"
    by (simp add: getCachedData_fresh [OF setCachedData_lookup])
next
  show "fst (getCachedData key (t0 + 6000) (setCachedData key d 5 u t0 c)) = None"
    by (simp add: getCachedData_expired [OF setCachedData_lookup])
qed

theorem C5_ttl_window_witness:
  "(0::int) < 30
   \<and> fst (getCachedData ''k'' 1029999 (setCachedData ''k'' (JNum 7) 30 ''u'' 1000000 Map.empty))
       = Some \<lparr>data = JNum 7, timestamp = 1000000, expiresAt = 1030000, url = ''u''\<rparr>
   \<and> fst (getCachedData ''k'' 1030000 (setCachedData ''k'' (JNum 7) 30 ''u'' 1000000 Map.empty))
       = None
   \<and> snd (getCachedData ''k'' 1030000 (setCachedData ''k'' (JNum 7) 30 ''u'' 1000000 Map.empty)) ''k''
       = None"
proof -
  have pos: "(0::int) < 30" by simp
  note w = C5_ttl_window [OF pos, of 1000000 "''k''" "JNum 7" "''u''" Map.empty]
  from w have hit: "getCachedData ''k'' 1029999 (setCachedData ''k'' (JNum 7) 30 ''u'' 1000000 Map.empty) =
      (Some \<lparr>data = JNum 7, timestamp = 1000000, expiresAt = 1000000 + 30 * 1000, url = ''u''\<rparr>,
       setCachedData ''k'' (JNum 7) 30 ''u'' 1000000 Map.empty)"
    by simp
  from w have miss: "fst (getCachedData ''k'' 1030000 (setCachedData ''k'' (JNum 7) 30 ''u'' 1000000 Map.empty)) = None
      \<and> snd (getCachedData ''k'' 1030000 (setCachedData ''k'' (JNum 7) 30 ''u'' 1000000 Map.empty)) ''k'' = None"
    by simp
  from hit miss show ?thesis by simp
qed

text \<open>
  C10. On every cache the module can hold, an entry returned as a hit is unexpired
  (\<open>now < expiresAt\<close>) and its expiry is its timestamp plus a TTL in seconds times 1000.
  \<open>setCachedData\<close> with \<open>ttlSeconds \<le> 0\<close> does insert an entry, but at any instant not
  before the insertion a lookup of its key is a miss that removes the entry, and from then
  on the key is absent, so every later lookup misses as well.
\<close>

theorem C10_cache_invariant:
  "(reachable c \<longrightarrow>
      (\<forall>key now e. fst (getCachedData key now c) = Some e \<longrightarrow>
         now < expiresAt e \<and> (\<exists>ttlSeconds. expiresAt e = timestamp e + ttlSeconds * 1000)))
   \<and> (ttl \<le> 0 \<and> t0 \<le> now \<longrightarrow>
        setCachedData k d ttl u t0 c0 k =
          Some \<lparr>data = d, timestamp = t0, expiresAt = t0 + ttl * 1000, url = u\<rparr>
        \<and> fst (getCachedData k now (setCachedData k d ttl u t0 c0)) = None
        \<and> snd (getCachedData k now (setCachedData k d ttl u t0 c0)) k = None
        \<and> (\<forall>later. getCachedData k later (snd (getCachedData k now (setCachedData k d ttl u t0 c0))) =
              (None, snd (getCachedData k now (setCachedData k d ttl u t0 c0)))))"
proof (intro conjI impI allI)
  fix key now' e
  assume r: "reachable c" and h: "fst (getCachedData key now' c) = Some e"
  from h have e: "c key = Some e" and fresh: "now' < expiresAt e"
    by (simp_all add: getCachedData_hit)
  from fresh show "now' < expiresAt e" .
  from reachable_built [OF r e] show "\<exists>ttlSeconds. expiresAt e = timestamp e + ttlSeconds * 1000"
    by (simp add: built_def)
next
  assume a: "ttl \<le> 0 \<and> t0 \<le> now"
  show "setCachedData k d ttl u t0 c0 k =
          Some \<lparr>data = d, timestamp = t0, expiresAt = t0 + ttl * 1000, url = u\<rparr>"
    by (rule setCachedData_lookup)
  from a have old: "t0 + ttl * 1000 \<le> now" by simp
  then have miss: "getCachedData k now (setCachedData k d ttl u t0 c0) =
      (None, (setCachedData k d ttl u t0 c0)(k := None))"
    by (simp add: getCachedData_expired [OF setCachedData_lookup])
  from miss show "fst (getCachedData k now (setCachedData k d ttl u t0 c0)) = None" by simp
  from miss show gone: "snd (getCachedData k now (setCachedData k d ttl u t0 c0)) k = None" by simp
  fix later
  from gone show "getCachedData k later (snd (getCachedData k now (setCachedData k d ttl u t0 c0))) =
              (None, snd (getCachedData k now (setCachedData k d ttl u t0 c0)))"
    by (rule getCachedData_absent)
qed

theorem C10_cache_invariant_witness:
  "reachable (setCachedData ''k'' (JStr ''v'') 30 ''u'' 5000 Map.empty)
   \<and> fst (getCachedData ''k'' 6000 (setCachedData ''k'' (JStr ''v'') 30 ''u'' 5000 Map.empty)) =
       Some \<lparr>data = JStr ''v'', timestamp = 5000, expiresAt = 35000, url = ''u''\<rparr>
   \<and> (6000::int) < 35000
   \<and> (\<exists>ttlSeconds::int. 35000 = 5000 + ttlSeconds * 1000)
   \<and> (0::int) \<le> 0 \<and> (5000::int) \<le> 5000
   \<and> fst (getCachedData ''k'' 5000 (setCachedData ''k'' (JStr ''v'') 0 ''u'' 5000 Map.empty)) = None
   \<and> snd (getCachedData ''k'' 5000 (setCachedData ''k'' (JStr ''v'') 0 ''u'' 5000 Map.empty)) ''k'' = None"
proof -
  have r: "reachable (setCachedData ''k'' (JStr ''v'') 30 ''u'' 5000 Map.empty)"
    by (intro r_set r_init)
  have hit: "fst (getCachedData ''k'' 6000 (setCachedData ''k'' (JStr ''v'') 30 ''u'' 5000 Map.empty)) =
       Some \<lparr>data = JStr ''v'', timestamp = 5000, expiresAt = 35000, url = ''u''\<rparr>"
    by (simp add: getCachedData_def setCachedData_def)
  note w1 = C10_cache_invariant [of "setCachedData ''k'' (JStr ''v'') 30 ''u'' 5000 Map.empty"
      0 5000 5000 "''k''" "JStr ''v''" "''u''" Map.empty]
  from w1 r hit have inv: "(6000::int) < 35000 \<and> (\<exists>ttlSeconds::int. 35000 = 5000 + ttlSeconds * 1000)"
    by fastforce
  from w1 have np: "fst (getCachedData ''k'' 5000 (setCachedData ''k'' (JStr ''v'') 0 ''u'' 5000 Map.empty)) = None
     \<and> snd (getCachedData ''k'' 5000 (setCachedData ''k'' (JStr ''v'') 0 ''u'' 5000 Map.empty)) ''k'' = None"
    by simp
  from r hit inv np show ?thesis by simp
qed

subsection \<open>Properties of the path resolver\<close>

lemma split_on_nonempty: "split_on c s \<noteq> []"
  by (induction s) (auto split: list.splits)

lemma split_on_two: "c \<in> set s \<Longrightarrow> \<exists>a b r. split_on c s = a # b # r"
proof (induction s)
  case Nil
  then show ?case by simp
next
  case (Cons x xs)
  show ?case
  proof (cases "x = c")
    case True
    obtain w ws where "split_on c xs = w # ws"
      using split_on_nonempty [of c xs] by (cases "split_on c xs") auto
    with True show ?thesis by simp
  next
    case False
    with Cons.prems have "c \<in> set xs" by auto
    from Cons.IH [OF this] obtain a b r where "split_on c xs = a # b # r" by blast
    with False show ?thesis by simp
  qed
qed

lemma split_on_none: "c \<notin> set s \<Longrightarrow> split_on c s = [s]"
  by (induction s) auto

lemma split_on_two_mem: "split_on c s = a # b # r \<Longrightarrow> c \<in> set s"
  using split_on_none [of c s] by auto

lemma object_cases:
  "truthy current \<and> typeof_object current \<Longrightarrow> (\<exists>kvs. current = JObj kvs) \<or> (\<exists>xs. current = JArr xs)"
  by (cases current) auto

lemma js_in_object: "truthy current \<and> typeof_object current \<Longrightarrow> \<exists>b. js_in inh key current = Inr b"
  by (cases current) auto

lemma get_member_object:
  "truthy current \<and> typeof_object current \<Longrightarrow> \<exists>v. get_member inh current key = Inr v"
  by (cases current) (auto split: option.splits)

lemma resolve_segment_total: "\<exists>r. resolve_segment inh current key = Inr r"
proof (cases "CHR ''['' \<in> set key")
  case True
  from split_on_two [OF True] obtain a b r where sp: "split_on CHR ''['' key = a # b # r" by blast
  show ?thesis
  proof (cases "truthy current \<and> typeof_object current")
    case obj: True
    from js_in_object [OF obj] obtain p where p: "js_in inh a current = Inr p" by blast
    from get_member_object [OF obj] obtain v where v: "get_member inh current a = Inr v" by blast
    show ?thesis using True sp obj p v
      by (cases p; cases v) (simp_all add: resolve_segment_def Let_def)
  next
    case False
    with True sp show ?thesis by (auto simp: resolve_segment_def Let_def)
  qed
next
  case False
  show ?thesis
  proof (cases "truthy current \<and> typeof_object current")
    case obj: True
    from js_in_object [OF obj] obtain p where p: "js_in inh key current = Inr p" by blast
    from get_member_object [OF obj] obtain v where v: "get_member inh current key = Inr v" by blast
    show ?thesis using False obj p v
      by (cases p) (simp_all add: resolve_segment_def)
  next
    case nobj: False
    with False show ?thesis by (auto simp: resolve_segment_def)
  qed
qed

lemma resolve_keys_total: "\<exists>r. resolve_keys inh current keys = Inr r"
proof (induction keys arbitrary: current)
  case Nil
  then show ?case by simp
next
  case (Cons key keys)
  from resolve_segment_total obtain r where r: "resolve_segment inh current key = Inr r" by blast
  show ?case
  proof (cases r)
    case None
    with r show ?thesis by simp
  next
    case (Some v)
    with r Cons.IH [of v] show ?thesis by simp
  qed
qed

lemma getNestedValue_total: "\<exists>v. getNestedValue inh obj pth = Inr v"
proof -
  from resolve_keys_total obtain r where "resolve_keys inh obj (split_on CHR ''.'' pth) = Inr r" by blast
  then show ?thesis by (cases r) (simp_all add: getNestedValue_def)
qed

lemma resolve_keys_append:
  "resolve_keys inh current pre = Inr (Some v) \<Longrightarrow>
   resolve_keys inh current (pre @ post) = resolve_keys inh v post"
proof (induction pre arbitrary: current)
  case Nil
  then show ?case by simp
next
  case (Cons key pre)
  then show ?case
    by (cases "resolve_segment inh current key") (auto split: option.splits)
qed

lemma resolve_keys_stop:
  "resolve_keys inh obj pre = Inr (Some current) \<Longrightarrow> resolve_segment inh current key = Inr None \<Longrightarrow>
   resolve_keys inh obj (pre @ key # post) = Inr None"
  by (simp add: resolve_keys_append)

text \<open>The ways a segment ends the resolution with the not-found result.\<close>

lemma segment_not_object:
  "\<not> (truthy current \<and> typeof_object current) \<Longrightarrow> resolve_segment inh current key = Inr None"
proof (cases "CHR ''['' \<in> set key")
  case True
  assume n: "\<not> (truthy current \<and> typeof_object current)"
  from split_on_two [OF True] obtain a b r where sp: "split_on CHR ''['' key = a # b # r" by blast
  with True n show ?thesis by (auto simp: resolve_segment_def Let_def)
next
  case False
  assume n: "\<not> (truthy current \<and> typeof_object current)"
  with False show ?thesis by (auto simp: resolve_segment_def)
qed

lemma segment_absent_plain:
  "CHR ''['' \<notin> set key \<Longrightarrow> js_in inh key current = Inr False \<Longrightarrow>
   resolve_segment inh current key = Inr None"
  by (simp add: resolve_segment_def)

lemma segment_absent_bracket:
  "split_on CHR ''['' key = arrayKey # indexStr # rest \<Longrightarrow> js_in inh arrayKey current = Inr False \<Longrightarrow>
   resolve_segment inh current key = Inr None"
  using split_on_two_mem [of "CHR ''[''" key arrayKey indexStr rest]
  by (simp add: resolve_segment_def Let_def)

lemma segment_out_of_bounds:
  assumes "CHR ''['' \<in> set key" "split_on CHR ''['' key = arrayKey # indexStr # rest"
    and "get_member inh current arrayKey = Inr (JArr xs)"
    and "parseInt10 (remove1 CHR '']'' indexStr) = None
         \<or> (\<exists>i. parseInt10 (remove1 CHR '']'' indexStr) = Some i \<and> (i < 0 \<or> int (length xs) \<le> i))"
  shows "resolve_segment inh current key = Inr None"
proof (cases "truthy current \<and> typeof_object current")
  case True
  from js_in_object [OF True] obtain p where p: "js_in inh arrayKey current = Inr p" by blast
  from assms(4) have u: "array_at xs (parseInt10 (remove1 CHR '']'' indexStr)) = JUndefined"
    by (auto simp: array_at_def)
  show ?thesis using True p u assms(1,2,3)
    by (cases p) (simp_all add: resolve_segment_def Let_def)
next
  case False
  then show ?thesis by (rule segment_not_object)
qed

lemma segment_not_array:
  assumes "CHR ''['' \<in> set key" "split_on CHR ''['' key = arrayKey # indexStr # rest"
    and "get_member inh current arrayKey = Inr v" "\<not> isArray v"
  shows "resolve_segment inh current key = Inr None"
proof (cases "truthy current \<and> typeof_object current")
  case True
  from js_in_object [OF True] obtain p where p: "js_in inh arrayKey current = Inr p" by blast
  show ?thesis using True p assms
    by (cases p; cases v) (simp_all add: resolve_segment_def Let_def)
next
  case False
  then show ?thesis by (rule segment_not_object)
qed

text \<open>
  C6. What the code does. \<open>getNestedValue({a:{b:[{c:5}]}}, "a.b[0].c")\<close> is 5 and
  \<open>getNestedValue({a:1}, "a.b")\<close> is not-found, whatever the prototypes hold; on the root
  array \<open>[10,20]\<close> the path \<open>"[1]"\<close> is not-found (the segment names the property \<open>""\<close>,
  which an array does not have). For every root value and every path the call returns a
  value and raises nothing. Resolution ends with not-found at the first segment where the
  current value is not an object or array, where the segment's name is not \<^verbatim>\<open>in\<close> the
  current value, or, for a bracketed segment, where the named member is not an array or
  the index is not a number within its bounds. The index is read by \<^verbatim>\<open>parseInt\<close>, so
  with a no-break space between the bracket and the digit \<open>1\<close> it selects element 1; and an
  array's own properties are its indices and \<open>length\<close>, so \<open>"a.1"\<close> and \<open>"a.length"\<close>
  resolve as well.

  The claim promises not-found for every segment that is absent, and there the code falls
  short of it: \<^verbatim>\<open>in\<close> also finds what the prototype provides, so for the data \<open>{a:1}\<close>,
  which has no property \<open>constructor\<close>, the path \<open>"constructor"\<close> resolves to a function, and
  \<open>"a.b.toString"\<close> does so below an array of the first example. Nor does resolution stop
  at an absent segment in the middle of a path: \<open>"__proto__.constructor"\<close> passes through
  the prototype of \<open>{a:1}\<close> and ends at a function.
\<close>

theorem C6_getNestedValue:
  "getNestedValue inh (JObj [(''a'', JObj [(''b'', JArr [JObj [(''c'', JNum 5)]])])]) ''a.b[0].c''
     = Inr (JNum 5)
   \<and> getNestedValue inh (JObj [(''a'', JNum 1)]) ''a.b'' = Inr JUndefined
   \<and> (inh (JArr [JNum 10, JNum 20]) [] = None \<longrightarrow>
        getNestedValue inh (JArr [JNum 10, JNum 20]) ''[1]'' = Inr JUndefined)
   \<and> (\<exists>v. getNestedValue inh obj pth = Inr v)
   \<and> (split_on CHR ''.'' pth = pre @ key # post
        \<and> resolve_keys inh obj pre = Inr (Some current)
        \<and> (\<not> (truthy current \<and> typeof_object current)
           \<or> (CHR ''['' \<notin> set key \<and> js_in inh key current = Inr False)
           \<or> (\<exists>arrayKey indexStr rest.
                 split_on CHR ''['' key = arrayKey # indexStr # rest
                 \<and> (js_in inh arrayKey current = Inr False
                    \<or> (\<exists>v. get_member inh current arrayKey = Inr v \<and> \<not> isArray v)
                    \<or> (\<exists>xs. get_member inh current arrayKey = Inr (JArr xs)
                          \<and> (parseInt10 (remove1 CHR '']'' indexStr) = None
                             \<or> (\<exists>i. parseInt10 (remove1 CHR '']'' indexStr) = Some i
                                    \<and> (i < 0 \<or> int (length xs) \<le> i)))))))
        \<longrightarrow> getNestedValue inh obj pth = Inr JUndefined)
   \<and> getNestedValue inh (JObj [(''a'', JArr [JNum 10, JNum 20])])
        (''a['' @ [CHR 0xC2, CHR 0xA0] @ ''1]'') = Inr (JNum 20)
   \<and> getNestedValue inh (JObj [(''a'', JArr [JNum 10, JNum 20])]) ''a.1'' = Inr (JNum 20)
   \<and> getNestedValue inh (JObj [(''a'', JArr [JNum 10, JNum 20])]) ''a.length'' = Inr (JNum 2)
   \<and> \<not> has_own (JObj [(''a'', JNum 1)]) ''constructor''
   \<and> getNestedValue with_object_methods (JObj [(''a'', JNum 1)]) ''constructor'' = Inr JFunction
   \<and> getNestedValue with_object_methods
        (JObj [(''a'', JObj [(''b'', JArr [JObj [(''c'', JNum 5)]])])]) ''a.b.toString''
        = Inr JFunction
   \<and> \<not> has_own (JObj [(''a'', JNum 1)]) ''__proto__''
   \<and> getNestedValue with_object_methods (JObj [(''a'', JNum 1)]) ''__proto__.constructor''
        = Inr JFunction"
proof (intro conjI impI)
  show "getNestedValue inh (JObj [(''a'', JObj [(''b'', JArr [JObj [(''c'', JNum 5)]])])]) ''a.b[0].c''
     = Inr (JNum 5)"
    by (simp add: getNestedValue_def resolve_segment_def parseInt10_def white_eval is_digit_def
        digits_val_def digit_val_def array_at_def)
  show "getNestedValue inh (JObj [(''a'', JNum 1)]) ''a.b'' = Inr JUndefined"
    by (simp add: getNestedValue_def resolve_segment_def)
  show "getNestedValue inh (JArr [JNum 10, JNum 20]) ''[1]'' = Inr JUndefined"
    if "inh (JArr [JNum 10, JNum 20]) [] = None"
    using that
    by (simp add: getNestedValue_def resolve_segment_def array_index_def)
  show "\<exists>v. getNestedValue inh obj pth = Inr v"
    by (rule getNestedValue_total)
  show "getNestedValue inh (JObj [(''a'', JArr [JNum 10, JNum 20])])
        (''a['' @ [CHR 0xC2, CHR 0xA0] @ ''1]'') = Inr (JNum 20)"
    by (simp add: getNestedValue_def resolve_segment_def parseInt10_def white_eval is_digit_def
        digits_val_def digit_val_def array_at_def)
  show "getNestedValue inh (JObj [(''a'', JArr [JNum 10, JNum 20])]) ''a.1'' = Inr (JNum 20)"
    by (simp add: getNestedValue_def resolve_segment_def array_index_def is_digit_def
        digits_val_def digit_val_def)
  show "getNestedValue inh (JObj [(''a'', JArr [JNum 10, JNum 20])]) ''a.length'' = Inr (JNum 2)"
    by (simp add: getNestedValue_def resolve_segment_def)
  show "\<not> has_own (JObj [(''a'', JNum 1)]) ''constructor''"
    by simp
  show "getNestedValue with_object_methods (JObj [(''a'', JNum 1)]) ''constructor'' = Inr JFunction"
    by (simp add: getNestedValue_def resolve_segment_def object_methods_def)
  show "getNestedValue with_object_methods
        (JObj [(''a'', JObj [(''b'', JArr [JObj [(''c'', JNum 5)]])])]) ''a.b.toString''
        = Inr JFunction"
    by (simp add: getNestedValue_def resolve_segment_def object_methods_def array_index_def is_digit_def)
  show "\<not> has_own (JObj [(''a'', JNum 1)]) ''__proto__''"
    by simp
  show "getNestedValue with_object_methods (JObj [(''a'', JNum 1)]) ''__proto__.constructor''
        = Inr JFunction"
    by (simp add: getNestedValue_def resolve_segment_def object_methods_def object_prototype_def)
  assume a: "split_on CHR ''.'' pth = pre @ key # post
        \<and> resolve_keys inh obj pre = Inr (Some current)
        \<and> (\<not> (truthy current \<and> typeof_object current)
           \<or> (CHR ''['' \<notin> set key \<and> js_in inh key current = Inr False)
           \<or> (\<exists>arrayKey indexStr rest.
                 split_on CHR ''['' key = arrayKey # indexStr # rest
                 \<and> (js_in inh arrayKey current = Inr False
                    \<or> (\<exists>v. get_member inh current arrayKey = Inr v \<and> \<not> isArray v)
                    \<or> (\<exists>xs. get_member inh current arrayKey = Inr (JArr xs)
                          \<and> (parseInt10 (remove1 CHR '']'' indexStr) = None
                             \<or> (\<exists>i. parseInt10 (remove1 CHR '']'' indexStr) = Some i
                                    \<and> (i < 0 \<or> int (length xs) \<le> i)))))))"
  then have keys: "split_on CHR ''.'' pth = pre @ key # post"
    and pre: "resolve_keys inh obj pre = Inr (Some current)"
    by simp_all
  have stop: "resolve_segment inh current key = Inr None"
  proof -
    from a consider
        (nonobj) "\<not> (truthy current \<and> typeof_object current)"
      | (plain) "CHR ''['' \<notin> set key" "js_in inh key current = Inr False"
      | (absent) arrayKey indexStr rest where
          "split_on CHR ''['' key = arrayKey # indexStr # rest"
          "js_in inh arrayKey current = Inr False"
      | (nonarr) arrayKey indexStr rest v where
          "split_on CHR ''['' key = arrayKey # indexStr # rest"
          "get_member inh current arrayKey = Inr v" "\<not> isArray v"
      | (bounds) arrayKey indexStr rest xs where
          "split_on CHR ''['' key = arrayKey # indexStr # rest"
          "get_member inh current arrayKey = Inr (JArr xs)"
          "parseInt10 (remove1 CHR '']'' indexStr) = None
             \<or> (\<exists>i. parseInt10 (remove1 CHR '']'' indexStr) = Some i
                    \<and> (i < 0 \<or> int (length xs) \<le> i))"
      by blast
    then show ?thesis
    proof cases
      case nonobj
      then show ?thesis by (rule segment_not_object)
    next
      case plain
      then show ?thesis by (rule segment_absent_plain)
    next
      case absent
      then show ?thesis by (rule segment_absent_bracket)
    next
      case nonarr
      from split_on_two_mem [OF nonarr(1)] nonarr show ?thesis
        by (rule segment_not_array)
    next
      case bounds
      from split_on_two_mem [OF bounds(1)] bounds show ?thesis
        by (rule segment_out_of_bounds)
    qed
  qed
  from resolve_keys_stop [OF pre stop, of post] keys
  show "getNestedValue inh obj pth = Inr JUndefined"
    by (simp add: getNestedValue_def)
qed

theorem C6_getNestedValue_witness:
  "no_inherited (JArr [JNum 10, JNum 20]) [] = None
   \<and> getNestedValue no_inherited (JArr [JNum 10, JNum 20]) ''[1]'' = Inr JUndefined
   \<and> split_on CHR ''.'' ''a[2].x'' = [] @ ''a[2]'' # [''x'']
   \<and> resolve_keys no_inherited (JObj [(''a'', JArr [JNum 10, JNum 20])]) []
       = Inr (Some (JObj [(''a'', JArr [JNum 10, JNum 20])]))
   \<and> split_on CHR ''['' ''a[2]'' = [''a'', ''2]'']
   \<and> get_member no_inherited (JObj [(''a'', JArr [JNum 10, JNum 20])]) ''a''
       = Inr (JArr [JNum 10, JNum 20])
   \<and> parseInt10 (remove1 CHR '']'' ''2]'') = Some 2
   \<and> int (length [JNum 10, JNum 20]) \<le> 2
   \<and> getNestedValue no_inherited (JObj [(''a'', JArr [JNum 10, JNum 20])]) ''a[2].x'' = Inr JUndefined"
proof -
  have h1: "no_inherited (JArr [JNum 10, JNum 20]) [] = None"
    by (simp add: no_inherited_def)
  have h2: "split_on CHR ''.'' ''a[2].x'' = [] @ ''a[2]'' # [''x'']" by simp
  have h3: "resolve_keys no_inherited (JObj [(''a'', JArr [JNum 10, JNum 20])]) []
       = Inr (Some (JObj [(''a'', JArr [JNum 10, JNum 20])]))" by simp
  have h4: "split_on CHR ''['' ''a[2]'' = [''a'', ''2]'']" by simp
  have h5: "get_member no_inherited (JObj [(''a'', JArr [JNum 10, JNum 20])]) ''a''
       = Inr (JArr [JNum 10, JNum 20])" by simp
  have h6: "parseInt10 (remove1 CHR '']'' ''2]'') = Some 2"
    by (simp add: parseInt10_def white_eval is_digit_def digits_val_def digit_val_def)
  have h7: "int (length [JNum 10, JNum 20]) \<le> 2" by simp
  note w = C6_getNestedValue [of no_inherited
      "JObj [(''a'', JArr [JNum 10, JNum 20])]" "''a[2].x''" "[]" "''a[2]''" "[''x'']"
      "JObj [(''a'', JArr [JNum 10, JNum 20])]"]
  from w h1 have r1: "getNestedValue no_inherited (JArr [JNum 10, JNum 20]) ''[1]'' = Inr JUndefined"
    by blast
  from w h2 h3 h4 h5 h6 h7
  have r2: "getNestedValue no_inherited (JObj [(''a'', JArr [JNum 10, JNum 20])]) ''a[2].x'' = Inr JUndefined"
    by blast
  from h1 h2 h3 h4 h5 h6 h7 r1 r2 show ?thesis by blast
qed

subsection \<open>Properties of currency detection\<close>

lemma match_x: "match_field p ''x'' v = None"
  by (simp add: match_field_def case_eval CURRENCY_FIELD_NAMES_def)

lemma match_a: "match_field p ''a'' v = None"
  by (simp add: match_field_def case_eval CURRENCY_FIELD_NAMES_def)

lemma match_quote: "match_field p ''quote'' v = None"
  by (simp add: match_field_def case_eval CURRENCY_FIELD_NAMES_def)

lemma match_trimmed_lower_case:
  "match_field [] ''baseCurrency'' (JStr ('' usd'' @ [CHR 0xC2, CHR 0xA0])) =
     Some \<lparr>code = ''USD'', symbol = ''$'', path = ''baseCurrency''\<rparr>"
  by (simp add: match_field_def case_eval CURRENCY_FIELD_NAMES_def white_eval is_code3_def
      CURRENCY_CODE_TO_SYMBOL_def child_path_def)

lemma match_small_xi:
  "match_field [] ''symbol'' (JStr [CHR 0xCE, CHR 0xBE]) =
     Some \<lparr>code = ''ETH'', symbol = xi_sign, path = ''symbol''\<rparr>"
  by (simp add: match_field_def case_eval CURRENCY_FIELD_NAMES_def white_eval is_code3_def
      SYMBOL_TO_CURRENCY_CODE_def child_path_def xi_sign_def rupee_sign_def euro_sign_def
      pound_sign_def yen_sign_def bitcoin_sign_def)

lemma match_usd:
  "match_field p ''currency'' (JStr ''USD'') =
     Some \<lparr>code = ''USD'', symbol = ''$'', path = child_path p ''currency''\<rparr>"
  by (simp add: match_field_def case_eval CURRENCY_FIELD_NAMES_def white_eval is_code3_def CURRENCY_CODE_TO_SYMBOL_def)

lemma match_eur:
  "match_field p ''currency'' (JStr ''EUR'') =
     Some \<lparr>code = ''EUR'', symbol = euro_sign, path = child_path p ''currency''\<rparr>"
  by (simp add: match_field_def case_eval CURRENCY_FIELD_NAMES_def white_eval is_code3_def CURRENCY_CODE_TO_SYMBOL_def)

lemma find_too_deep:
  "maxDepth < currentDepth \<Longrightarrow> findCurrencyInObject obj p maxDepth currentDepth = None"
  by simp

lemma find_nested:
  "map_option code (findCurrencyInObject (nested n (JObj [(''currency'', JStr ''USD'')])) p m d) =
     (if d + n \<le> m then Some ''USD'' else None)"
proof (induction n arbitrary: p d)
  case 0
  then show ?case by (simp add: match_usd)
next
  case (Suc n)
  show ?case
  proof (cases "d \<le> m")
    case True
    then have "findCurrencyInObject (nested (Suc n) (JObj [(''currency'', JStr ''USD'')])) p m d =
        findCurrencyInObject (nested n (JObj [(''currency'', JStr ''USD'')])) (child_path p ''x'') m (d + 1)"
      by (cases n) (simp_all add: match_x split: option.splits)
    with Suc.IH [of "child_path p ''x''" "d + 1"] show ?thesis by simp
  next
    case False
    then show ?thesis by simp
  qed
qed

lemma scan_keys_append:
  "scan_keys pre p m d = None \<Longrightarrow> scan_keys (pre @ rest) p m d = scan_keys rest p m d"
proof (induction pre)
  case Nil
  then show ?case by simp
next
  case (Cons kv pre)
  obtain key v where kv: "kv = (key, v)" by (cases kv)
  from Cons.prems kv have a: "match_field p key v = None"
    and b: "(if is_plain_object v then findCurrencyInObject v (child_path p key) m (d + 1) else None) = None"
    and c: "scan_keys pre p m d = None"
    by (auto split: option.splits if_splits)
  from a b c Cons.IH kv show ?case by (simp del: findCurrencyInObject.simps)
qed

lemma find_object:
  "d \<le> m \<Longrightarrow> findCurrencyInObject (JObj kvs) p m d = scan_keys kvs p m d"
  by simp

lemma own_key_wins:
  assumes "d \<le> m" "scan_keys pre p m d = None" "match_field p key v = Some r"
  shows "findCurrencyInObject (JObj (pre @ (key, v) # post)) p m d = Some r"
  using assms by (simp add: scan_keys_append del: findCurrencyInObject.simps add: find_object)

lemma nested_wins:
  assumes "d \<le> m" "scan_keys pre p m d = None" "match_field p key v = None"
    "is_plain_object v" "findCurrencyInObject v (child_path p key) m (d + 1) = Some r"
  shows "findCurrencyInObject (JObj (pre @ (key, v) # post)) p m d = Some r"
  using assms by (simp add: scan_keys_append del: findCurrencyInObject.simps add: find_object)

lemma detect_root:
  "truthy d \<Longrightarrow> typeof_object d \<Longrightarrow> findCurrencyInObject d [] 5 0 = Some r \<Longrightarrow> detectCurrency d = Some r"
  by (simp add: detectCurrency_def del: findCurrencyInObject.simps)

lemma detect_data:
  "truthy d \<Longrightarrow> typeof_object d \<Longrightarrow> findCurrencyInObject d [] 5 0 = None \<Longrightarrow>
   truthy (own_prop d ''data'') \<Longrightarrow> typeof_object (own_prop d ''data'') \<Longrightarrow>
   findCurrencyInObject (own_prop d ''data'') ''data'' 5 0 = Some r \<Longrightarrow> detectCurrency d = Some r"
  by (simp add: detectCurrency_def del: findCurrencyInObject.simps)

lemma detect_array:
  "findCurrencyInObject (JArr (x # rest)) [] 5 0 = None \<Longrightarrow>
   detectCurrency (JArr (x # rest)) = findCurrencyInObject x ''[0]'' 5 0"
  by (simp add: detectCurrency_def array_index_def is_digit_def del: findCurrencyInObject.simps)

lemma detect_none:
  "findCurrencyInObject d [] 5 0 = None \<Longrightarrow>
   \<not> (truthy (own_prop d ''data'') \<and> typeof_object (own_prop d ''data'')) \<Longrightarrow>
   \<not> isArray d \<Longrightarrow> detectCurrency d = None"
  by (cases d) (auto simp add: detectCurrency_def simp del: findCurrencyInObject.simps)

lemma cex: "own_keys_first [(''a'', JObj [(''currency'', JStr ''EUR'')]), (''currency'', JStr ''USD'')] [] =
     Some \<lparr>code = ''USD'', symbol = ''$'', path = ''currency''\<rparr>
  \<and> detectCurrency (JObj [(''a'', JObj [(''currency'', JStr ''EUR'')]), (''currency'', JStr ''USD'')]) =
     Some \<lparr>code = ''EUR'', symbol = euro_sign, path = ''a.currency''\<rparr>"
  by (simp add: detectCurrency_def match_a match_usd match_eur child_path_def)

lemma find_array:
  "d \<le> m \<Longrightarrow> findCurrencyInObject (JArr (x # rest)) p m d = findCurrencyInObject x p m (d + 1)"
  by simp

text \<open>
  C7 (as amended). \<open>detectCurrency({quote: {currency: "USD", price: 100}})\<close> is
  \<open>{code: "USD", symbol: "$", path: "quote.currency"}\<close>. The scan is bounded in depth:
  nothing is inspected at a depth above \<open>maxDepth\<close>, and with \<open>maxDepth = 5\<close> a currency
  field wrapped in \<open>n\<close> objects is found exactly when \<open>n \<le> 5\<close>. The traversal is depth-first
  in \<^verbatim>\<open>Object.keys\<close> order: when the keys before a key yield nothing, that key's own match
  wins whatever follows, and failing that a match inside the key's object value wins
  before any later key is looked at; an array is scanned through its first element, one
  level deeper. \<open>detectCurrency\<close> returns the root scan's match; if there is none, the
  match of the same scan rooted at the \<open>data\<close> property (path prefix \<open>data\<close>) when that is
  an object or array; if none, for a root array the scan of its first element (path
  prefix \<open>[0]\<close>); and none otherwise.
\<close>

theorem C7_detectCurrency:
  "detectCurrency (JObj [(''quote'', JObj [(''currency'', JStr ''USD''), (''price'', JNum 100)])])
     = Some \<lparr>code = ''USD'', symbol = ''$'', path = ''quote.currency''\<rparr>
   \<and> (maxDepth < currentDepth \<longrightarrow> findCurrencyInObject obj p0 maxDepth currentDepth = None)
   \<and> map_option code (findCurrencyInObject (nested n (JObj [(''currency'', JStr ''USD'')])) [] 5 0)
       = (if n \<le> 5 then Some ''USD'' else None)
   \<and> (d1 \<le> m1 \<and> findCurrencyInObject (JObj pre1) p1 m1 d1 = None \<and> match_field p1 key1 v1 = Some r1
        \<longrightarrow> findCurrencyInObject (JObj (pre1 @ (key1, v1) # post1)) p1 m1 d1 = Some r1)
   \<and> (d2 \<le> m2 \<and> findCurrencyInObject (JObj pre2) p2 m2 d2 = None \<and> match_field p2 key2 v2 = None
        \<and> is_plain_object v2 \<and> findCurrencyInObject v2 (child_path p2 key2) m2 (d2 + 1) = Some r2
        \<longrightarrow> findCurrencyInObject (JObj (pre2 @ (key2, v2) # post2)) p2 m2 d2 = Some r2)
   \<and> (d3 \<le> m3 \<longrightarrow>
        findCurrencyInObject (JArr (x3 # rest3)) p3 m3 d3 = findCurrencyInObject x3 p3 m3 (d3 + 1))
   \<and> (truthy a4 \<and> typeof_object a4 \<and> findCurrencyInObject a4 [] 5 0 = Some r4
        \<longrightarrow> detectCurrency a4 = Some r4)
   \<and> (truthy a5 \<and> typeof_object a5 \<and> findCurrencyInObject a5 [] 5 0 = None
        \<and> truthy (own_prop a5 ''data'') \<and> typeof_object (own_prop a5 ''data'')
        \<and> findCurrencyInObject (own_prop a5 ''data'') ''data'' 5 0 = Some r5
        \<longrightarrow> detectCurrency a5 = Some r5)
   \<and> (findCurrencyInObject (JArr (x6 # rest6)) [] 5 0 = None
        \<longrightarrow> detectCurrency (JArr (x6 # rest6)) = findCurrencyInObject x6 ''[0]'' 5 0)
   \<and> (findCurrencyInObject a7 [] 5 0 = None
        \<and> \<not> (truthy (own_prop a7 ''data'') \<and> typeof_object (own_prop a7 ''data''))
        \<and> \<not> isArray a7
        \<longrightarrow> detectCurrency a7 = None)"
proof (intro conjI impI)
  show "detectCurrency (JObj [(''quote'', JObj [(''currency'', JStr ''USD''), (''price'', JNum 100)])])
     = Some \<lparr>code = ''USD'', symbol = ''$'', path = ''quote.currency''\<rparr>"
    by (simp add: detectCurrency_def match_quote match_usd child_path_def)
  show "findCurrencyInObject obj p0 maxDepth currentDepth = None" if "maxDepth < currentDepth"
    using that by (rule find_too_deep)
  show "map_option code (findCurrencyInObject (nested n (JObj [(''currency'', JStr ''USD'')])) [] 5 0)
       = (if n \<le> 5 then Some ''USD'' else None)"
    using find_nested [of n "[]" 5 0] by simp
  show "findCurrencyInObject (JObj (pre1 @ (key1, v1) # post1)) p1 m1 d1 = Some r1"
    if "d1 \<le> m1 \<and> findCurrencyInObject (JObj pre1) p1 m1 d1 = None \<and> match_field p1 key1 v1 = Some r1"
  proof -
    from that have le: "d1 \<le> m1" and m: "match_field p1 key1 v1 = Some r1"
      and f: "findCurrencyInObject (JObj pre1) p1 m1 d1 = None" by blast+
    from f have "scan_keys pre1 p1 m1 d1 = None" unfolding find_object [OF le] .
    with le show ?thesis using m by (rule own_key_wins)
  qed
  show "findCurrencyInObject (JObj (pre2 @ (key2, v2) # post2)) p2 m2 d2 = Some r2"
    if "d2 \<le> m2 \<and> findCurrencyInObject (JObj pre2) p2 m2 d2 = None \<and> match_field p2 key2 v2 = None
        \<and> is_plain_object v2 \<and> findCurrencyInObject v2 (child_path p2 key2) m2 (d2 + 1) = Some r2"
  proof -
    from that have le: "d2 \<le> m2" and m: "match_field p2 key2 v2 = None"
      and f: "findCurrencyInObject (JObj pre2) p2 m2 d2 = None"
      and o: "is_plain_object v2"
      and n: "findCurrencyInObject v2 (child_path p2 key2) m2 (d2 + 1) = Some r2" by blast+
    from f have "scan_keys pre2 p2 m2 d2 = None" unfolding find_object [OF le] .
    with le show ?thesis using m o n by (rule nested_wins)
  qed
  show "findCurrencyInObject (JArr (x3 # rest3)) p3 m3 d3 = findCurrencyInObject x3 p3 m3 (d3 + 1)"
    if "d3 \<le> m3"
    using that by (rule find_array)
  show "detectCurrency a4 = Some r4"
    if "truthy a4 \<and> typeof_object a4 \<and> findCurrencyInObject a4 [] 5 0 = Some r4"
    using that detect_root [of a4 r4] by blast
  show "detectCurrency a5 = Some r5"
    if "truthy a5 \<and> typeof_object a5 \<and> findCurrencyInObject a5 [] 5 0 = None
        \<and> truthy (own_prop a5 ''data'') \<and> typeof_object (own_prop a5 ''data'')
        \<and> findCurrencyInObject (own_prop a5 ''data'') ''data'' 5 0 = Some r5"
    using that detect_data [of a5 r5] by blast
  show "detectCurrency (JArr (x6 # rest6)) = findCurrencyInObject x6 ''[0]'' 5 0"
    if "findCurrencyInObject (JArr (x6 # rest6)) [] 5 0 = None"
    using that by (rule detect_array)
  show "detectCurrency a7 = None"
    if "findCurrencyInObject a7 [] 5 0 = None
        \<and> \<not> (truthy (own_prop a7 ''data'') \<and> typeof_object (own_prop a7 ''data''))
        \<and> \<not> isArray a7"
    using that detect_none [of a7] by blast
qed

theorem C7_detectCurrency_witness:
  "(5::nat) < 6 \<and> findCurrencyInObject (JObj [(''currency'', JStr ''USD'')]) [] 5 6 = None
   \<and> map_option code (findCurrencyInObject (nested 5 (JObj [(''currency'', JStr ''USD'')])) [] 5 0)
       = Some ''USD''
   \<and> findCurrencyInObject (JObj []) [] 5 0 = None
   \<and> match_field [] ''currency'' (JStr ''USD'')
       = Some \<lparr>code = ''USD'', symbol = ''$'', path = ''currency''\<rparr>
   \<and> findCurrencyInObject (JObj ([] @ (''currency'', JStr ''USD'') # [(''a'', JNum 1)])) [] 5 0
       = Some \<lparr>code = ''USD'', symbol = ''$'', path = ''currency''\<rparr>
   \<and> match_field [] ''a'' (JObj [(''currency'', JStr ''EUR'')]) = None
   \<and> is_plain_object (JObj [(''currency'', JStr ''EUR'')])
   \<and> findCurrencyInObject (JObj [(''currency'', JStr ''EUR'')]) (child_path [] ''a'') 5 (0 + 1)
       = Some \<lparr>code = ''EUR'', symbol = euro_sign, path = ''a.currency''\<rparr>
   \<and> findCurrencyInObject
         (JObj ([] @ (''a'', JObj [(''currency'', JStr ''EUR'')]) # [(''currency'', JStr ''USD'')])) [] 5 0
       = Some \<lparr>code = ''EUR'', symbol = euro_sign, path = ''a.currency''\<rparr>
   \<and> findCurrencyInObject (JArr (JObj [(''currency'', JStr ''USD'')] # [])) ''p'' 5 0
       = findCurrencyInObject (JObj [(''currency'', JStr ''USD'')]) ''p'' 5 (0 + 1)
   \<and> findCurrencyInObject (JObj [(''data'', JArr [JObj [(''currency'', JStr ''USD'')]])]) [] 5 0 = None
   \<and> detectCurrency (JObj [(''data'', JArr [JObj [(''currency'', JStr ''USD'')]])])
       = Some \<lparr>code = ''USD'', symbol = ''$'', path = ''data.currency''\<rparr>
   \<and> findCurrencyInObject (JArr (JNum 1 # [])) [] 5 0 = None
   \<and> detectCurrency (JArr (JNum 1 # [])) = findCurrencyInObject (JNum 1) ''[0]'' 5 0
   \<and> detectCurrency (JObj [(''a'', JNum 1)]) = None"
proof -
  have h1: "(5::nat) < 6" by simp
  have h2: "(0::nat) \<le> 5" by simp
  have h3: "findCurrencyInObject (JObj []) [] 5 0 = None" by simp
  have h4: "match_field [] ''currency'' (JStr ''USD'')
       = Some \<lparr>code = ''USD'', symbol = ''$'', path = ''currency''\<rparr>"
    by (simp add: match_usd child_path_def)
  have h5: "match_field [] ''a'' (JObj [(''currency'', JStr ''EUR'')]) = None"
    by (rule match_a)
  have h6: "is_plain_object (JObj [(''currency'', JStr ''EUR'')])" by simp
  have h7: "findCurrencyInObject (JObj [(''currency'', JStr ''EUR'')]) (child_path [] ''a'') 5 (0 + 1)
       = Some \<lparr>code = ''EUR'', symbol = euro_sign, path = ''a.currency''\<rparr>"
    by (simp add: match_eur child_path_def)
  have h8: "findCurrencyInObject (JObj [(''data'', JArr [JObj [(''currency'', JStr ''USD'')]])]) [] 5 0 = None"
    by (simp add: match_field_def case_eval CURRENCY_FIELD_NAMES_def)
  have h9: "truthy (JObj [(''data'', JArr [JObj [(''currency'', JStr ''USD'')]])])
      \<and> typeof_object (JObj [(''data'', JArr [JObj [(''currency'', JStr ''USD'')]])])
      \<and> truthy (own_prop (JObj [(''data'', JArr [JObj [(''currency'', JStr ''USD'')]])]) ''data'')
      \<and> typeof_object (own_prop (JObj [(''data'', JArr [JObj [(''currency'', JStr ''USD'')]])]) ''data'')"
    by simp
  have h10: "findCurrencyInObject (own_prop (JObj [(''data'', JArr [JObj [(''currency'', JStr ''USD'')]])]) ''data'')
       ''data'' 5 0 = Some \<lparr>code = ''USD'', symbol = ''$'', path = ''data.currency''\<rparr>"
    by (simp add: match_usd child_path_def)
  have h11: "findCurrencyInObject (JArr (JNum 1 # [])) [] 5 0 = None" by simp
  have h12: "findCurrencyInObject (JObj [(''a'', JNum 1)]) [] 5 0 = None
      \<and> \<not> (truthy (own_prop (JObj [(''a'', JNum 1)]) ''data'')
            \<and> typeof_object (own_prop (JObj [(''a'', JNum 1)]) ''data''))
      \<and> \<not> isArray (JObj [(''a'', JNum 1)])"
    by (simp add: match_a)
  note w = C7_detectCurrency [where maxDepth = 5 and currentDepth = 6
      and obj = "JObj [(''currency'', JStr ''USD'')]" and ?p0.0 = "[]" and n = 5
      and ?d1.0 = 0 and ?m1.0 = 5 and ?pre1.0 = "[]" and ?p1.0 = "[]" and ?key1.0 = "''currency''"
      and ?v1.0 = "JStr ''USD''" and ?r1.0 = "\<lparr>code = ''USD'', symbol = ''$'', path = ''currency''\<rparr>"
      and ?post1.0 = "[(''a'', JNum 1)]"
      and ?d2.0 = 0 and ?m2.0 = 5 and ?pre2.0 = "[]" and ?p2.0 = "[]" and ?key2.0 = "''a''"
      and ?v2.0 = "JObj [(''currency'', JStr ''EUR'')]"
      and ?r2.0 = "\<lparr>code = ''EUR'', symbol = euro_sign, path = ''a.currency''\<rparr>"
      and ?post2.0 = "[(''currency'', JStr ''USD'')]"
      and ?d3.0 = 0 and ?m3.0 = 5 and ?x3.0 = "JObj [(''currency'', JStr ''USD'')]" and ?rest3.0 = "[]"
      and ?p3.0 = "''p''"
      and ?a5.0 = "JObj [(''data'', JArr [JObj [(''currency'', JStr ''USD'')]])]"
      and ?r5.0 = "\<lparr>code = ''USD'', symbol = ''$'', path = ''data.currency''\<rparr>"
      and ?x6.0 = "JNum 1" and ?rest6.0 = "[]"
      and ?a7.0 = "JObj [(''a'', JNum 1)]"]
  from w h1 have c1: "findCurrencyInObject (JObj [(''currency'', JStr ''USD'')]) [] 5 6 = None"
    by blast
  from w have c2: "map_option code (findCurrencyInObject (nested 5 (JObj [(''currency'', JStr ''USD'')])) [] 5 0)
       = Some ''USD''"
    by simp
  from w h2 h3 h4 have c3: "findCurrencyInObject (JObj ([] @ (''currency'', JStr ''USD'') # [(''a'', JNum 1)])) [] 5 0
       = Some \<lparr>code = ''USD'', symbol = ''$'', path = ''currency''\<rparr>"
    by blast
  from w h2 h3 h5 h6 h7 have c4: "findCurrencyInObject
         (JObj ([] @ (''a'', JObj [(''currency'', JStr ''EUR'')]) # [(''currency'', JStr ''USD'')])) [] 5 0
       = Some \<lparr>code = ''EUR'', symbol = euro_sign, path = ''a.currency''\<rparr>"
    by blast
  from w h2 have c5: "findCurrencyInObject (JArr (JObj [(''currency'', JStr ''USD'')] # [])) ''p'' 5 0
       = findCurrencyInObject (JObj [(''currency'', JStr ''USD'')]) ''p'' 5 (0 + 1)"
    by blast
  from w h8 h9 h10 have c6: "detectCurrency (JObj [(''data'', JArr [JObj [(''currency'', JStr ''USD'')]])])
       = Some \<lparr>code = ''USD'', symbol = ''$'', path = ''data.currency''\<rparr>"
    by blast
  from w h11 have c7: "detectCurrency (JArr (JNum 1 # [])) = findCurrencyInObject (JNum 1) ''[0]'' 5 0"
    by blast
  from w h12 have c8: "detectCurrency (JObj [(''a'', JNum 1)]) = None"
    by blast
  from h1 h3 h4 h5 h6 h7 h8 h11 c1 c2 c3 c4 c5 c6 c7 c8 show ?thesis
    by blast
qed

text \<open>
  C7 as stated fails: in \<open>{a: {currency: "EUR"}, currency: "USD"}\<close> the root's own key
  \<open>currency\<close> matches, yet the result is the match found earlier inside \<open>a\<close>.
\<close>

theorem C7_own_keys_first_counterexample:
  "own_keys_first [(''a'', JObj [(''currency'', JStr ''EUR'')]), (''currency'', JStr ''USD'')] [] =
     Some \<lparr>code = ''USD'', symbol = ''$'', path = ''currency''\<rparr>
   \<and> detectCurrency (JObj [(''a'', JObj [(''currency'', JStr ''EUR'')]), (''currency'', JStr ''USD'')]) =
     Some \<lparr>code = ''EUR'', symbol = euro_sign, path = ''a.currency''\<rparr>"
  by (simp add: detectCurrency_def match_a match_usd match_eur child_path_def)

subsection \<open>Properties of the orchestrator\<close>

lemma handle_ok_no_retry: "handle_ok rt a resp w \<noteq> Retry w'"
  by (auto simp: handle_ok_def Let_def split: sum.splits option.splits)

lemma handle_error_retry: "handle_error rt a resp w = Retry w' \<Longrightarrow> retryCount a < maxRetries a"
  by (auto simp: handle_error_def Let_def split: sum.splits option.splits if_splits)

lemma before_request_no_retry: "before_request rt a w \<noteq> Inl (Retry w')"
  by (auto simp: before_request_def Let_def split: sum.splits option.splits prod.splits)

lemma attempt_retry: "attempt rt a w = Retry w' \<Longrightarrow> retryCount a < maxRetries a"
  by (auto simp: attempt_def before_request_no_retry handle_ok_no_retry
      split: sum.splits prod.splits if_splits dest: handle_error_retry)

declare fetchApiData.simps [simp del]

lemma trim_nonempty: "trim s \<noteq> [] \<Longrightarrow> s \<noteq> []"
  by auto

lemma auth_headers_attached:
  "\<not> useProxy a \<Longrightarrow> apiKey a = Some k \<Longrightarrow> apiKeyHeader a = Some h \<Longrightarrow> trim k \<noteq> [] \<Longrightarrow>
   trim h \<noteq> [] \<Longrightarrow> \<not> urlHasAuth (req_url a) \<Longrightarrow> h \<noteq> ''__proto__'' \<Longrightarrow>
   auth_headers a = [(h, k)]"
  by (auto simp: auth_headers_def assigned_def dest: trim_nonempty)

lemma auth_headers_only:
  "auth_headers a \<noteq> [] \<Longrightarrow>
   \<not> useProxy a \<and> \<not> urlHasAuth (req_url a) \<and>
   (\<exists>k h. apiKey a = Some k \<and> apiKeyHeader a = Some h \<and> trim k \<noteq> [] \<and> trim h \<noteq> []
          \<and> h \<noteq> ''__proto__'' \<and> auth_headers a = [(h, k)])"
  by (auto simp: auth_headers_def assigned_def split: option.splits if_splits)

lemma build_request_retry [simp]: "build_request (a\<lparr>retryCount := n\<rparr>) = build_request a"
  by (simp add: build_request_def auth_headers_def proxy_params_def split: option.splits)

lemma proxy_request_retry [simp]: "proxy_request (a\<lparr>retryCount := n\<rparr>) = proxy_request a"
  by (simp add: proxy_request_def proxy_params_def split: option.splits)

lemma before_request_Inr:
  "before_request rt a w = Inr w1 \<Longrightarrow>
   requests w1 = requests w \<and> clock w1 = clock w \<and> slept w1 = slept w"
  by (auto simp: before_request_def checkRateLimit_def Let_def
      split: sum.splits option.splits prod.splits if_splits)

lemma before_request_Inl:
  "before_request rt a w = Inl out \<Longrightarrow>
   requests (world_of out) = requests w \<and> clock (world_of out) = clock w
   \<and> slept (world_of out) = slept w"
  by (auto simp: before_request_def checkRateLimit_def Let_def
      split: sum.splits option.splits prod.splits if_splits)

lemma invalidate_on_error_fields [simp]:
  "requests (invalidate_on_error rt a w) = requests w"
  "clock (invalidate_on_error rt a w) = clock w"
  "slept (invalidate_on_error rt a w) = slept w"
  "rateLimitCache (invalidate_on_error rt a w) = rateLimitCache w"
  by (simp_all add: invalidate_on_error_def)

lemma cache_store_fields [simp]:
  "requests (cache_store rt a d w) = requests w"
  "clock (cache_store rt a d w) = clock w"
  "slept (cache_store rt a d w) = slept w"
  "rateLimitCache (cache_store rt a d w) = rateLimitCache w"
  by (simp_all add: cache_store_def split: option.splits)

lemma sleep_fields [simp]:
  "requests (sleep ms w) = requests w"
  "responseCache (sleep ms w) = responseCache w"
  "rateLimitCache (sleep ms w) = rateLimitCache w"
  "slept (sleep ms w) = slept w + max 0 ms"
  "clock (sleep ms w) = clock w + max 0 ms"
  by (simp_all add: sleep_def)

lemma do_fetch_fields:
  "do_fetch rt req w = (res, w2) \<Longrightarrow>
   requests w2 = requests w @ [req] \<and> slept w2 = slept w \<and> responseCache w2 = responseCache w
   \<and> rateLimitCache w2 = rateLimitCache w \<and> clock w2 = clock w + int (took (network rt (length (requests w)) req))
   \<and> res = settled (network rt (length (requests w)) req)"
  by (auto simp: do_fetch_def Let_def)

lemma handle_ok_requests: "requests (world_of (handle_ok rt a resp w)) = requests w"
  by (auto simp: handle_ok_def Let_def split: sum.splits option.splits)

lemma handle_error_requests: "requests (world_of (handle_error rt a resp w)) = requests w"
  by (auto simp: handle_error_def recordRateLimit_def Let_def split: sum.splits option.splits)

lemma attempt_requests:
  "requests (world_of (attempt rt a w)) = requests w
   \<or> requests (world_of (attempt rt a w)) = requests w @ [build_request a]"
proof (cases "before_request rt a w")
  case (Inl out)
  with before_request_Inl [OF Inl] show ?thesis by (simp add: attempt_def)
next
  case (Inr w1)
  obtain res w2 where f: "do_fetch rt (build_request a) w1 = (res, w2)"
    by (cases "do_fetch rt (build_request a) w1")
  from do_fetch_fields [OF f] before_request_Inr [OF Inr]
  have r: "requests w2 = requests w @ [build_request a]" by simp
  show ?thesis
  proof (cases res)
    case (Inl msg)
    with Inr f r show ?thesis by (simp add: attempt_def)
  next
    case (Inr resp)
    with \<open>before_request rt a w = Inr w1\<close> f r handle_ok_requests [of rt a resp w2]
      handle_error_requests [of rt a resp w2]
    show ?thesis by (simp add: attempt_def)
  qed
qed

lemma attempt_retry_requests:
  assumes "attempt rt a w = Retry w'"
  shows "requests w' = requests w @ [build_request a]"
proof (cases "before_request rt a w")
  case (Inl out)
  with assms have "out = Retry w'" by (simp add: attempt_def)
  with Inl before_request_no_retry show ?thesis by blast
next
  case (Inr w1)
  obtain res w2 where f: "do_fetch rt (build_request a) w1 = (res, w2)"
    by (cases "do_fetch rt (build_request a) w1")
  from do_fetch_fields [OF f] before_request_Inr [OF Inr]
  have r: "requests w2 = requests w @ [build_request a]" by simp
  show ?thesis
  proof (cases res)
    case (Inl msg)
    with Inr f assms show ?thesis by (simp add: attempt_def)
  next
    case (Inr resp)
    with \<open>before_request rt a w = Inr w1\<close> f assms
    have "(if \<not> ok resp then handle_error rt a resp w2 else handle_ok rt a resp w2) = Retry w'"
      by (simp add: attempt_def)
    with handle_ok_requests [of rt a resp w2] handle_error_requests [of rt a resp w2] r
    show ?thesis by (auto split: if_splits)
  qed
qed

lemma proxy_fallback_requests:
  "proxy_fallback rt a w = (r, w') \<Longrightarrow> requests w' = requests w @ [proxy_request a]"
  by (auto simp: proxy_fallback_def proxy_request_def do_fetch_def Let_def
      split: sum.splits option.splits if_splits)

lemma catch_handler_requests:
  "catch_handler rt a e w = (r, w') \<Longrightarrow>
   requests w' = requests w \<or> (\<not> useProxy a \<and> requests w' = requests w @ [proxy_request a])"
  by (auto simp: catch_handler_def dest: proxy_fallback_requests split: if_splits)

lemma fetch_requests:
  "fetchApiData rt a w = (r, w') \<Longrightarrow>
   \<exists>n tail. requests w' = requests w @ replicate n (build_request a) @ tail
         \<and> n \<le> nat (maxRetries a - retryCount a) + 1
         \<and> (tail = [] \<or> (tail = [proxy_request a] \<and> \<not> useProxy a))"
proof (induction rt a w arbitrary: r w' rule: fetchApiData.induct)
  case (1 rt a w)
  note run = \<open>fetchApiData rt a w = (r, w')\<close>
  show ?case
  proof (cases "attempt rt a w")
    case (Return r1 w1)
    with run have "w' = w1" by (simp add: fetchApiData.simps [of rt a w])
    with attempt_requests [of rt a w] Return
    have "requests w' = requests w @ replicate 0 (build_request a) @ []
        \<or> requests w' = requests w @ replicate 1 (build_request a) @ []" by simp
    then show ?thesis
    proof
      assume "requests w' = requests w @ replicate 0 (build_request a) @ []"
      then show ?thesis by (intro exI [of _ 0] exI [of _ "[]"]) simp
    next
      assume "requests w' = requests w @ replicate 1 (build_request a) @ []"
      then show ?thesis by (intro exI [of _ 1] exI [of _ "[]"]) simp
    qed
  next
    case (Retry w1)
    with run have rec: "fetchApiData rt (a\<lparr>retryCount := retryCount a + 1\<rparr>) w1 = (r, w')"
      by (simp add: fetchApiData.simps [of rt a w])
    from "1.IH" [OF Retry rec] obtain n tail where
      n1: "requests w' = requests w1 @ replicate n (build_request a) @ tail"
      and n2: "n \<le> nat (maxRetries a - (retryCount a + 1)) + 1"
      and n3: "tail = [] \<or> (tail = [proxy_request a] \<and> \<not> useProxy a)"
      by auto
    from attempt_retry_requests [OF Retry] have first: "requests w1 = requests w @ [build_request a]" .
    from attempt_retry [OF Retry] have lt: "retryCount a < maxRetries a" .
    from n1 first have "requests w' = requests w @ replicate (Suc n) (build_request a) @ tail" by simp
    moreover from n2 lt have "Suc n \<le> nat (maxRetries a - retryCount a) + 1" by simp
    ultimately show ?thesis using n3 by blast
  next
    case (Throw e w1)
    with run have c: "catch_handler rt a e w1 = (r, w')"
      by (simp add: fetchApiData.simps [of rt a w])
    from attempt_requests [of rt a w] Throw
    have a1: "requests w1 = requests w \<or> requests w1 = requests w @ [build_request a]" by simp
    from catch_handler_requests [OF c]
    have a2: "requests w' = requests w1 \<or> (\<not> useProxy a \<and> requests w' = requests w1 @ [proxy_request a])" .
    from a1 a2 consider
        "requests w' = requests w @ replicate 0 (build_request a) @ []"
      | "requests w' = requests w @ replicate 1 (build_request a) @ []"
      | "requests w' = requests w @ replicate 0 (build_request a) @ [proxy_request a]" "\<not> useProxy a"
      | "requests w' = requests w @ replicate 1 (build_request a) @ [proxy_request a]" "\<not> useProxy a"
      by auto
    then show ?thesis
    proof cases
      case 1
      then show ?thesis by (intro exI [of _ 0] exI [of _ "[]"]) simp
    next
      case 2
      then show ?thesis by (intro exI [of _ 1] exI [of _ "[]"]) simp
    next
      case 3
      then show ?thesis by (intro exI [of _ 0] exI [of _ "[proxy_request a]"]) simp
    next
      case 4
      then show ?thesis by (intro exI [of _ 1] exI [of _ "[proxy_request a]"]) simp
    qed
  qed
qed

lemma fetch_requests_members:
  assumes "fetchApiData rt a w = (r, w')"
  shows "\<exists>new. requests w' = requests w @ new \<and> set new \<subseteq> {build_request a, proxy_request a}"
proof -
  from fetch_requests [OF assms] obtain n tail where
    "requests w' = requests w @ replicate n (build_request a) @ tail"
    "tail = [] \<or> (tail = [proxy_request a] \<and> \<not> useProxy a)" by blast
  then show ?thesis
    by (intro exI [of _ "replicate n (build_request a) @ tail"]) auto
qed

text \<open>Once past the cache and the rate-limit check, the request is the next one issued.\<close>

lemma attempt_first_request:
  assumes "before_request rt a w = Inr w1"
  shows "requests (world_of (attempt rt a w)) = requests w @ [build_request a]"
proof -
  obtain res w2 where f: "do_fetch rt (build_request a) w1 = (res, w2)"
    by (cases "do_fetch rt (build_request a) w1")
  from do_fetch_fields [OF f] before_request_Inr [OF assms]
  have r: "requests w2 = requests w @ [build_request a]" by simp
  show ?thesis
  proof (cases res)
    case (Inl msg)
    with assms f r show ?thesis by (simp add: attempt_def)
  next
    case (Inr resp)
    with assms f r handle_ok_requests [of rt a resp w2] handle_error_requests [of rt a resp w2]
    show ?thesis by (simp add: attempt_def)
  qed
qed

lemma fetch_first_request:
  assumes "before_request rt a w = Inr w1" "fetchApiData rt a w = (r, w')"
  shows "\<exists>more. requests w' = requests w @ build_request a # more"
proof (cases "attempt rt a w")
  case (Return r1 w2)
  with assms(2) have "w' = w2" by (simp add: fetchApiData.simps [of rt a w])
  with attempt_first_request [OF assms(1)] Return show ?thesis by simp
next
  case (Retry w2)
  with assms(2) have rec: "fetchApiData rt (a\<lparr>retryCount := retryCount a + 1\<rparr>) w2 = (r, w')"
    by (simp add: fetchApiData.simps [of rt a w])
  from fetch_requests_members [OF rec] obtain new where "requests w' = requests w2 @ new" by blast
  with attempt_first_request [OF assms(1)] Retry show ?thesis by simp
next
  case (Throw e w2)
  with assms(2) have c: "catch_handler rt a e w2 = (r, w')"
    by (simp add: fetchApiData.simps [of rt a w])
  from catch_handler_requests [OF c] attempt_first_request [OF assms(1)] Throw
  show ?thesis by auto
qed

lemma request_shape:
  "q \<in> {build_request a, proxy_request a} \<Longrightarrow>
   (target q = Direct (req_url a) \<and> \<not> useProxy a \<and> headers q = auth_headers a)
   \<or> (target q = ViaProxy (req_url a) (proxy_params a) \<and> headers q = [])"
  by (auto simp: build_request_def proxy_request_def)

lemmas fetch_eval =
  assigned_def substring0_def attempt_def before_request_def cache_on_def cache_key_def generateCacheKey_def
  getCachedData_def getCacheAge_def checkRateLimit_def recordRateLimit_def do_fetch_def build_request_def
  auth_headers_def proxy_params_def ok_def handle_ok_def handle_error_def http_error_message_def
  fallback_message_def success_def failure_def cache_store_def invalidate_on_error_def
  setCachedData_def invalidateCache_def
  sort_entries_def catch_handler_def proxy_fallback_def is_cors_error_def error_text_def sleep_def
  backoff_ms_def ceil_seconds_def urlHasAuth_def Let_def

lemmas demo_eval = demo_rt_def demo_parse_def json_response_def start_world_def

lemma qk: "cache_key (demo_rt net) quote_args = ''https://api.example.com/quote?symbol=IBM''"
  by (simp add: cache_key_def generateCacheKey_def demo_rt_def demo_parse_def quote_args_def sort_entries_def)

lemma step1: "fetchApiData (demo_rt net_ok_then_429) quote_args (start_world 1000) = 
   (\<lparr>r_data = JObj [(''price'', JNum 100)], r_error = None, r_timestamp = 1020, fromCache = False, cacheAge = None\<rparr>,
    \<lparr>responseCache = [''https://api.example.com/quote?symbol=IBM'' \<mapsto> quote_entry],
     rateLimitCache = Map.empty, clock = 1020, requests = [quote_request], slept = 0\<rparr>)"
  by (simp add: fetchApiData.simps fetch_eval demo_eval quote_args_def net_ok_then_429_def quote_entry_def quote_request_def)

lemma step2: "fetchApiData (demo_rt net_ok_then_429) news_args 
    \<lparr>responseCache = [''https://api.example.com/quote?symbol=IBM'' \<mapsto> quote_entry],
     rateLimitCache = Map.empty, clock = 1020, requests = [quote_request], slept = 0\<rparr> = 
   (\<lparr>r_data = JNull, r_error = Some (ApiRateLimitWait 60), r_timestamp = 1040, fromCache = False, cacheAge = None\<rparr>,
    \<lparr>responseCache = [''https://api.example.com/quote?symbol=IBM'' \<mapsto> quote_entry],
     rateLimitCache = [''https://api.example.com'' \<mapsto> \<lparr>count = 1, resetTime = Some 61040\<rparr>], clock = 1040, requests = [quote_request, news_request], slept = 0\<rparr>)"
  by (simp add: fetchApiData.simps fetch_eval demo_eval news_args_def net_ok_then_429_def quote_entry_def quote_request_def news_request_def)

lemma step3: "fetchApiData (demo_rt net_ok_then_429) (quote_args\<lparr>bypassCache := True\<rparr>)
    \<lparr>responseCache = [''https://api.example.com/quote?symbol=IBM'' \<mapsto> quote_entry],
     rateLimitCache = [''https://api.example.com'' \<mapsto> \<lparr>count = 1, resetTime = Some 61040\<rparr>], clock = 1040, requests = [quote_request, news_request], slept = 0\<rparr> = 
   (\<lparr>r_data = JNull, r_error = Some (RateLimitWait 60), r_timestamp = 1040, fromCache = False, cacheAge = None\<rparr>,
    \<lparr>responseCache = [''https://api.example.com/quote?symbol=IBM'' \<mapsto> quote_entry],
     rateLimitCache = [''https://api.example.com'' \<mapsto> \<lparr>count = 1, resetTime = Some 61040\<rparr>], clock = 1040, requests = [quote_request, news_request], slept = 0\<rparr>)"
  by (simp add: fetchApiData.simps fetch_eval demo_eval quote_args_def net_ok_then_429_def quote_entry_def quote_request_def news_request_def)

lemma keyed_run:
  "fetchApiData (demo_rt net_always_ok) keyed_quote_args (start_world 1000) =
     (\<lparr>r_data = JObj [(''price'', JNum 100)], r_error = None, r_timestamp = 1020,
       fromCache = False, cacheAge = None\<rparr>,
      \<lparr>responseCache =
         [''https://api.example.com/quote?symbol=IBM&_key=secret&_header=X-Api-Key'' \<mapsto> quote_entry],
       rateLimitCache = Map.empty, clock = 1020,
       requests = [\<lparr>target = Direct ''https://api.example.com/quote?symbol=IBM'',
                    headers = [(''X-Api-Key'', ''secret'')]\<rparr>],
       slept = 0\<rparr>)"
  by (simp add: fetchApiData.simps fetch_eval demo_eval keyed_quote_args_def quote_args_def
      net_always_ok_def quote_entry_def white_eval)

lemma keyed_before:
  "before_request (demo_rt net_always_ok) keyed_quote_args (start_world 1000) = Inr (start_world 1000)"
  by (simp add: fetch_eval demo_eval keyed_quote_args_def quote_args_def)

lemma proto_run:
  "requests (snd (fetchApiData (demo_rt net_always_ok) proto_args (start_world 1000))) =
     [\<lparr>target = Direct ''https://api.example.com/quote?symbol=IBM'', headers = []\<rparr>]"
  by (simp add: fetchApiData.simps fetch_eval demo_eval proto_args_def quote_args_def
      net_always_ok_def white_eval)

text \<open>
  C9. What the code does. The \<^verbatim>\<open>headers\<close> object of a call has a property exactly when the
  call is direct, the URL contains none of \<open>token=\<close>, \<open>apikey=\<close>, \<open>api_key=\<close>, \<open>key=\<close>, key
  and header name are both given and non-empty after trimming, and the header name is not
  \<^verbatim>\<open>__proto__\<close>; it then holds the key, untrimmed, under the header name. A direct call that
  gets past the cache and the rate-limit check issues its request with exactly these
  headers, and every request a call issues is either that direct request or a request to
  the proxy route, which carries no custom header.

  The claim states the condition without its last clause, and there the code falls short
  of it: for the key \<open>secret\<close> and the header name \<^verbatim>\<open>__proto__\<close> the condition of the claim
  holds, the \<^verbatim>\<open>headers\<close> object stays empty and the request goes out with no header.
\<close>

theorem C9_auth_header:
  "(auth_headers a \<noteq> [] \<longleftrightarrow>
      (\<not> useProxy a \<and> \<not> urlHasAuth (req_url a)
       \<and> (\<exists>k h. apiKey a = Some k \<and> apiKeyHeader a = Some h \<and> trim k \<noteq> [] \<and> trim h \<noteq> []
                 \<and> h \<noteq> ''__proto__'')))
   \<and> (apiKey a = Some k \<and> apiKeyHeader a = Some h \<and> auth_headers a \<noteq> []
        \<longrightarrow> auth_headers a = [(h, k)])
   \<and> (urlHasAuth u \<longleftrightarrow>
        (str_includes u ''token='' \<or> str_includes u ''apikey='' \<or> str_includes u ''api_key=''
         \<or> str_includes u ''key=''))
   \<and> (before_request rt a w = Inr w1 \<and> \<not> useProxy a \<and> fetchApiData rt a w = (r, w')
        \<longrightarrow> (\<exists>more. requests w' =
               requests w @ \<lparr>target = Direct (req_url a), headers = auth_headers a\<rparr> # more))
   \<and> (fetchApiData rt a w = (r, w')
        \<longrightarrow> (\<exists>new. requests w' = requests w @ new
              \<and> (\<forall>q \<in> set new.
                    (target q = Direct (req_url a) \<and> \<not> useProxy a \<and> headers q = auth_headers a)
                    \<or> (target q = ViaProxy (req_url a) (proxy_params a) \<and> headers q = []))))
   \<and> (\<not> useProxy proto_args \<and> \<not> urlHasAuth (req_url proto_args)
        \<and> apiKey proto_args = Some ''secret'' \<and> apiKeyHeader proto_args = Some ''__proto__''
        \<and> trim ''secret'' = ''secret'' \<and> trim ''__proto__'' = ''__proto__''
        \<and> auth_headers proto_args = []
        \<and> requests (snd (fetchApiData (demo_rt net_always_ok) proto_args (start_world 1000))) =
            [\<lparr>target = Direct ''https://api.example.com/quote?symbol=IBM'', headers = []\<rparr>])"
proof (intro conjI impI)
  show "auth_headers a \<noteq> [] \<longleftrightarrow>
      (\<not> useProxy a \<and> \<not> urlHasAuth (req_url a)
       \<and> (\<exists>k h. apiKey a = Some k \<and> apiKeyHeader a = Some h \<and> trim k \<noteq> [] \<and> trim h \<noteq> []
                 \<and> h \<noteq> ''__proto__''))"
  proof
    assume "auth_headers a \<noteq> []"
    from auth_headers_only [OF this]
    show "\<not> useProxy a \<and> \<not> urlHasAuth (req_url a)
       \<and> (\<exists>k h. apiKey a = Some k \<and> apiKeyHeader a = Some h \<and> trim k \<noteq> [] \<and> trim h \<noteq> []
                 \<and> h \<noteq> ''__proto__'')"
      by blast
  next
    assume "\<not> useProxy a \<and> \<not> urlHasAuth (req_url a)
       \<and> (\<exists>k h. apiKey a = Some k \<and> apiKeyHeader a = Some h \<and> trim k \<noteq> [] \<and> trim h \<noteq> []
                 \<and> h \<noteq> ''__proto__'')"
    then obtain k h where "\<not> useProxy a" "apiKey a = Some k" "apiKeyHeader a = Some h"
      "trim k \<noteq> []" "trim h \<noteq> []" "\<not> urlHasAuth (req_url a)" "h \<noteq> ''__proto__''" by blast
    from auth_headers_attached [OF this] show "auth_headers a \<noteq> []" by simp
  qed
  show "auth_headers a = [(h, k)]"
    if "apiKey a = Some k \<and> apiKeyHeader a = Some h \<and> auth_headers a \<noteq> []"
    using that auth_headers_only [of a] by auto
  show "urlHasAuth u \<longleftrightarrow>
        (str_includes u ''token='' \<or> str_includes u ''apikey='' \<or> str_includes u ''api_key=''
         \<or> str_includes u ''key='')"
    by (simp add: urlHasAuth_def)
  show "\<exists>more. requests w' =
               requests w @ \<lparr>target = Direct (req_url a), headers = auth_headers a\<rparr> # more"
    if "before_request rt a w = Inr w1 \<and> \<not> useProxy a \<and> fetchApiData rt a w = (r, w')"
  proof -
    from that have b: "before_request rt a w = Inr w1" and d: "\<not> useProxy a"
      and f: "fetchApiData rt a w = (r, w')" by blast+
    from d have "build_request a = \<lparr>target = Direct (req_url a), headers = auth_headers a\<rparr>"
      by (simp add: build_request_def)
    with fetch_first_request [OF b f] show ?thesis by simp
  qed
  show "\<exists>new. requests w' = requests w @ new
              \<and> (\<forall>q \<in> set new.
                    (target q = Direct (req_url a) \<and> \<not> useProxy a \<and> headers q = auth_headers a)
                    \<or> (target q = ViaProxy (req_url a) (proxy_params a) \<and> headers q = []))"
    if "fetchApiData rt a w = (r, w')"
  proof -
    from fetch_requests_members [OF that] obtain new where
      n: "requests w' = requests w @ new" "set new \<subseteq> {build_request a, proxy_request a}" by blast
    from n(2) request_shape [of _ a]
    have "\<forall>q \<in> set new.
            (target q = Direct (req_url a) \<and> \<not> useProxy a \<and> headers q = auth_headers a)
            \<or> (target q = ViaProxy (req_url a) (proxy_params a) \<and> headers q = [])"
      by blast
    with n(1) show ?thesis by blast
  qed
  show "\<not> useProxy proto_args" "\<not> urlHasAuth (req_url proto_args)"
    "apiKey proto_args = Some ''secret''" "apiKeyHeader proto_args = Some ''__proto__''"
    by (simp_all add: proto_args_def quote_args_def urlHasAuth_def)
  show "trim ''secret'' = ''secret''" "trim ''__proto__'' = ''__proto__''"
    by (simp_all add: white_eval)
  show "auth_headers proto_args = []"
    by (simp add: auth_headers_def assigned_def proto_args_def quote_args_def)
  show "requests (snd (fetchApiData (demo_rt net_always_ok) proto_args (start_world 1000))) =
            [\<lparr>target = Direct ''https://api.example.com/quote?symbol=IBM'', headers = []\<rparr>]"
    by (rule proto_run)
qed

theorem C9_auth_header_witness:
  "\<not> useProxy keyed_quote_args \<and> \<not> urlHasAuth (req_url keyed_quote_args)
   \<and> apiKey keyed_quote_args = Some ''secret'' \<and> apiKeyHeader keyed_quote_args = Some ''X-Api-Key''
   \<and> trim ''secret'' \<noteq> [] \<and> trim ''X-Api-Key'' \<noteq> [] \<and> ''X-Api-Key'' \<noteq> ''__proto__''
   \<and> auth_headers keyed_quote_args = [(''X-Api-Key'', ''secret'')]
   \<and> before_request (demo_rt net_always_ok) keyed_quote_args (start_world 1000)
       = Inr (start_world 1000)
   \<and> (\<exists>more. requests (snd (fetchApiData (demo_rt net_always_ok) keyed_quote_args (start_world 1000)))
         = requests (start_world 1000)
           @ \<lparr>target = Direct (req_url keyed_quote_args), headers = [(''X-Api-Key'', ''secret'')]\<rparr> # more)
   \<and> apiKey blank_key_args = Some ''  '' \<and> trim ''  '' = []
   \<and> auth_headers blank_key_args = []
   \<and> apiKey nbsp_key_args = Some [CHR 0xC2, CHR 0xA0] \<and> trim [CHR 0xC2, CHR 0xA0] = []
   \<and> auth_headers nbsp_key_args = []
   \<and> apiKey padded_key_args = Some '' secret '' \<and> apiKeyHeader padded_key_args = Some ''X-Api-Key''
   \<and> trim '' secret '' = ''secret''
   \<and> auth_headers padded_key_args = [(''X-Api-Key'', '' secret '')]"
proof -
  have h1: "\<not> useProxy keyed_quote_args" "\<not> urlHasAuth (req_url keyed_quote_args)"
    "apiKey keyed_quote_args = Some ''secret''" "apiKeyHeader keyed_quote_args = Some ''X-Api-Key''"
    by (simp_all add: keyed_quote_args_def quote_args_def urlHasAuth_def)
  have h2: "trim ''secret'' \<noteq> []" "trim ''X-Api-Key'' \<noteq> []" "''X-Api-Key'' \<noteq> ''__proto__''"
    by (simp_all add: white_eval)
  note b = keyed_before
  obtain r w' where run: "fetchApiData (demo_rt net_always_ok) keyed_quote_args (start_world 1000) = (r, w')"
    by (cases "fetchApiData (demo_rt net_always_ok) keyed_quote_args (start_world 1000)")
  note t = C9_auth_header [of keyed_quote_args "''secret''" "''X-Api-Key''" "[]"
      "demo_rt net_always_ok" "start_world 1000" "start_world 1000" r w']
  from t h1 h2 have ne: "auth_headers keyed_quote_args \<noteq> []" by blast
  with t h1 have hd: "auth_headers keyed_quote_args = [(''X-Api-Key'', ''secret'')]" by blast
  from t b h1 run have "\<exists>more. requests w' = requests (start_world 1000)
      @ \<lparr>target = Direct (req_url keyed_quote_args), headers = auth_headers keyed_quote_args\<rparr> # more"
    by blast
  with hd run have sent: "\<exists>more. requests (snd (fetchApiData (demo_rt net_always_ok) keyed_quote_args (start_world 1000)))
         = requests (start_world 1000)
           @ \<lparr>target = Direct (req_url keyed_quote_args), headers = [(''X-Api-Key'', ''secret'')]\<rparr> # more"
    by simp
  have k1: "apiKey blank_key_args = Some ''  ''" "apiKey nbsp_key_args = Some [CHR 0xC2, CHR 0xA0]"
    "apiKey padded_key_args = Some '' secret ''" "apiKeyHeader padded_key_args = Some ''X-Api-Key''"
    "\<not> useProxy padded_key_args" "\<not> urlHasAuth (req_url padded_key_args)"
    by (simp_all add: blank_key_args_def nbsp_key_args_def padded_key_args_def quote_args_def
        urlHasAuth_def)
  have k2: "trim ''  '' = []" "trim [CHR 0xC2, CHR 0xA0] = []" "trim '' secret '' = ''secret''"
    by (simp_all add: white_eval)
  note tb = C9_auth_header [of blank_key_args]
  from tb k1(1) k2(1) have e1: "auth_headers blank_key_args = []" by auto
  note tn = C9_auth_header [of nbsp_key_args]
  from tn k1(2) k2(2) have e2: "auth_headers nbsp_key_args = []" by auto
  note tp = C9_auth_header [of padded_key_args "'' secret ''" "''X-Api-Key''"]
  from tp k1(3,4,5,6) k2(3) h2(2,3) have "auth_headers padded_key_args \<noteq> []" by auto
  with tp k1(3,4) have e3: "auth_headers padded_key_args = [(''X-Api-Key'', '' secret '')]" by blast
  from h1 h2 hd b sent k1(1,2,3,4) k2 e1 e2 e3 show ?thesis by blast
qed

lemma cache_key_retry [simp]: "cache_key rt (a\<lparr>retryCount := n\<rparr>) = cache_key rt a"
  by (simp add: cache_key_def)

lemma cache_on_retry [simp]: "cache_on (a\<lparr>retryCount := n\<rparr>) = cache_on a"
  by (simp add: cache_on_def)








lemma twice_run:
  "fetchApiData (demo_rt net_always_500) twice_args (start_world 1000) =
     (\<lparr>r_data = JNull, r_error = Some (HttpStatus 500), r_timestamp = 4060, fromCache = False,
       cacheAge = None\<rparr>,
      \<lparr>responseCache = Map.empty, rateLimitCache = Map.empty, clock = 4060,
       requests = [quote_request, quote_request, quote_request], slept = 3000\<rparr>)"
  by (simp add: fetchApiData.simps fetch_eval demo_eval twice_args_def quote_args_def
      net_always_500_def quote_request_def)


lemma attempt_429:
  assumes "before_request rt a w = Inr w1"
    and "settled (network rt (length (requests w1)) (build_request a)) = Inr resp"
    and "status resp = 429" "parseURL rt (req_url a) = Inr p"
  shows "rateLimitCache (world_of (attempt rt a w)) (origin p) =
     Some \<lparr>count = 1,
           resetTime =
             (case retryAfter resp of
                None \<Rightarrow> Some (clock w1 + int (took (network rt (length (requests w1)) (build_request a))) + 60000)
              | Some s \<Rightarrow>
                  if s \<noteq> []
                  then map_option
                         (\<lambda>n. clock w1 + int (took (network rt (length (requests w1)) (build_request a))) + n * 1000)
                         (parseInt s)
                  else Some (clock w1 + int (took (network rt (length (requests w1)) (build_request a))) + 60000))\<rparr>"
  using assms
  by (auto simp: attempt_def do_fetch_def Let_def ok_def handle_error_def recordRateLimit_def
      split: option.splits)

lemma fetch_429_no_budget:
  assumes "before_request rt a w = Inr w1"
    and "settled (network rt (length (requests w1)) (build_request a)) = Inr resp"
    and "status resp = 429" "parseURL rt (req_url a) = Inr p" "\<not> retryCount a < maxRetries a"
  shows "rateLimitCache (snd (fetchApiData rt a w)) (origin p) =
           rateLimitCache (world_of (attempt rt a w)) (origin p)
         \<and> (\<exists>secs. r_error (fst (fetchApiData rt a w)) = Some (ApiRateLimitWait secs))
         \<and> r_data (fst (fetchApiData rt a w)) = JNull"
  using assms
  by (auto simp: fetchApiData.simps [of rt a w] attempt_def do_fetch_def Let_def ok_def
      handle_error_def recordRateLimit_def catch_handler_def is_cors_error_def error_text_def
      failure_def
      split: option.splits)

lemma blocked_short_circuit:
  assumes "parseURL rt (req_url a) = Inr p" "rateLimitCache w (origin p) = Some l"
    and "resetTime l = Some t" "clock w < t"
    and "bypassCache a \<or> \<not> cache_on a
         \<or> fst (getCachedData (cache_key rt a) (clock w) (responseCache w)) = None"
  shows "fst (fetchApiData rt a w) =
           \<lparr>r_data = JNull, r_error = Some (RateLimitWait (ceil_seconds (t - clock w))),
            r_timestamp = clock w, fromCache = False, cacheAge = None\<rparr>
         \<and> requests (snd (fetchApiData rt a w)) = requests w
         \<and> rateLimitCache (snd (fetchApiData rt a w)) = rateLimitCache w
         \<and> clock (snd (fetchApiData rt a w)) = clock w"
  using assms
  by (auto simp: fetchApiData.simps [of rt a w] attempt_def before_request_def checkRateLimit_def
      Let_def failure_def)

lemma blocked_no_request:
  assumes "parseURL rt (req_url a) = Inr p" "rateLimitCache w (origin p) = Some l"
    and "resetTime l = Some t" "clock w < t"
  shows "requests (snd (fetchApiData rt a w)) = requests w
         \<and> rateLimitCache (snd (fetchApiData rt a w)) = rateLimitCache w
         \<and> clock (snd (fetchApiData rt a w)) = clock w"
  using assms
  by (auto simp: fetchApiData.simps [of rt a w] attempt_def before_request_def checkRateLimit_def
      Let_def failure_def split: option.splits)

lemma check_after_reset:
  assumes "parseURL rt u = Inr p" "rateLimitCache w (origin p) = Some l"
    and "resetTime l = Some t" "t \<le> clock w"
  shows "checkRateLimit rt u w = Inr (None, w\<lparr>rateLimitCache := (rateLimitCache w)(origin p := None)\<rparr>)"
  using assms by (simp add: checkRateLimit_def)

lemma before_request_after_reset:
  assumes "parseURL rt (req_url a) = Inr p" "rateLimitCache w (origin p) = Some l"
    and "resetTime l = Some t" "t \<le> clock w"
    and "bypassCache a \<or> \<not> cache_on a
         \<or> fst (getCachedData (cache_key rt a) (clock w) (responseCache w)) = None"
  shows "\<exists>w1. before_request rt a w = Inr w1 \<and> rateLimitCache w1 (origin p) = None"
  using assms
  by (auto simp: before_request_def checkRateLimit_def Let_def)

lemma parseInt_30: "parseInt ''30'' = Some 30"
  by (simp add: parseInt_def white_eval is_digit_def digits_val_def digit_val_def Let_def)

lemma parseInt_date: "parseInt ''Wed, 21 Oct 2015 07:28:00 GMT'' = None"
  by (simp add: parseInt_def white_eval is_digit_def Let_def)

lemma run_429:
  "fetchApiData (demo_rt net_429_then_ok) news_args (start_world 1000) =
     (\<lparr>r_data = JNull, r_error = Some (ApiRateLimitWait 30), r_timestamp = 1020, fromCache = False,
       cacheAge = None\<rparr>, blocked_world)"
  by (simp add: fetchApiData.simps fetch_eval demo_eval news_args_def net_429_then_ok_def
      news_request_def blocked_world_def parseInt_30)

text \<open>
  C3 (as amended). When the request of the \<^verbatim>\<open>try\<close> block is answered 429 at instant \<open>now\<close>,
  the block ends with the URL's origin recorded: reset time \<open>now + n\<close> seconds when
  \<^verbatim>\<open>Retry-After\<close> is present, non-empty and \<^verbatim>\<open>parseInt\<close> reads \<open>n\<close> from it, \<open>now + 60\<close> seconds
  when it is absent or empty; with no retry budget left that record is in the world the
  call returns, with the \<open>API rate limit exceeded\<close> failure. While the record of a URL's
  origin has its reset time ahead, a call for that URL issues no request and leaves the
  record alone, and unless it hits the cache it returns the \<open>Rate limit exceeded\<close> failure
  with the remaining whole seconds. At or after the reset time the check deletes the
  record and reports not limited, and a call that does not hit the cache issues its
  request.
\<close>

theorem C3_rate_limit:
  "(before_request rt a w = Inr w1
      \<and> settled (network rt (length (requests w1)) (build_request a)) = Inr resp
      \<and> status resp = 429 \<and> parseURL rt (req_url a) = Inr p
      \<longrightarrow> (retryAfter resp = Some s \<and> s \<noteq> [] \<and> parseInt s = Some n \<longrightarrow>
             rateLimitCache (world_of (attempt rt a w)) (origin p) =
               Some \<lparr>count = 1,
                     resetTime = Some (clock w1
                       + int (took (network rt (length (requests w1)) (build_request a)))
                       + n * 1000)\<rparr>)
          \<and> (retryAfter resp = None \<or> retryAfter resp = Some [] \<longrightarrow>
             rateLimitCache (world_of (attempt rt a w)) (origin p) =
               Some \<lparr>count = 1,
                     resetTime = Some (clock w1
                       + int (took (network rt (length (requests w1)) (build_request a)))
                       + 60000)\<rparr>)
          \<and> (\<not> retryCount a < maxRetries a \<longrightarrow>
             rateLimitCache (snd (fetchApiData rt a w)) (origin p) =
               rateLimitCache (world_of (attempt rt a w)) (origin p)
             \<and> (\<exists>secs. r_error (fst (fetchApiData rt a w)) = Some (ApiRateLimitWait secs))
             \<and> r_data (fst (fetchApiData rt a w)) = JNull))
   \<and> (parseURL rt (req_url a2) = Inr p2 \<and> rateLimitCache w2 (origin p2) = Some l2
        \<and> resetTime l2 = Some t2 \<and> clock w2 < t2
        \<longrightarrow> requests (snd (fetchApiData rt a2 w2)) = requests w2
            \<and> rateLimitCache (snd (fetchApiData rt a2 w2)) = rateLimitCache w2
            \<and> ((bypassCache a2 \<or> \<not> cache_on a2
                 \<or> fst (getCachedData (cache_key rt a2) (clock w2) (responseCache w2)) = None)
                \<longrightarrow> fst (fetchApiData rt a2 w2) =
                      \<lparr>r_data = JNull,
                       r_error = Some (RateLimitWait (ceil_seconds (t2 - clock w2))),
                       r_timestamp = clock w2, fromCache = False, cacheAge = None\<rparr>))
   \<and> (parseURL rt (req_url a3) = Inr p3 \<and> rateLimitCache w3 (origin p3) = Some l3
        \<and> resetTime l3 = Some t3 \<and> t3 \<le> clock w3
        \<longrightarrow> checkRateLimit rt (req_url a3) w3 =
              Inr (None, w3\<lparr>rateLimitCache := (rateLimitCache w3)(origin p3 := None)\<rparr>)
            \<and> ((bypassCache a3 \<or> \<not> cache_on a3
                 \<or> fst (getCachedData (cache_key rt a3) (clock w3) (responseCache w3)) = None)
                \<longrightarrow> (\<exists>more. requests (snd (fetchApiData rt a3 w3)) =
                              requests w3 @ build_request a3 # more)))"
proof (intro conjI impI)
  assume h: "before_request rt a w = Inr w1
      \<and> settled (network rt (length (requests w1)) (build_request a)) = Inr resp
      \<and> status resp = 429 \<and> parseURL rt (req_url a) = Inr p"
  then have b: "before_request rt a w = Inr w1"
    and r: "settled (network rt (length (requests w1)) (build_request a)) = Inr resp"
    and st: "status resp = 429" and u: "parseURL rt (req_url a) = Inr p"
    by simp_all
  note rec = attempt_429 [OF b r st u]
  show "rateLimitCache (world_of (attempt rt a w)) (origin p) =
               Some \<lparr>count = 1,
                     resetTime = Some (clock w1
                       + int (took (network rt (length (requests w1)) (build_request a)))
                       + n * 1000)\<rparr>"
    if "retryAfter resp = Some s \<and> s \<noteq> [] \<and> parseInt s = Some n"
    using that rec by simp
  show "rateLimitCache (world_of (attempt rt a w)) (origin p) =
               Some \<lparr>count = 1,
                     resetTime = Some (clock w1
                       + int (took (network rt (length (requests w1)) (build_request a)))
                       + 60000)\<rparr>"
    if "retryAfter resp = None \<or> retryAfter resp = Some []"
    using that rec by auto
  assume nb: "\<not> retryCount a < maxRetries a"
  from fetch_429_no_budget [OF b r st u nb]
  show "rateLimitCache (snd (fetchApiData rt a w)) (origin p) =
               rateLimitCache (world_of (attempt rt a w)) (origin p)"
    and "\<exists>secs. r_error (fst (fetchApiData rt a w)) = Some (ApiRateLimitWait secs)"
    and "r_data (fst (fetchApiData rt a w)) = JNull"
    by simp_all
next
  assume h: "parseURL rt (req_url a2) = Inr p2 \<and> rateLimitCache w2 (origin p2) = Some l2
        \<and> resetTime l2 = Some t2 \<and> clock w2 < t2"
  then have u: "parseURL rt (req_url a2) = Inr p2" and l: "rateLimitCache w2 (origin p2) = Some l2"
    and t: "resetTime l2 = Some t2" and c: "clock w2 < t2"
    by simp_all
  from blocked_no_request [OF u l t c]
  show "requests (snd (fetchApiData rt a2 w2)) = requests w2"
    and "rateLimitCache (snd (fetchApiData rt a2 w2)) = rateLimitCache w2"
    by simp_all
  assume miss: "bypassCache a2 \<or> \<not> cache_on a2
                 \<or> fst (getCachedData (cache_key rt a2) (clock w2) (responseCache w2)) = None"
  from blocked_short_circuit [OF u l t c miss]
  show "fst (fetchApiData rt a2 w2) =
                      \<lparr>r_data = JNull,
                       r_error = Some (RateLimitWait (ceil_seconds (t2 - clock w2))),
                       r_timestamp = clock w2, fromCache = False, cacheAge = None\<rparr>"
    by simp
next
  assume h: "parseURL rt (req_url a3) = Inr p3 \<and> rateLimitCache w3 (origin p3) = Some l3
        \<and> resetTime l3 = Some t3 \<and> t3 \<le> clock w3"
  then have u: "parseURL rt (req_url a3) = Inr p3" and l: "rateLimitCache w3 (origin p3) = Some l3"
    and t: "resetTime l3 = Some t3" and c: "t3 \<le> clock w3"
    by simp_all
  from check_after_reset [OF u l t c]
  show "checkRateLimit rt (req_url a3) w3 =
              Inr (None, w3\<lparr>rateLimitCache := (rateLimitCache w3)(origin p3 := None)\<rparr>)" .
  assume miss: "bypassCache a3 \<or> \<not> cache_on a3
                 \<or> fst (getCachedData (cache_key rt a3) (clock w3) (responseCache w3)) = None"
  from before_request_after_reset [OF u l t c miss] obtain v where
    b: "before_request rt a3 w3 = Inr v" by blast
  obtain r w' where run: "fetchApiData rt a3 w3 = (r, w')"
    by (cases "fetchApiData rt a3 w3")
  from fetch_first_request [OF b run] run
  show "\<exists>more. requests (snd (fetchApiData rt a3 w3)) = requests w3 @ build_request a3 # more"
    by simp
qed

theorem C3_rate_limit_witness:
  "before_request (demo_rt net_429_then_ok) news_args (start_world 1000) = Inr (start_world 1000)
   \<and> settled (network (demo_rt net_429_then_ok) (length (requests (start_world 1000)))
                (build_request news_args))
       = Inr ((json_response 429 (JObj []))\<lparr>retryAfter := Some ''30''\<rparr>)
   \<and> status ((json_response 429 (JObj []))\<lparr>retryAfter := Some ''30''\<rparr>) = 429
   \<and> parseInt ''30'' = Some 30
   \<and> \<not> retryCount news_args < maxRetries news_args
   \<and> rateLimitCache (snd (fetchApiData (demo_rt net_429_then_ok) news_args (start_world 1000)))
        ''https://api.example.com''
       = Some \<lparr>count = 1, resetTime = Some 31020\<rparr>
   \<and> rateLimitCache blocked_world ''https://api.example.com''
       = Some \<lparr>count = 1, resetTime = Some 31020\<rparr>
   \<and> clock blocked_world < 31020
   \<and> fst (getCachedData (cache_key (demo_rt net_429_then_ok) quote_args) (clock blocked_world)
            (responseCache blocked_world)) = None
   \<and> fst (fetchApiData (demo_rt net_429_then_ok) quote_args blocked_world)
       = \<lparr>r_data = JNull, r_error = Some (RateLimitWait 30), r_timestamp = 1020,
          fromCache = False, cacheAge = None\<rparr>
   \<and> requests (snd (fetchApiData (demo_rt net_429_then_ok) quote_args blocked_world))
       = [news_request]
   \<and> 31020 \<le> clock (blocked_world\<lparr>clock := 31020\<rparr>)
   \<and> (\<exists>more. requests (snd (fetchApiData (demo_rt net_429_then_ok) quote_args
                                (blocked_world\<lparr>clock := 31020\<rparr>)))
                = [news_request] @ quote_request # more)"
proof -
  let ?rt = "demo_rt net_429_then_ok"
  let ?resp = "(json_response 429 (JObj []))\<lparr>retryAfter := Some ''30''\<rparr>"
  let ?pn = "\<lparr>origin = ''https://api.example.com'', pathname = ''/news'', searchParams = []\<rparr>"
  let ?pq = "\<lparr>origin = ''https://api.example.com'', pathname = ''/quote'',
              searchParams = [(''symbol'', ''IBM'')]\<rparr>"
  let ?l = "\<lparr>count = 1, resetTime = Some 31020\<rparr>"
  let ?late = "blocked_world\<lparr>clock := 31020\<rparr>"
  have a1: "before_request ?rt news_args (start_world 1000) = Inr (start_world 1000)"
    by (simp add: fetch_eval demo_eval news_args_def)
  have a2: "settled (network ?rt (length (requests (start_world 1000))) (build_request news_args))
       = Inr ?resp"
    by (simp add: demo_eval net_429_then_ok_def)
  have a3: "status ?resp = 429" by (simp add: json_response_def)
  have a4: "parseURL ?rt (req_url news_args) = Inr ?pn"
    by (simp add: demo_eval news_args_def)
  have a5: "retryAfter ?resp = Some ''30'' \<and> ''30'' \<noteq> [] \<and> parseInt ''30'' = Some 30"
    by (simp add: parseInt_30)
  have a6: "\<not> retryCount news_args < maxRetries news_args"
    by (simp add: news_args_def)
  have b1: "parseURL ?rt (req_url quote_args) = Inr ?pq"
    by (simp add: demo_eval quote_args_def)
  have b2: "rateLimitCache blocked_world (origin ?pq) = Some ?l"
    "rateLimitCache ?late (origin ?pq) = Some ?l"
    by (simp_all add: blocked_world_def)
  have b3: "resetTime ?l = Some 31020" by simp
  have b4: "clock blocked_world < 31020" "31020 \<le> clock ?late"
    by (simp_all add: blocked_world_def)
  have b5: "fst (getCachedData (cache_key ?rt quote_args) (clock blocked_world)
            (responseCache blocked_world)) = None"
    "fst (getCachedData (cache_key ?rt quote_args) (clock ?late) (responseCache ?late)) = None"
    by (simp_all add: blocked_world_def getCachedData_def)
  note t = C3_rate_limit [of ?rt news_args "start_world 1000" "start_world 1000" ?resp ?pn
      "''30''" 30 quote_args ?pq blocked_world ?l 31020 quote_args ?pq ?late ?l 31020]
  from t a1 a2 a3 a4 a5 a6
  have c1: "rateLimitCache (snd (fetchApiData ?rt news_args (start_world 1000))) (origin ?pn)
      = Some \<lparr>count = 1, resetTime = Some (clock (start_world 1000)
            + int (took (network ?rt (length (requests (start_world 1000))) (build_request news_args)))
            + 30 * 1000)\<rparr>"
    by simp
  then have c1': "rateLimitCache (snd (fetchApiData ?rt news_args (start_world 1000)))
        ''https://api.example.com'' = Some \<lparr>count = 1, resetTime = Some 31020\<rparr>"
    by (simp add: demo_eval net_429_then_ok_def)
  from t b1 b2(1) b3 b4(1) b5(1)
  have c2: "requests (snd (fetchApiData ?rt quote_args blocked_world)) = requests blocked_world
      \<and> fst (fetchApiData ?rt quote_args blocked_world) =
          \<lparr>r_data = JNull, r_error = Some (RateLimitWait (ceil_seconds (31020 - clock blocked_world))),
           r_timestamp = clock blocked_world, fromCache = False, cacheAge = None\<rparr>"
    by simp
  then have c2': "fst (fetchApiData ?rt quote_args blocked_world)
       = \<lparr>r_data = JNull, r_error = Some (RateLimitWait 30), r_timestamp = 1020,
          fromCache = False, cacheAge = None\<rparr>
      \<and> requests (snd (fetchApiData ?rt quote_args blocked_world)) = [news_request]"
    by (simp add: blocked_world_def ceil_seconds_def)
  from t b1 b2(2) b3 b4(2) b5(2)
  have c3: "\<exists>more. requests (snd (fetchApiData ?rt quote_args ?late))
      = requests ?late @ build_request quote_args # more"
    by simp
  have e: "build_request quote_args = quote_request" "requests ?late = [news_request]"
    by (simp_all add: build_request_def auth_headers_def quote_args_def quote_request_def
        blocked_world_def)
  from c3 e have c3': "\<exists>more. requests (snd (fetchApiData ?rt quote_args ?late))
      = [news_request] @ quote_request # more"
    by simp
  from b2(1) have b2': "rateLimitCache blocked_world ''https://api.example.com'' = Some ?l"
    by simp
  from a1 a2 a3 a5 a6 c1' b2' b4 b5(1) c2' c3' show ?thesis by blast
qed

lemma run_cors_429:
  "fetchApiData (demo_rt net_cors_then_429) quote_args (start_world 1000) =
     (\<lparr>r_data = JNull, r_error = Some CorsError, r_timestamp = 1040, fromCache = False,
       cacheAge = None\<rparr>,
      \<lparr>responseCache = Map.empty, rateLimitCache = Map.empty, clock = 1040,
       requests = [quote_request, proxy_request quote_args], slept = 0\<rparr>)"
  by (simp add: fetchApiData.simps fetch_eval demo_eval quote_args_def net_cors_then_429_def
      quote_request_def proxy_request_def)

lemma run_date:
  "fetchApiData (demo_rt net_429_date) news_args (start_world 1000) =
     (\<lparr>r_data = JNull, r_error = Some (ApiRateLimitWait 60), r_timestamp = 1020, fromCache = False,
       cacheAge = None\<rparr>, date_world)"
  by (simp add: fetchApiData.simps fetch_eval demo_eval news_args_def net_429_date_def
      news_request_def date_world_def parseInt_date)

lemma run_date_again:
  "requests (snd (fetchApiData (demo_rt net_429_date) news_args date_world))
     = [news_request, news_request]"
  by (simp add: fetchApiData.simps fetch_eval demo_eval news_args_def net_429_date_def
      news_request_def date_world_def parseInt_date)

text \<open>
  C3 as stated fails on two kinds of 429 response. One answers the proxy request of the
  \<^verbatim>\<open>catch\<close> block: the call returns the CORS failure and records nothing. The other carries
  an HTTP date in \<^verbatim>\<open>Retry-After\<close>: the record's reset time is \<^verbatim>\<open>NaN\<close>, and the next call goes
  to the network.
\<close>

theorem C3_unrecorded_429_counterexample:
  "settled (net_cors_then_429 1 (proxy_request quote_args))
     = Inr (json_response 429 (JObj [(''error'', JStr ''Too Many Requests''), (''status'', JNum 429)]))
   \<and> status (json_response 429 (JObj [(''error'', JStr ''Too Many Requests''), (''status'', JNum 429)]))
       = 429
   \<and> requests (snd (fetchApiData (demo_rt net_cors_then_429) quote_args (start_world 1000)))
       = [quote_request, proxy_request quote_args]
   \<and> r_error (fst (fetchApiData (demo_rt net_cors_then_429) quote_args (start_world 1000)))
       = Some CorsError
   \<and> rateLimitCache (snd (fetchApiData (demo_rt net_cors_then_429) quote_args (start_world 1000)))
        ''https://api.example.com'' = None
   \<and> retryAfter ((json_response 429 (JObj []))\<lparr>retryAfter := Some ''Wed, 21 Oct 2015 07:28:00 GMT''\<rparr>)
       = Some ''Wed, 21 Oct 2015 07:28:00 GMT''
   \<and> snd (fetchApiData (demo_rt net_429_date) news_args (start_world 1000)) = date_world
   \<and> rateLimitCache date_world ''https://api.example.com'' = Some \<lparr>count = 1, resetTime = None\<rparr>
   \<and> requests (snd (fetchApiData (demo_rt net_429_date) news_args date_world))
       = [news_request, news_request]"
proof -
  have "rateLimitCache date_world ''https://api.example.com'' = Some \<lparr>count = 1, resetTime = None\<rparr>"
    by (simp add: date_world_def)
  then show ?thesis
    by (simp add: run_cors_429 run_date run_date_again net_cors_then_429_def json_response_def)
qed

lemma member_data: "pd \<noteq> JNull \<Longrightarrow> pd \<noteq> JUndefined \<Longrightarrow> member pd key = Inr (own_prop pd key)"
  by (cases pd) simp_all

lemma cors_direct:
  assumes "before_request rt a w = Inr w1"
    and "settled (network rt (length (requests w1)) (build_request a)) = Inl msg"
    and "str_includes msg ''fetch''" "\<not> useProxy a"
  shows "fetchApiData rt a w =
     proxy_fallback rt a
       (w1\<lparr>requests := requests w1 @ [build_request a],
           clock := clock w1 + int (took (network rt (length (requests w1)) (build_request a)))\<rparr>)"
  using assms
  by (simp add: fetchApiData.simps [of rt a w] attempt_def do_fetch_def Let_def catch_handler_def
      is_cors_error_def)

lemma cors_on_proxy:
  assumes "before_request rt a w = Inr w1"
    and "settled (network rt (length (requests w1)) (build_request a)) = Inl msg"
    and "useProxy a"
  shows "fst (fetchApiData rt a w) =
           \<lparr>r_data = JNull, r_error = Some (Text msg),
            r_timestamp = clock w1 + int (took (network rt (length (requests w1)) (build_request a))),
            fromCache = False, cacheAge = None\<rparr>
         \<and> requests (snd (fetchApiData rt a w)) = requests w @ [build_request a]"
  using assms before_request_Inr [OF assms(1)]
  by (simp add: fetchApiData.simps [of rt a w] attempt_def do_fetch_def Let_def catch_handler_def
      error_text_def failure_def)

lemma proxy_fallback_once:
  "requests (snd (proxy_fallback rt a w)) = requests w @ [proxy_request a]"
  using proxy_fallback_requests [of rt a w "fst (proxy_fallback rt a w)" "snd (proxy_fallback rt a w)"]
  by simp

lemma proxy_fallback_success:
  assumes "settled (network rt (length (requests w)) (proxy_request a)) = Inr presp"
    and "ok presp" "json_body presp = Some pd" "pd \<noteq> JNull" "pd \<noteq> JUndefined"
  shows "fst (proxy_fallback rt a w) =
           \<lparr>r_data = own_prop pd ''data'', r_error = None,
            r_timestamp = clock w + int (took (network rt (length (requests w)) (proxy_request a))),
            fromCache = False, cacheAge = None\<rparr>"
    and "cacheTTL a = Some ttl \<Longrightarrow> 0 < ttl \<Longrightarrow>
         responseCache (snd (proxy_fallback rt a w)) (cache_key rt a) =
           Some \<lparr>data = own_prop pd ''data'',
                 timestamp = clock w + int (took (network rt (length (requests w)) (proxy_request a))),
                 expiresAt = clock w + int (took (network rt (length (requests w)) (proxy_request a)))
                               + ttl * 1000,
                 url = req_url a\<rparr>"
  using assms
  by (simp_all add: proxy_fallback_def proxy_request_def do_fetch_def Let_def member_data
      success_def cache_store_def setCachedData_def)

lemma proxy_fallback_failure:
  assumes "settled (network rt (length (requests w)) (proxy_request a)) = Inl m2
     \<or> (\<exists>presp. settled (network rt (length (requests w)) (proxy_request a)) = Inr presp
           \<and> (\<not> ok presp \<or> json_body presp = None \<or> json_body presp = Some JNull))"
  shows "r_data (fst (proxy_fallback rt a w)) = JNull
     \<and> r_error (fst (proxy_fallback rt a w)) = Some CorsError"
  using assms
  by (auto simp: proxy_fallback_def proxy_request_def do_fetch_def Let_def failure_def
      split: option.splits)

lemma proxy_params_both:
  "apiKey a = Some k \<Longrightarrow> apiKeyHeader a = Some h \<Longrightarrow> k \<noteq> [] \<Longrightarrow> h \<noteq> [] \<Longrightarrow>
   proxy_params a = Some (k, h)"
  by (simp add: proxy_params_def)

lemma proxy_params_none:
  "apiKey a = None \<or> apiKey a = Some [] \<or> apiKeyHeader a = None \<or> apiKeyHeader a = Some [] \<Longrightarrow>
   proxy_params a = None"
  by (auto simp: proxy_params_def split: option.splits)

lemma replays_iff:
  assumes "\<not> useProxy a"
  shows "replays (proxy_request a) (build_request a) \<longleftrightarrow>
     \<not> (\<exists>k h. apiKey a = Some k \<and> apiKeyHeader a = Some h \<and> k \<noteq> [] \<and> trim h \<noteq> []
               \<and> h \<noteq> ''__proto__'' \<and> (urlHasAuth (req_url a) \<or> trim k = []))"
proof (cases "apiKey a")
  case None
  with assms show ?thesis
    by (simp add: replays_def credential_def route_credential_def proxy_request_def
        build_request_def auth_headers_def proxy_params_def)
next
  case k: (Some k)
  show ?thesis
  proof (cases "apiKeyHeader a")
    case None
    with assms k show ?thesis
      by (simp add: replays_def credential_def route_credential_def proxy_request_def
          build_request_def auth_headers_def proxy_params_def)
  next
    case h: (Some h)
    have "trim h \<noteq> [] \<Longrightarrow> h \<noteq> []" "trim k \<noteq> [] \<Longrightarrow> k \<noteq> []" by auto
    with assms k h show ?thesis
      by (auto simp: replays_def credential_def route_credential_def proxy_request_def
          build_request_def auth_headers_def proxy_params_def assigned_def)
  qed
qed

text \<open>
  C4 (as amended). Let the request of the \<^verbatim>\<open>try\<close> block be rejected with a \<^verbatim>\<open>TypeError\<close>
  whose message contains \<open>fetch\<close>, leaving the world \<open>w2\<close>. If the call is direct, it issues
  exactly one more request, to the proxy route, for the same URL, and nothing after it.
  That request hands the proxy the key and the header name whenever both are non-empty,
  and neither otherwise. So the proxy makes the credential of the direct request reach
  the API, except that it sends the key also where the direct request held it back:
  when the URL already contains an authentication parameter, or the key is blank.
  When the proxy's response is ok and its body parses to a value with a readable \<open>data\<close>
  member, the call returns that member with no error and, when \<open>cacheTTL > 0\<close>, stores it
  under the call's cache key. When the proxy request is rejected, or its response is not
  ok, or its body does not parse or is \<^verbatim>\<open>null\<close>, the call returns the CORS failure. If the
  call was already through the proxy, it returns the failure with the error's own message
  and issues no further request.
\<close>

theorem C4_cors_fallback:
  "before_request rt a w = Inr w1
   \<and> settled (network rt (length (requests w1)) (build_request a)) = Inl msg
   \<and> str_includes msg ''fetch''
   \<and> w2 = w1\<lparr>requests := requests w1 @ [build_request a],
              clock := clock w1 + int (took (network rt (length (requests w1)) (build_request a)))\<rparr>
   \<longrightarrow>
     (\<not> useProxy a \<longrightarrow>
        (apiKey a = Some k \<and> apiKeyHeader a = Some h \<and> k \<noteq> [] \<and> h \<noteq> [] \<longrightarrow>
           requests (snd (fetchApiData rt a w)) =
             requests w @ [\<lparr>target = Direct (req_url a), headers = auth_headers a\<rparr>,
                           \<lparr>target = ViaProxy (req_url a) (Some (k, h)), headers = []\<rparr>])
        \<and> (apiKey a = None \<or> apiKey a = Some [] \<or> apiKeyHeader a = None \<or> apiKeyHeader a = Some []
             \<longrightarrow>
           requests (snd (fetchApiData rt a w)) =
             requests w @ [\<lparr>target = Direct (req_url a), headers = auth_headers a\<rparr>,
                           \<lparr>target = ViaProxy (req_url a) None, headers = []\<rparr>])
        \<and> (replays (proxy_request a) (build_request a) \<longleftrightarrow>
             \<not> (\<exists>k' h'. apiKey a = Some k' \<and> apiKeyHeader a = Some h' \<and> k' \<noteq> [] \<and> trim h' \<noteq> []
                        \<and> h' \<noteq> ''__proto__'' \<and> (urlHasAuth (req_url a) \<or> trim k' = [])))
        \<and> (settled (network rt (length (requests w2)) (proxy_request a)) = Inr presp
            \<and> ok presp \<and> json_body presp = Some pd \<and> pd \<noteq> JNull \<and> pd \<noteq> JUndefined
            \<longrightarrow> fst (fetchApiData rt a w) =
                  \<lparr>r_data = own_prop pd ''data'', r_error = None,
                   r_timestamp = clock w2
                     + int (took (network rt (length (requests w2)) (proxy_request a))),
                   fromCache = False, cacheAge = None\<rparr>
                \<and> (cacheTTL a = Some ttl \<and> 0 < ttl \<longrightarrow>
                     responseCache (snd (fetchApiData rt a w)) (cache_key rt a) =
                       Some \<lparr>data = own_prop pd ''data'',
                             timestamp = clock w2
                               + int (took (network rt (length (requests w2)) (proxy_request a))),
                             expiresAt = clock w2
                               + int (took (network rt (length (requests w2)) (proxy_request a)))
                               + ttl * 1000,
                             url = req_url a\<rparr>))
        \<and> (settled (network rt (length (requests w2)) (proxy_request a)) = Inl m2
            \<or> (\<exists>bad. settled (network rt (length (requests w2)) (proxy_request a)) = Inr bad
                  \<and> (\<not> ok bad \<or> json_body bad = None \<or> json_body bad = Some JNull))
            \<longrightarrow> r_data (fst (fetchApiData rt a w)) = JNull
                \<and> r_error (fst (fetchApiData rt a w)) = Some CorsError))
     \<and> (useProxy a \<longrightarrow>
          fst (fetchApiData rt a w) =
            \<lparr>r_data = JNull, r_error = Some (Text msg), r_timestamp = clock w2,
             fromCache = False, cacheAge = None\<rparr>
          \<and> requests (snd (fetchApiData rt a w)) =
              requests w @ [\<lparr>target = ViaProxy (req_url a) (proxy_params a), headers = []\<rparr>])"
proof (intro impI)
  assume h: "before_request rt a w = Inr w1
   \<and> settled (network rt (length (requests w1)) (build_request a)) = Inl msg
   \<and> str_includes msg ''fetch''
   \<and> w2 = w1\<lparr>requests := requests w1 @ [build_request a],
              clock := clock w1 + int (took (network rt (length (requests w1)) (build_request a)))\<rparr>"
  then have b: "before_request rt a w = Inr w1"
    and rej: "settled (network rt (length (requests w1)) (build_request a)) = Inl msg"
    and cors: "str_includes msg ''fetch''"
    and w2: "w2 = w1\<lparr>requests := requests w1 @ [build_request a],
              clock := clock w1 + int (took (network rt (length (requests w1)) (build_request a)))\<rparr>"
    by simp_all
  from before_request_Inr [OF b] have same: "requests w1 = requests w" by simp
  have direct_part:
    "(apiKey a = Some k \<and> apiKeyHeader a = Some h \<and> k \<noteq> [] \<and> h \<noteq> [] \<longrightarrow>
           requests (snd (fetchApiData rt a w)) =
             requests w @ [\<lparr>target = Direct (req_url a), headers = auth_headers a\<rparr>,
                           \<lparr>target = ViaProxy (req_url a) (Some (k, h)), headers = []\<rparr>])
        \<and> (apiKey a = None \<or> apiKey a = Some [] \<or> apiKeyHeader a = None \<or> apiKeyHeader a = Some []
             \<longrightarrow>
           requests (snd (fetchApiData rt a w)) =
             requests w @ [\<lparr>target = Direct (req_url a), headers = auth_headers a\<rparr>,
                           \<lparr>target = ViaProxy (req_url a) None, headers = []\<rparr>])
        \<and> (replays (proxy_request a) (build_request a) \<longleftrightarrow>
             \<not> (\<exists>k' h'. apiKey a = Some k' \<and> apiKeyHeader a = Some h' \<and> k' \<noteq> [] \<and> trim h' \<noteq> []
                        \<and> h' \<noteq> ''__proto__'' \<and> (urlHasAuth (req_url a) \<or> trim k' = [])))
        \<and> (settled (network rt (length (requests w2)) (proxy_request a)) = Inr presp
            \<and> ok presp \<and> json_body presp = Some pd \<and> pd \<noteq> JNull \<and> pd \<noteq> JUndefined
            \<longrightarrow> fst (fetchApiData rt a w) =
                  \<lparr>r_data = own_prop pd ''data'', r_error = None,
                   r_timestamp = clock w2
                     + int (took (network rt (length (requests w2)) (proxy_request a))),
                   fromCache = False, cacheAge = None\<rparr>
                \<and> (cacheTTL a = Some ttl \<and> 0 < ttl \<longrightarrow>
                     responseCache (snd (fetchApiData rt a w)) (cache_key rt a) =
                       Some \<lparr>data = own_prop pd ''data'',
                             timestamp = clock w2
                               + int (took (network rt (length (requests w2)) (proxy_request a))),
                             expiresAt = clock w2
                               + int (took (network rt (length (requests w2)) (proxy_request a)))
                               + ttl * 1000,
                             url = req_url a\<rparr>))
        \<and> (settled (network rt (length (requests w2)) (proxy_request a)) = Inl m2
            \<or> (\<exists>bad. settled (network rt (length (requests w2)) (proxy_request a)) = Inr bad
                  \<and> (\<not> ok bad \<or> json_body bad = None \<or> json_body bad = Some JNull))
            \<longrightarrow> r_data (fst (fetchApiData rt a w)) = JNull
                \<and> r_error (fst (fetchApiData rt a w)) = Some CorsError)"
    if direct: "\<not> useProxy a"
  proof (intro conjI impI)
    from cors_direct [OF b rej cors direct] w2
    have run: "fetchApiData rt a w = proxy_fallback rt a w2" by simp
    from direct have br: "build_request a = \<lparr>target = Direct (req_url a), headers = auth_headers a\<rparr>"
      by (simp add: build_request_def)
    from run proxy_fallback_once [of rt a w2] w2 same br
    have issued: "requests (snd (fetchApiData rt a w)) =
          requests w @ [\<lparr>target = Direct (req_url a), headers = auth_headers a\<rparr>, proxy_request a]"
      by simp
    {
      assume "apiKey a = Some k \<and> apiKeyHeader a = Some h \<and> k \<noteq> [] \<and> h \<noteq> []"
      then have "proxy_params a = Some (k, h)" by (simp add: proxy_params_both)
      with issued show "requests (snd (fetchApiData rt a w)) =
             requests w @ [\<lparr>target = Direct (req_url a), headers = auth_headers a\<rparr>,
                           \<lparr>target = ViaProxy (req_url a) (Some (k, h)), headers = []\<rparr>]"
        by (simp add: proxy_request_def)
    }
    {
      assume "apiKey a = None \<or> apiKey a = Some [] \<or> apiKeyHeader a = None \<or> apiKeyHeader a = Some []"
      then have "proxy_params a = None" by (rule proxy_params_none)
      with issued show "requests (snd (fetchApiData rt a w)) =
             requests w @ [\<lparr>target = Direct (req_url a), headers = auth_headers a\<rparr>,
                           \<lparr>target = ViaProxy (req_url a) None, headers = []\<rparr>]"
        by (simp add: proxy_request_def)
    }
    show "replays (proxy_request a) (build_request a) \<longleftrightarrow>
             \<not> (\<exists>k' h'. apiKey a = Some k' \<and> apiKeyHeader a = Some h' \<and> k' \<noteq> [] \<and> trim h' \<noteq> []
                        \<and> h' \<noteq> ''__proto__'' \<and> (urlHasAuth (req_url a) \<or> trim k' = []))"
      using direct by (rule replays_iff)
    {
      assume good: "settled (network rt (length (requests w2)) (proxy_request a)) = Inr presp
            \<and> ok presp \<and> json_body presp = Some pd \<and> pd \<noteq> JNull \<and> pd \<noteq> JUndefined"
      then have g1: "settled (network rt (length (requests w2)) (proxy_request a)) = Inr presp"
        and g2: "ok presp" and g3: "json_body presp = Some pd" and g4: "pd \<noteq> JNull"
        and g5: "pd \<noteq> JUndefined" by simp_all
      from proxy_fallback_success(1) [OF g1 g2 g3 g4 g5] run
      show "fst (fetchApiData rt a w) =
                  \<lparr>r_data = own_prop pd ''data'', r_error = None,
                   r_timestamp = clock w2
                     + int (took (network rt (length (requests w2)) (proxy_request a))),
                   fromCache = False, cacheAge = None\<rparr>"
        by simp
      assume "cacheTTL a = Some ttl \<and> 0 < ttl"
      then have t1: "cacheTTL a = Some ttl" and t2: "0 < ttl" by simp_all
      from proxy_fallback_success(2) [OF g1 g2 g3 g4 g5 t1 t2] run
      show "responseCache (snd (fetchApiData rt a w)) (cache_key rt a) =
                       Some \<lparr>data = own_prop pd ''data'',
                             timestamp = clock w2
                               + int (took (network rt (length (requests w2)) (proxy_request a))),
                             expiresAt = clock w2
                               + int (took (network rt (length (requests w2)) (proxy_request a)))
                               + ttl * 1000,
                             url = req_url a\<rparr>"
        by simp
    }
    {
      assume bad: "settled (network rt (length (requests w2)) (proxy_request a)) = Inl m2
            \<or> (\<exists>bad. settled (network rt (length (requests w2)) (proxy_request a)) = Inr bad
                  \<and> (\<not> ok bad \<or> json_body bad = None \<or> json_body bad = Some JNull))"
      from proxy_fallback_failure [OF bad] run
      show "r_data (fst (fetchApiData rt a w)) = JNull"
        and "r_error (fst (fetchApiData rt a w)) = Some CorsError"
        by simp_all
    }
  qed
  have proxy_part:
    "fst (fetchApiData rt a w) =
            \<lparr>r_data = JNull, r_error = Some (Text msg), r_timestamp = clock w2,
             fromCache = False, cacheAge = None\<rparr>
          \<and> requests (snd (fetchApiData rt a w)) =
              requests w @ [\<lparr>target = ViaProxy (req_url a) (proxy_params a), headers = []\<rparr>]"
    if proxied: "useProxy a"
  proof -
    from proxied have br: "build_request a = \<lparr>target = ViaProxy (req_url a) (proxy_params a), headers = []\<rparr>"
      by (simp add: build_request_def)
    from cors_on_proxy [OF b rej proxied] w2 br
    show ?thesis by simp
  qed
  from direct_part proxy_part
  show "(\<not> useProxy a \<longrightarrow>
        (apiKey a = Some k \<and> apiKeyHeader a = Some h \<and> k \<noteq> [] \<and> h \<noteq> [] \<longrightarrow>
           requests (snd (fetchApiData rt a w)) =
             requests w @ [\<lparr>target = Direct (req_url a), headers = auth_headers a\<rparr>,
                           \<lparr>target = ViaProxy (req_url a) (Some (k, h)), headers = []\<rparr>])
        \<and> (apiKey a = None \<or> apiKey a = Some [] \<or> apiKeyHeader a = None \<or> apiKeyHeader a = Some []
             \<longrightarrow>
           requests (snd (fetchApiData rt a w)) =
             requests w @ [\<lparr>target = Direct (req_url a), headers = auth_headers a\<rparr>,
                           \<lparr>target = ViaProxy (req_url a) None, headers = []\<rparr>])
        \<and> (replays (proxy_request a) (build_request a) \<longleftrightarrow>
             \<not> (\<exists>k' h'. apiKey a = Some k' \<and> apiKeyHeader a = Some h' \<and> k' \<noteq> [] \<and> trim h' \<noteq> []
                        \<and> h' \<noteq> ''__proto__'' \<and> (urlHasAuth (req_url a) \<or> trim k' = [])))
        \<and> (settled (network rt (length (requests w2)) (proxy_request a)) = Inr presp
            \<and> ok presp \<and> json_body presp = Some pd \<and> pd \<noteq> JNull \<and> pd \<noteq> JUndefined
            \<longrightarrow> fst (fetchApiData rt a w) =
                  \<lparr>r_data = own_prop pd ''data'', r_error = None,
                   r_timestamp = clock w2
                     + int (took (network rt (length (requests w2)) (proxy_request a))),
                   fromCache = False, cacheAge = None\<rparr>
                \<and> (cacheTTL a = Some ttl \<and> 0 < ttl \<longrightarrow>
                     responseCache (snd (fetchApiData rt a w)) (cache_key rt a) =
                       Some \<lparr>data = own_prop pd ''data'',
                             timestamp = clock w2
                               + int (took (network rt (length (requests w2)) (proxy_request a))),
                             expiresAt = clock w2
                               + int (took (network rt (length (requests w2)) (proxy_request a)))
                               + ttl * 1000,
                             url = req_url a\<rparr>))
        \<and> (settled (network rt (length (requests w2)) (proxy_request a)) = Inl m2
            \<or> (\<exists>bad. settled (network rt (length (requests w2)) (proxy_request a)) = Inr bad
                  \<and> (\<not> ok bad \<or> json_body bad = None \<or> json_body bad = Some JNull))
            \<longrightarrow> r_data (fst (fetchApiData rt a w)) = JNull
                \<and> r_error (fst (fetchApiData rt a w)) = Some CorsError))
     \<and> (useProxy a \<longrightarrow>
          fst (fetchApiData rt a w) =
            \<lparr>r_data = JNull, r_error = Some (Text msg), r_timestamp = clock w2,
             fromCache = False, cacheAge = None\<rparr>
          \<and> requests (snd (fetchApiData rt a w)) =
              requests w @ [\<lparr>target = ViaProxy (req_url a) (proxy_params a), headers = []\<rparr>])"
    by blast
qed

theorem C4_cors_fallback_witness:
  "before_request (demo_rt net_cors_then_ok) keyed_quote_args (start_world 1000)
     = Inr (start_world 1000)
   \<and> settled (network (demo_rt net_cors_then_ok) (length (requests (start_world 1000)))
                (build_request keyed_quote_args)) = Inl ''Failed to fetch''
   \<and> str_includes ''Failed to fetch'' ''fetch''
   \<and> \<not> useProxy keyed_quote_args
   \<and> apiKey keyed_quote_args = Some ''secret'' \<and> apiKeyHeader keyed_quote_args = Some ''X-Api-Key''
   \<and> requests (snd (fetchApiData (demo_rt net_cors_then_ok) keyed_quote_args (start_world 1000)))
       = [\<lparr>target = Direct ''https://api.example.com/quote?symbol=IBM'',
            headers = [(''X-Api-Key'', ''secret'')]\<rparr>,
          \<lparr>target = ViaProxy ''https://api.example.com/quote?symbol=IBM''
                      (Some (''secret'', ''X-Api-Key'')),
            headers = []\<rparr>]
   \<and> replays (proxy_request keyed_quote_args) (build_request keyed_quote_args)
   \<and> ok (json_response 200 (JObj [(''data'', JObj [(''price'', JNum 100)])]))
   \<and> cacheTTL keyed_quote_args = Some 30
   \<and> fst (fetchApiData (demo_rt net_cors_then_ok) keyed_quote_args (start_world 1000))
       = \<lparr>r_data = JObj [(''price'', JNum 100)], r_error = None, r_timestamp = 1040,
          fromCache = False, cacheAge = None\<rparr>
   \<and> responseCache (snd (fetchApiData (demo_rt net_cors_then_ok) keyed_quote_args (start_world 1000)))
        (cache_key (demo_rt net_cors_then_ok) keyed_quote_args)
       = Some \<lparr>data = JObj [(''price'', JNum 100)], timestamp = 1040, expiresAt = 31040,
               url = ''https://api.example.com/quote?symbol=IBM''\<rparr>
   \<and> apiKey quote_args = None
   \<and> requests (snd (fetchApiData (demo_rt net_cors_then_ok) quote_args (start_world 1000)))
       = [\<lparr>target = Direct ''https://api.example.com/quote?symbol=IBM'', headers = []\<rparr>,
          \<lparr>target = ViaProxy ''https://api.example.com/quote?symbol=IBM'' None, headers = []\<rparr>]
   \<and> useProxy (quote_args\<lparr>useProxy := True\<rparr>)
   \<and> fst (fetchApiData (demo_rt net_cors_then_ok) (quote_args\<lparr>useProxy := True\<rparr>) (start_world 1000))
       = \<lparr>r_data = JNull, r_error = Some (Text ''Failed to fetch''), r_timestamp = 1020,
          fromCache = False, cacheAge = None\<rparr>
   \<and> requests (snd (fetchApiData (demo_rt net_cors_then_ok) (quote_args\<lparr>useProxy := True\<rparr>)
                       (start_world 1000)))
       = [\<lparr>target = ViaProxy ''https://api.example.com/quote?symbol=IBM'' None, headers = []\<rparr>]"
proof -
  let ?rt = "demo_rt net_cors_then_ok"
  let ?w = "start_world 1000"
  let ?ka = "keyed_quote_args"
  let ?w2 = "?w\<lparr>requests := requests ?w @ [build_request ?ka],
      clock := clock ?w + int (took (network ?rt (length (requests ?w)) (build_request ?ka)))\<rparr>"
  let ?u2 = "?w\<lparr>requests := requests ?w @ [build_request quote_args],
      clock := clock ?w + int (took (network ?rt (length (requests ?w)) (build_request quote_args)))\<rparr>"
  let ?pa = "quote_args\<lparr>useProxy := True\<rparr>"
  let ?v2 = "?w\<lparr>requests := requests ?w @ [build_request ?pa],
      clock := clock ?w + int (took (network ?rt (length (requests ?w)) (build_request ?pa)))\<rparr>"
  let ?presp = "json_response 200 (JObj [(''data'', JObj [(''price'', JNum 100)])])"
  let ?pd = "JObj [(''data'', JObj [(''price'', JNum 100)])]"
  have a1: "before_request ?rt ?ka ?w = Inr ?w" "before_request ?rt ?pa ?w = Inr ?w"
    "before_request ?rt quote_args ?w = Inr ?w"
    by (simp_all add: fetch_eval demo_eval keyed_quote_args_def quote_args_def)
  have a2: "settled (network ?rt (length (requests ?w)) (build_request ?ka)) = Inl ''Failed to fetch''"
    "settled (network ?rt (length (requests ?w)) (build_request ?pa)) = Inl ''Failed to fetch''"
    "settled (network ?rt (length (requests ?w)) (build_request quote_args)) = Inl ''Failed to fetch''"
    by (simp_all add: demo_eval net_cors_then_ok_def)
  have a3: "str_includes ''Failed to fetch'' ''fetch''" by simp
  have a4: "\<not> useProxy ?ka" "useProxy ?pa" "cacheTTL ?ka = Some 30" "\<not> useProxy quote_args"
    by (simp_all add: keyed_quote_args_def quote_args_def)
  have a5: "settled (network ?rt (length (requests ?w2)) (proxy_request ?ka)) = Inr ?presp"
    by (simp add: demo_eval net_cors_then_ok_def)
  have a6: "ok ?presp" "json_body ?presp = Some ?pd" "?pd \<noteq> JNull" "?pd \<noteq> JUndefined"
    by (simp_all add: ok_def json_response_def)
  have a7: "apiKey ?ka = Some ''secret''" "apiKeyHeader ?ka = Some ''X-Api-Key''"
    "''secret'' \<noteq> []" "''X-Api-Key'' \<noteq> []" "apiKey quote_args = None"
    by (simp_all add: keyed_quote_args_def quote_args_def)
  have a8: "\<not> urlHasAuth (req_url ?ka)" "trim ''secret'' \<noteq> []"
    by (simp_all add: keyed_quote_args_def quote_args_def urlHasAuth_def white_eval)
  have hd: "auth_headers ?ka = [(''X-Api-Key'', ''secret'')]" "auth_headers quote_args = []"
    by (simp_all add: auth_headers_def assigned_def keyed_quote_args_def quote_args_def
        urlHasAuth_def white_eval)
  note t1 = C4_cors_fallback [of ?rt ?ka ?w ?w "''Failed to fetch''" ?w2 "''secret''" "''X-Api-Key''"
      ?presp ?pd 30]
  note t2 = C4_cors_fallback [of ?rt ?pa ?w ?w "''Failed to fetch''" ?v2]
  note t3 = C4_cors_fallback [of ?rt quote_args ?w ?w "''Failed to fetch''" ?u2]
  from t1 a1(1) a2(1) a3 a4(1) a7(1,2,3,4)
  have c1: "requests (snd (fetchApiData ?rt ?ka ?w)) =
      requests ?w @ [\<lparr>target = Direct (req_url ?ka), headers = auth_headers ?ka\<rparr>,
                    \<lparr>target = ViaProxy (req_url ?ka) (Some (''secret'', ''X-Api-Key'')), headers = []\<rparr>]"
    by blast
  then have c1': "requests (snd (fetchApiData ?rt ?ka ?w))
       = [\<lparr>target = Direct ''https://api.example.com/quote?symbol=IBM'',
            headers = [(''X-Api-Key'', ''secret'')]\<rparr>,
          \<lparr>target = ViaProxy ''https://api.example.com/quote?symbol=IBM''
                      (Some (''secret'', ''X-Api-Key'')),
            headers = []\<rparr>]"
    unfolding hd(1) by (simp add: keyed_quote_args_def quote_args_def start_world_def)
  from a7(1,2) a8 have "\<not> (\<exists>k' h'. apiKey ?ka = Some k' \<and> apiKeyHeader ?ka = Some h' \<and> k' \<noteq> []
      \<and> trim h' \<noteq> [] \<and> h' \<noteq> ''__proto__'' \<and> (urlHasAuth (req_url ?ka) \<or> trim k' = []))"
    by auto
  with t1 a1(1) a2(1) a3 a4(1)
  have c5: "replays (proxy_request ?ka) (build_request ?ka)" by blast
  from t1 a1(1) a2(1) a3 a4(1) a5 a6
  have c2: "fst (fetchApiData ?rt ?ka ?w) =
      \<lparr>r_data = own_prop ?pd ''data'', r_error = None,
       r_timestamp = clock ?w2 + int (took (network ?rt (length (requests ?w2)) (proxy_request ?ka))),
       fromCache = False, cacheAge = None\<rparr>"
    by blast
  then have c2': "fst (fetchApiData ?rt ?ka ?w)
       = \<lparr>r_data = JObj [(''price'', JNum 100)], r_error = None, r_timestamp = 1040,
          fromCache = False, cacheAge = None\<rparr>"
    by (simp add: demo_eval net_cors_then_ok_def)
  have pos: "(0::int) < 30" by simp
  from t1 a1(1) a2(1) a3 a4(1) a4(3) a5 a6 pos
  have c3: "responseCache (snd (fetchApiData ?rt ?ka ?w)) (cache_key ?rt ?ka) =
      Some \<lparr>data = own_prop ?pd ''data'',
            timestamp = clock ?w2 + int (took (network ?rt (length (requests ?w2)) (proxy_request ?ka))),
            expiresAt = clock ?w2 + int (took (network ?rt (length (requests ?w2)) (proxy_request ?ka)))
                        + 30 * 1000,
            url = req_url ?ka\<rparr>"
    by blast
  then have c3': "responseCache (snd (fetchApiData ?rt ?ka ?w)) (cache_key ?rt ?ka)
       = Some \<lparr>data = JObj [(''price'', JNum 100)], timestamp = 1040, expiresAt = 31040,
               url = ''https://api.example.com/quote?symbol=IBM''\<rparr>"
    by (simp add: demo_eval net_cors_then_ok_def keyed_quote_args_def quote_args_def)
  from t3 a1(3) a2(3) a3 a4(4) a7(5)
  have c6: "requests (snd (fetchApiData ?rt quote_args ?w)) =
      requests ?w @ [\<lparr>target = Direct (req_url quote_args), headers = auth_headers quote_args\<rparr>,
                    \<lparr>target = ViaProxy (req_url quote_args) None, headers = []\<rparr>]"
    by blast
  then have c6': "requests (snd (fetchApiData ?rt quote_args ?w))
       = [\<lparr>target = Direct ''https://api.example.com/quote?symbol=IBM'', headers = []\<rparr>,
          \<lparr>target = ViaProxy ''https://api.example.com/quote?symbol=IBM'' None, headers = []\<rparr>]"
    unfolding hd(2) by (simp add: quote_args_def start_world_def)
  from t2 a1(2) a2(2) a3 a4(2)
  have c4: "fst (fetchApiData ?rt ?pa ?w) =
        \<lparr>r_data = JNull, r_error = Some (Text ''Failed to fetch''), r_timestamp = clock ?v2,
         fromCache = False, cacheAge = None\<rparr>
      \<and> requests (snd (fetchApiData ?rt ?pa ?w)) =
          requests ?w @ [\<lparr>target = ViaProxy (req_url ?pa) (proxy_params ?pa), headers = []\<rparr>]"
    by blast
  then have c4': "fst (fetchApiData ?rt ?pa ?w)
       = \<lparr>r_data = JNull, r_error = Some (Text ''Failed to fetch''), r_timestamp = 1020,
          fromCache = False, cacheAge = None\<rparr>
      \<and> requests (snd (fetchApiData ?rt ?pa ?w))
          = [\<lparr>target = ViaProxy ''https://api.example.com/quote?symbol=IBM'' None, headers = []\<rparr>]"
    by (simp add: demo_eval net_cors_then_ok_def proxy_params_def quote_args_def)
  from a1(1) a2(1) a3 a4 a6(1) a7(1,2,5) c1' c5 c2' c3' c6' c4' show ?thesis by blast
qed

lemma token_run:
  "fetchApiData (demo_rt net_cors_then_ok) token_args (start_world 1000) =
     (\<lparr>r_data = JObj [(''price'', JNum 100)], r_error = None, r_timestamp = 1040,
       fromCache = False, cacheAge = None\<rparr>,
      \<lparr>responseCache =
         [''https://api.example.com/quote?symbol=IBM&token=abc&_key=secret&_header=X-Api-Key'' \<mapsto>
            \<lparr>data = JObj [(''price'', JNum 100)], timestamp = 1040, expiresAt = 31040,
             url = ''https://api.example.com/quote?symbol=IBM&token=abc''\<rparr>],
       rateLimitCache = Map.empty, clock = 1040,
       requests =
         [\<lparr>target = Direct ''https://api.example.com/quote?symbol=IBM&token=abc'', headers = []\<rparr>,
          \<lparr>target = ViaProxy ''https://api.example.com/quote?symbol=IBM&token=abc''
                      (Some (''secret'', ''X-Api-Key'')),
            headers = []\<rparr>],
       slept = 0\<rparr>)"
  by (simp add: fetchApiData.simps fetch_eval demo_eval token_args_def quote_args_def
      net_cors_then_ok_def white_eval compare_strings.simps)

text \<open>
  C4 as stated fails where the direct request held the key back. For a URL that carries
  a token, called with a key and a header name, the direct request has no custom header;
  after the CORS failure the proxy is handed the key and the header name, and sets the
  header on its own request to the API: the request replayed is not the one that failed.
\<close>

theorem C4_replay_adds_credential_counterexample:
  "\<not> useProxy token_args
   \<and> urlHasAuth (req_url token_args)
   \<and> settled (network (demo_rt net_cors_then_ok) 0 (build_request token_args)) = Inl ''Failed to fetch''
   \<and> requests (snd (fetchApiData (demo_rt net_cors_then_ok) token_args (start_world 1000)))
       = [\<lparr>target = Direct ''https://api.example.com/quote?symbol=IBM&token=abc'', headers = []\<rparr>,
          \<lparr>target = ViaProxy ''https://api.example.com/quote?symbol=IBM&token=abc''
                      (Some (''secret'', ''X-Api-Key'')),
            headers = []\<rparr>]
   \<and> credential \<lparr>target = Direct ''https://api.example.com/quote?symbol=IBM&token=abc'',
                  headers = []\<rparr> = []
   \<and> credential \<lparr>target = ViaProxy ''https://api.example.com/quote?symbol=IBM&token=abc''
                            (Some (''secret'', ''X-Api-Key'')),
                  headers = []\<rparr> = [(''X-Api-Key'', ''secret'')]
   \<and> \<not> replays \<lparr>target = ViaProxy ''https://api.example.com/quote?symbol=IBM&token=abc''
                            (Some (''secret'', ''X-Api-Key'')),
                  headers = []\<rparr>
                \<lparr>target = Direct ''https://api.example.com/quote?symbol=IBM&token=abc'',
                  headers = []\<rparr>"
proof -
  have "\<not> useProxy token_args" "urlHasAuth (req_url token_args)"
    by (simp_all add: token_args_def quote_args_def urlHasAuth_def)
  moreover have "settled (network (demo_rt net_cors_then_ok) 0 (build_request token_args))
      = Inl ''Failed to fetch''"
    by (simp add: demo_eval net_cors_then_ok_def)
  moreover have "credential \<lparr>target = ViaProxy ''https://api.example.com/quote?symbol=IBM&token=abc''
                            (Some (''secret'', ''X-Api-Key'')),
                  headers = []\<rparr> = [(''X-Api-Key'', ''secret'')]"
    by (simp add: credential_def route_credential_def assigned_def white_eval)
  moreover have "credential \<lparr>target = Direct ''https://api.example.com/quote?symbol=IBM&token=abc'',
                  headers = []\<rparr> = []"
    by (simp add: credential_def)
  ultimately show ?thesis
    by (simp add: token_run replays_def)
qed

lemma attempt_return_error:
  "attempt rt a w = Return r w' \<Longrightarrow> r_error r = None \<or> (\<exists>n. r_error r = Some (RateLimitWait n))"
  by (auto simp: attempt_def before_request_def handle_ok_def handle_error_def Let_def
      success_def failure_def do_fetch_def
      split: sum.splits option.splits prod.splits if_splits)

lemma proxy_fallback_error:
  "proxy_fallback rt a w = (r, w') \<Longrightarrow> r_error r = None \<or> r_error r = Some CorsError"
  by (auto simp: proxy_fallback_def Let_def success_def failure_def do_fetch_def
      split: sum.splits option.splits prod.splits if_splits)

lemma catch_handler_result:
  "catch_handler rt a e w = (r, w') \<Longrightarrow>
   r_error r = None \<or> r_error r = Some CorsError
   \<or> (cache_on a \<longrightarrow> responseCache w' (cache_key rt a) = None)"
  by (auto simp: catch_handler_def invalidate_on_error_def invalidateCache_def failure_def
      dest: proxy_fallback_error split: if_splits)

lemma failure_invalidates:
  "fetchApiData rt a w = (r, w') \<Longrightarrow> cache_on a \<Longrightarrow> r_error r = Some m \<Longrightarrow>
   m \<noteq> CorsError \<Longrightarrow> \<forall>n. m \<noteq> RateLimitWait n \<Longrightarrow>
   responseCache w' (cache_key rt a) = None"
proof (induction rt a w arbitrary: r w' rule: fetchApiData.induct)
  case (1 rt a w)
  note run = \<open>fetchApiData rt a w = (r, w')\<close>
  show ?case
  proof (cases "attempt rt a w")
    case (Return r1 w1)
    with run have "r = r1" by (simp add: fetchApiData.simps [of rt a w])
    with attempt_return_error [OF Return] "1.prems"(3,4,5) show ?thesis by auto
  next
    case (Retry w1)
    with run have rec: "fetchApiData rt (a\<lparr>retryCount := retryCount a + 1\<rparr>) w1 = (r, w')"
      by (simp add: fetchApiData.simps [of rt a w])
    from "1.prems"(2) have on: "cache_on (a\<lparr>retryCount := retryCount a + 1\<rparr>)" by simp
    from "1.IH" [OF Retry rec on "1.prems"(3,4,5)] show ?thesis by simp
  next
    case (Throw e w1)
    with run have c: "catch_handler rt a e w1 = (r, w')"
      by (simp add: fetchApiData.simps [of rt a w])
    from catch_handler_result [OF c] "1.prems"(2,3,4) show ?thesis by auto
  qed
qed

lemma blocked_bypass_keeps_cache:
  assumes "parseURL rt (req_url a) = Inr p" "rateLimitCache w (origin p) = Some l"
    and "resetTime l = Some t" "clock w < t" "bypassCache a"
  shows "fetchApiData rt a w =
           (\<lparr>r_data = JNull, r_error = Some (RateLimitWait (ceil_seconds (t - clock w))),
             r_timestamp = clock w, fromCache = False, cacheAge = None\<rparr>, w)"
  using assms
  by (simp add: fetchApiData.simps [of rt a w] attempt_def before_request_def checkRateLimit_def
      Let_def failure_def)

lemma refresh_fails:
  "fetchApiData (demo_rt net_always_500) refresh_args stored_world =
     (\<lparr>r_data = JNull, r_error = Some (HttpStatus 500), r_timestamp = 1040, fromCache = False,
       cacheAge = None\<rparr>,
      \<lparr>responseCache = Map.empty, rateLimitCache = Map.empty, clock = 1040,
       requests = [quote_request, quote_request], slept = 0\<rparr>)"
  by (simp add: fetchApiData.simps fetch_eval demo_eval refresh_args_def quote_args_def
      net_always_500_def quote_request_def stored_world_def)

lemma stored_run:
  "fetchApiData (demo_rt net_ok_then_429) quote_args (start_world 1000) =
     (\<lparr>r_data = JObj [(''price'', JNum 100)], r_error = None, r_timestamp = 1020,
       fromCache = False, cacheAge = None\<rparr>, stored_world)"
  unfolding stored_world_def by (rule step1)

lemma limited_run:
  "fetchApiData (demo_rt net_ok_then_429) news_args stored_world =
     (\<lparr>r_data = JNull, r_error = Some (ApiRateLimitWait 60), r_timestamp = 1040,
       fromCache = False, cacheAge = None\<rparr>, limited_world)"
  unfolding stored_world_def limited_world_def by (rule step2)

lemma short_circuit_run:
  "fetchApiData (demo_rt net_ok_then_429) (quote_args\<lparr>bypassCache := True\<rparr>) limited_world =
     (\<lparr>r_data = JNull, r_error = Some (RateLimitWait 60), r_timestamp = 1040,
       fromCache = False, cacheAge = None\<rparr>, limited_world)"
  unfolding limited_world_def by (rule step3)

text \<open>
  C2 (as amended). When a call with \<open>cacheTTL > 0\<close> returns a failure that is neither the
  rate-limit short-circuit (\<open>Rate limit exceeded\<close>, returned before any request) nor the
  CORS failure of the proxy fallback, the entry under the call's cache key is gone from
  the cache it leaves, and a lookup of that key, at any instant, is a miss. The rate-limit
  short-circuit of a call that bypasses the cache changes nothing: the cache it leaves is
  the cache it found.
\<close>

theorem C2_failure_invalidates:
  "(fetchApiData rt a w = (r, w') \<and> cache_on a \<and> r_error r = Some m
      \<and> m \<noteq> CorsError \<and> (\<forall>n. m \<noteq> RateLimitWait n)
      \<longrightarrow> responseCache w' (cache_key rt a) = None
          \<and> (\<forall>now. getCachedData (cache_key rt a) now (responseCache w') = (None, responseCache w')))
   \<and> (parseURL rt (req_url a2) = Inr p2 \<and> rateLimitCache w2 (origin p2) = Some l2
        \<and> resetTime l2 = Some t2 \<and> clock w2 < t2 \<and> bypassCache a2
        \<longrightarrow> fetchApiData rt a2 w2 =
              (\<lparr>r_data = JNull, r_error = Some (RateLimitWait (ceil_seconds (t2 - clock w2))),
                r_timestamp = clock w2, fromCache = False, cacheAge = None\<rparr>, w2))"
proof (intro conjI impI allI)
  assume h: "fetchApiData rt a w = (r, w') \<and> cache_on a \<and> r_error r = Some m
      \<and> m \<noteq> CorsError \<and> (\<forall>n. m \<noteq> RateLimitWait n)"
  then have run: "fetchApiData rt a w = (r, w')" and on: "cache_on a"
    and err: "r_error r = Some m" and nc: "m \<noteq> CorsError" and nr: "\<forall>n. m \<noteq> RateLimitWait n"
    by simp_all
  from failure_invalidates [OF run on err nc nr]
  show gone: "responseCache w' (cache_key rt a) = None" .
  fix now
  from gone show "getCachedData (cache_key rt a) now (responseCache w') = (None, responseCache w')"
    by (rule getCachedData_absent)
next
  assume h: "parseURL rt (req_url a2) = Inr p2 \<and> rateLimitCache w2 (origin p2) = Some l2
        \<and> resetTime l2 = Some t2 \<and> clock w2 < t2 \<and> bypassCache a2"
  then have "parseURL rt (req_url a2) = Inr p2" "rateLimitCache w2 (origin p2) = Some l2"
    "resetTime l2 = Some t2" "clock w2 < t2" "bypassCache a2"
    by simp_all
  then show "fetchApiData rt a2 w2 =
              (\<lparr>r_data = JNull, r_error = Some (RateLimitWait (ceil_seconds (t2 - clock w2))),
                r_timestamp = clock w2, fromCache = False, cacheAge = None\<rparr>, w2)"
    by (rule blocked_bypass_keeps_cache)
qed

theorem C2_failure_invalidates_witness:
  "responseCache stored_world (cache_key (demo_rt net_always_500) refresh_args) = Some quote_entry
   \<and> cache_on refresh_args
   \<and> r_error (fst (fetchApiData (demo_rt net_always_500) refresh_args stored_world))
       = Some (HttpStatus 500)
   \<and> responseCache (snd (fetchApiData (demo_rt net_always_500) refresh_args stored_world))
        (cache_key (demo_rt net_always_500) refresh_args) = None
   \<and> fst (getCachedData (cache_key (demo_rt net_always_500) refresh_args) 1040
        (responseCache (snd (fetchApiData (demo_rt net_always_500) refresh_args stored_world))))
       = None
   \<and> rateLimitCache limited_world ''https://api.example.com''
       = Some \<lparr>count = 1, resetTime = Some 61040\<rparr>
   \<and> clock limited_world < 61040
   \<and> bypassCache (quote_args\<lparr>bypassCache := True\<rparr>)
   \<and> snd (fetchApiData (demo_rt net_always_500) (quote_args\<lparr>bypassCache := True\<rparr>) limited_world)
       = limited_world"
proof -
  let ?rt = "demo_rt net_always_500"
  let ?pq = "\<lparr>origin = ''https://api.example.com'', pathname = ''/quote'',
              searchParams = [(''symbol'', ''IBM'')]\<rparr>"
  let ?l = "\<lparr>count = 1, resetTime = Some 61040\<rparr>"
  let ?by = "quote_args\<lparr>bypassCache := True\<rparr>"
  let ?r = "\<lparr>r_data = JNull, r_error = Some (HttpStatus 500), r_timestamp = 1040, fromCache = False,
       cacheAge = None\<rparr>"
  let ?w' = "\<lparr>responseCache = Map.empty, rateLimitCache = Map.empty, clock = 1040,
       requests = [quote_request, quote_request], slept = 0\<rparr>"
  have k: "cache_key ?rt refresh_args = ''https://api.example.com/quote?symbol=IBM''"
    by (simp add: cache_key_def generateCacheKey_def demo_eval refresh_args_def quote_args_def
        sort_entries_def)
  have a0: "responseCache stored_world (cache_key ?rt refresh_args) = Some quote_entry"
    by (simp add: k stored_world_def)
  have a1: "cache_on refresh_args" by (simp add: cache_on_def refresh_args_def quote_args_def)
  have a2: "r_error ?r = Some (HttpStatus 500)" "HttpStatus 500 \<noteq> CorsError"
    "\<forall>n. HttpStatus 500 \<noteq> RateLimitWait n"
    by simp_all
  have b1: "parseURL ?rt (req_url ?by) = Inr ?pq" by (simp add: demo_eval quote_args_def)
  have b2: "rateLimitCache limited_world (origin ?pq) = Some ?l" by (simp add: limited_world_def)
  have b3: "resetTime ?l = Some 61040" "clock limited_world < 61040" "bypassCache ?by"
    by (simp_all add: limited_world_def)
  note t = C2_failure_invalidates [of ?rt refresh_args stored_world ?r ?w' "HttpStatus 500"
      ?by ?pq limited_world ?l 61040]
  from t refresh_fails a1 a2
  have c1: "responseCache ?w' (cache_key ?rt refresh_args) = None
      \<and> getCachedData (cache_key ?rt refresh_args) 1040 (responseCache ?w') = (None, responseCache ?w')"
    by blast
  with refresh_fails
  have c1': "r_error (fst (fetchApiData ?rt refresh_args stored_world)) = Some (HttpStatus 500)
      \<and> responseCache (snd (fetchApiData ?rt refresh_args stored_world)) (cache_key ?rt refresh_args) = None
      \<and> fst (getCachedData (cache_key ?rt refresh_args) 1040
           (responseCache (snd (fetchApiData ?rt refresh_args stored_world)))) = None"
    by simp
  from t b1 b2 b3
  have c2: "snd (fetchApiData ?rt ?by limited_world) = limited_world"
    by simp
  from b2 have b2': "rateLimitCache limited_world ''https://api.example.com'' = Some ?l" by simp
  from a0 a1 c1' b2' b3 c2 show ?thesis by blast
qed

text \<open>
  C2 as stated fails: the quote is fetched and stored; another endpoint of the origin is
  answered 429, which blocks the origin; a forced refresh of the quote then returns a
  failure (error set, data \<^verbatim>\<open>null\<close>) from the rate-limit check, and a lookup of the key
  right after it is a hit.
\<close>

theorem C2_short_circuit_counterexample:
  "r_error (fst (fetchApiData (demo_rt net_ok_then_429) quote_args (start_world 1000))) = None
   \<and> snd (fetchApiData (demo_rt net_ok_then_429) quote_args (start_world 1000)) = stored_world
   \<and> responseCache stored_world (cache_key (demo_rt net_ok_then_429) quote_args) = Some quote_entry
   \<and> snd (fetchApiData (demo_rt net_ok_then_429) news_args stored_world) = limited_world
   \<and> cache_on (quote_args\<lparr>bypassCache := True\<rparr>)
   \<and> cache_key (demo_rt net_ok_then_429) (quote_args\<lparr>bypassCache := True\<rparr>)
       = cache_key (demo_rt net_ok_then_429) quote_args
   \<and> fst (fetchApiData (demo_rt net_ok_then_429) (quote_args\<lparr>bypassCache := True\<rparr>) limited_world)
       = \<lparr>r_data = JNull, r_error = Some (RateLimitWait 60), r_timestamp = 1040,
          fromCache = False, cacheAge = None\<rparr>
   \<and> fst (getCachedData (cache_key (demo_rt net_ok_then_429) quote_args)
        (clock (snd (fetchApiData (demo_rt net_ok_then_429) (quote_args\<lparr>bypassCache := True\<rparr>)
                       limited_world)))
        (responseCache (snd (fetchApiData (demo_rt net_ok_then_429)
                               (quote_args\<lparr>bypassCache := True\<rparr>) limited_world))))
       = Some quote_entry"
proof -
  have k: "cache_key (demo_rt net_ok_then_429) (quote_args\<lparr>bypassCache := True\<rparr>)
       = cache_key (demo_rt net_ok_then_429) quote_args"
    by (simp add: cache_key_def)
  have s: "responseCache stored_world (cache_key (demo_rt net_ok_then_429) quote_args) = Some quote_entry"
    by (simp add: qk stored_world_def)
  have on: "cache_on (quote_args\<lparr>bypassCache := True\<rparr>)"
    by (simp add: cache_on_def quote_args_def)
  have hit: "fst (getCachedData (cache_key (demo_rt net_ok_then_429) quote_args) (clock limited_world)
      (responseCache limited_world)) = Some quote_entry"
    by (simp add: qk limited_world_def getCachedData_def quote_entry_def)
  from k s on hit show ?thesis
    by (simp add: stored_run limited_run short_circuit_run)
qed

lemma fallback_failure_keeps_entry:
  "fst (fetchApiData (demo_rt net_all_rejected) refresh_args stored_world)
     = \<lparr>r_data = JNull, r_error = Some CorsError, r_timestamp = 1060, fromCache = False,
        cacheAge = None\<rparr>
   \<and> responseCache (snd (fetchApiData (demo_rt net_all_rejected) refresh_args stored_world))
        ''https://api.example.com/quote?symbol=IBM'' = Some quote_entry"
  by (simp add: fetchApiData.simps fetch_eval demo_eval refresh_args_def quote_args_def
      net_all_rejected_def stored_world_def)

lemma set_insert_entry: "set (insert_entry cmp x ys) = insert x (set ys)"
  by (induction ys) auto

lemma set_sort_entries: "set (sort_entries cmp xs) = set xs"
  by (induction xs) (simp_all add: sort_entries_def set_insert_entry)

lemma distinct_insert_entry:
  "distinct (map fst (insert_entry cmp x ys)) \<longleftrightarrow> fst x \<notin> fst ` set ys \<and> distinct (map fst ys)"
  by (induction ys) (auto simp: set_insert_entry)

lemma distinct_sort_entries:
  "distinct (map fst xs) \<Longrightarrow> distinct (map fst (sort_entries cmp xs))"
proof (induction xs)
  case Nil
  then show ?case by (simp add: sort_entries_def)
next
  case (Cons x xs)
  then have "fst x \<notin> fst ` set (sort_entries cmp xs)" by (simp add: set_sort_entries)
  with Cons show ?case by (simp add: sort_entries_def distinct_insert_entry)
qed

lemma sorted_insert_entry:
  assumes "total_preorder cmp"
  shows "sorted_wrt (\<lambda>a b. cmp (fst a) (fst b) \<le> 0) ys \<Longrightarrow>
         sorted_wrt (\<lambda>a b. cmp (fst a) (fst b) \<le> 0) (insert_entry cmp x ys)"
proof (induction ys)
  case Nil
  then show ?case by simp
next
  case (Cons y ys)
  from assms have tot: "\<And>a b. cmp a b \<le> 0 \<or> cmp b a \<le> 0"
    and tr: "\<And>a b c. cmp a b \<le> 0 \<Longrightarrow> cmp b c \<le> 0 \<Longrightarrow> cmp a c \<le> 0"
    unfolding total_preorder_def by blast+
  show ?case
  proof (cases "cmp (fst x) (fst y) \<le> 0")
    case True
    with Cons.prems tr show ?thesis by auto
  next
    case False
    with tot [of "fst x" "fst y"] have "cmp (fst y) (fst x) \<le> 0" by simp
    with False Cons show ?thesis by (auto simp: set_insert_entry)
  qed
qed

lemma sorted_sort_entries:
  "total_preorder cmp \<Longrightarrow> sorted_wrt (\<lambda>a b. cmp (fst a) (fst b) \<le> 0) (sort_entries cmp xs)"
  by (induction xs) (simp_all add: sort_entries_def sorted_insert_entry)

lemma same_name_same_entry:
  "distinct (map fst xs) \<Longrightarrow> x \<in> set xs \<Longrightarrow> y \<in> set xs \<Longrightarrow> fst x = fst y \<Longrightarrow> x = y"
  by (meson distinct_map inj_onD)

lemma sorted_unique:
  "sorted_wrt (\<lambda>a b. cmp (fst a) (fst b) \<le> 0) xs \<Longrightarrow>
   sorted_wrt (\<lambda>a b. cmp (fst a) (fst b) \<le> 0) ys \<Longrightarrow>
   set xs = set ys \<Longrightarrow> distinct (map fst xs) \<Longrightarrow> distinct (map fst ys) \<Longrightarrow>
   separates cmp (fst ` set xs) \<Longrightarrow> xs = ys"
proof (induction xs arbitrary: ys)
  case Nil
  then show ?case by simp
next
  case (Cons x xs)
  from Cons.prems(3) obtain y ys' where ys: "ys = y # ys'" by (cases ys) auto
  have dx: "distinct (x # xs)" using Cons.prems(4) by (simp only: distinct_map)
  have dy: "distinct (y # ys')" using Cons.prems(5) ys by (simp only: distinct_map)
  have xy: "x = y"
  proof (rule ccontr)
    assume ne: "x \<noteq> y"
    from Cons.prems(3) ys ne have x_in: "x \<in> set ys'" and y_in: "y \<in> set xs" by auto
    from Cons.prems(2) ys x_in have l1: "cmp (fst y) (fst x) \<le> 0" by auto
    from Cons.prems(1) y_in have l2: "cmp (fst x) (fst y) \<le> 0" by auto
    from Cons.prems(6) l1 l2 y_in have "fst x = fst y"
      unfolding separates_def by auto
    with same_name_same_entry [OF Cons.prems(4), of x y] y_in have "x = y" by simp
    with ne show False by simp
  qed
  from dx dy xy Cons.prems(3) ys have sets: "set xs = set ys'" by auto
  from Cons.prems(6) have sep: "separates cmp (fst ` set xs)"
    unfolding separates_def by auto
  from Cons.IH [of ys'] Cons.prems(1,2,4,5) ys sets sep have "xs = ys'" by simp
  with xy ys show ?case by simp
qed

lemma sort_entries_permutation:
  assumes "total_preorder cmp" "set xs = set ys" "distinct (map fst xs)" "distinct (map fst ys)"
    and "separates cmp (fst ` set xs)"
  shows "sort_entries cmp xs = sort_entries cmp ys"
proof (rule sorted_unique)
  show "sorted_wrt (\<lambda>a b. cmp (fst a) (fst b) \<le> 0) (sort_entries cmp xs)"
    "sorted_wrt (\<lambda>a b. cmp (fst a) (fst b) \<le> 0) (sort_entries cmp ys)"
    using assms(1) by (rule sorted_sort_entries)+
  show "set (sort_entries cmp xs) = set (sort_entries cmp ys)"
    using assms(2) by (simp add: set_sort_entries)
  show "distinct (map fst (sort_entries cmp xs))" "distinct (map fst (sort_entries cmp ys))"
    using assms(3,4) by (simp_all add: distinct_sort_entries)
  show "separates cmp (fst ` set (sort_entries cmp xs))"
    using assms(5) by (simp add: set_sort_entries)
qed

lemma cache_key_permutation:
  assumes "parseURL rt u1 = Inr p1" "parseURL rt u2 = Inr p2"
    and "origin p1 = origin p2" "pathname p1 = pathname p2"
    and "set (searchParams p1) = set (searchParams p2)"
    and "distinct (map fst (searchParams p1))" "distinct (map fst (searchParams p2))"
    and "total_preorder (localeCompare rt)"
    and "separates (localeCompare rt) (fst ` set (searchParams p1))"
  shows "generateCacheKey rt u1 k h = generateCacheKey rt u2 k h"
  using assms sort_entries_permutation [OF assms(8) assms(5) assms(6) assms(7) assms(9)]
  by (simp add: generateCacheKey_def)

lemma cache_hit:
  assumes "cache_on a" "\<not> bypassCache a" "responseCache w (cache_key rt a) = Some e"
    and "clock w < expiresAt e"
  shows "fetchApiData rt a w =
     (\<lparr>r_data = data e, r_error = None, r_timestamp = timestamp e, fromCache = True,
       cacheAge = Some ((clock w - timestamp e) div 1000)\<rparr>, w)"
  using assms
  by (simp add: fetchApiData.simps [of rt a w] attempt_def before_request_def getCachedData_def
      getCacheAge_def Let_def)

lemma handle_ok_success:
  assumes "handle_ok rt a resp w = Return r w1" "cacheTTL a = Some T" "0 < T"
  shows "r_error r = None \<and> \<not> fromCache r
     \<and> responseCache w1 (cache_key rt a) =
         Some \<lparr>data = r_data r, timestamp = r_timestamp r, expiresAt = r_timestamp r + T * 1000,
               url = req_url a\<rparr>"
  using assms
  by (auto simp: handle_ok_def Let_def success_def cache_store_def setCachedData_def
      split: sum.splits option.splits if_splits)

lemma handle_error_no_return: "handle_error rt a resp w \<noteq> Return r w1"
  by (auto simp: handle_error_def Let_def split: sum.splits option.splits)

lemma before_request_return:
  "before_request rt a w = Inl (Return r w1) \<Longrightarrow> fromCache r \<or> r_error r \<noteq> None"
  by (auto simp: before_request_def Let_def failure_def
      split: sum.splits option.splits prod.splits if_splits)

lemma attempt_return_success:
  assumes "attempt rt a w = Return r w1" "r_error r = None" "\<not> fromCache r"
    and "cacheTTL a = Some T" "0 < T"
  shows "responseCache w1 (cache_key rt a) =
         Some \<lparr>data = r_data r, timestamp = r_timestamp r, expiresAt = r_timestamp r + T * 1000,
               url = req_url a\<rparr>"
proof (cases "before_request rt a w")
  case (Inl out)
  with assms(1) have "before_request rt a w = Inl (Return r w1)" by (simp add: attempt_def)
  from before_request_return [OF this] assms(2,3) show ?thesis by simp
next
  case (Inr v)
  obtain res w2 where f: "do_fetch rt (build_request a) v = (res, w2)"
    by (cases "do_fetch rt (build_request a) v")
  show ?thesis
  proof (cases res)
    case (Inl msg)
    with Inr f assms(1) show ?thesis by (simp add: attempt_def)
  next
    case (Inr resp)
    with \<open>before_request rt a w = Inr v\<close> f assms(1)
    have "(if \<not> ok resp then handle_error rt a resp w2 else handle_ok rt a resp w2) = Return r w1"
      by (simp add: attempt_def)
    then have "handle_ok rt a resp w2 = Return r w1"
      using handle_error_no_return [of rt a resp w2 r w1] by (auto split: if_splits)
    from handle_ok_success [OF this assms(4,5)] show ?thesis by simp
  qed
qed

lemma proxy_fallback_stores:
  assumes "proxy_fallback rt a w = (r, w1)" "r_error r = None" "cacheTTL a = Some T" "0 < T"
  shows "responseCache w1 (cache_key rt a) =
         Some \<lparr>data = r_data r, timestamp = r_timestamp r, expiresAt = r_timestamp r + T * 1000,
               url = req_url a\<rparr>"
  using assms
  by (auto simp: proxy_fallback_def do_fetch_def Let_def success_def failure_def cache_store_def
      setCachedData_def split: sum.splits option.splits if_splits)

lemma catch_handler_stores:
  assumes "catch_handler rt a e w = (r, w1)" "r_error r = None" "cacheTTL a = Some T" "0 < T"
  shows "responseCache w1 (cache_key rt a) =
         Some \<lparr>data = r_data r, timestamp = r_timestamp r, expiresAt = r_timestamp r + T * 1000,
               url = req_url a\<rparr>"
  using assms proxy_fallback_stores [of rt a w r w1 T]
  by (auto simp: catch_handler_def failure_def split: if_splits)

lemma success_cached:
  "fetchApiData rt a w = (r, w') \<Longrightarrow> r_error r = None \<Longrightarrow> \<not> fromCache r \<Longrightarrow>
   cacheTTL a = Some T \<Longrightarrow> 0 < T \<Longrightarrow>
   responseCache w' (cache_key rt a) =
     Some \<lparr>data = r_data r, timestamp = r_timestamp r, expiresAt = r_timestamp r + T * 1000,
           url = req_url a\<rparr>"
proof (induction rt a w arbitrary: r w' rule: fetchApiData.induct)
  case (1 rt a w)
  note run = \<open>fetchApiData rt a w = (r, w')\<close>
  show ?case
  proof (cases "attempt rt a w")
    case (Return r1 w1)
    with run have "r = r1" "w' = w1" by (simp_all add: fetchApiData.simps [of rt a w])
    with attempt_return_success [OF Return _ _ "1.prems"(4,5)] "1.prems"(2,3) show ?thesis by simp
  next
    case (Retry w1)
    with run have rec: "fetchApiData rt (a\<lparr>retryCount := retryCount a + 1\<rparr>) w1 = (r, w')"
      by (simp add: fetchApiData.simps [of rt a w])
    from "1.prems"(4) have ttl: "cacheTTL (a\<lparr>retryCount := retryCount a + 1\<rparr>) = Some T" by simp
    from "1.IH" [OF Retry rec "1.prems"(2,3) ttl "1.prems"(5)] show ?thesis by simp
  next
    case (Throw e w1)
    with run have c: "catch_handler rt a e w1 = (r, w')"
      by (simp add: fetchApiData.simps [of rt a w])
    from catch_handler_stores [OF c "1.prems"(2,4,5)] show ?thesis .
  qed
qed

lemma bypass_reaches_network:
  assumes "bypassCache a" "checkRateLimit rt (req_url a) w = Inr (None, w1)"
  shows "\<exists>more. requests (snd (fetchApiData rt a w)) = requests w @ build_request a # more"
proof -
  from assms have b: "before_request rt a w = Inr w1"
    by (simp add: before_request_def Let_def)
  obtain r w' where run: "fetchApiData rt a w = (r, w')" by (cases "fetchApiData rt a w")
  from fetch_first_request [OF b run] run show ?thesis by simp
qed

lemma from_cache_only:
  "fetchApiData rt a w = (r, w') \<Longrightarrow> fromCache r \<Longrightarrow> \<not> bypassCache a \<and> cache_on a"
proof (induction rt a w arbitrary: r w' rule: fetchApiData.induct)
  case (1 rt a w)
  note run = \<open>fetchApiData rt a w = (r, w')\<close>
  show ?case
  proof (cases "attempt rt a w")
    case (Return r1 w1)
    with run have r: "r = r1" by (simp add: fetchApiData.simps [of rt a w])
    show ?thesis
    proof (cases "before_request rt a w")
      case (Inl out)
      with Return have "before_request rt a w = Inl (Return r1 w1)" by (simp add: attempt_def)
      with r "1.prems"(2) show ?thesis
        by (auto simp: before_request_def Let_def failure_def
            split: sum.splits option.splits prod.splits if_splits)
    next
      case (Inr v)
      obtain res w2 where f: "do_fetch rt (build_request a) v = (res, w2)"
        by (cases "do_fetch rt (build_request a) v")
      show ?thesis
      proof (cases res)
        case (Inl msg)
        with Inr f Return show ?thesis by (simp add: attempt_def)
      next
        case (Inr resp)
        with \<open>before_request rt a w = Inr v\<close> f Return
        have "(if \<not> ok resp then handle_error rt a resp w2 else handle_ok rt a resp w2) = Return r1 w1"
          by (simp add: attempt_def)
        then have "handle_ok rt a resp w2 = Return r1 w1"
          using handle_error_no_return [of rt a resp w2 r1 w1] by (auto split: if_splits)
        with r "1.prems"(2) show ?thesis
          by (auto simp: handle_ok_def Let_def success_def split: sum.splits option.splits if_splits)
      qed
    qed
  next
    case (Retry w1)
    with run have rec: "fetchApiData rt (a\<lparr>retryCount := retryCount a + 1\<rparr>) w1 = (r, w')"
      by (simp add: fetchApiData.simps [of rt a w])
    from "1.IH" [OF Retry rec "1.prems"(2)] show ?thesis by simp
  next
    case (Throw e w1)
    with run have c: "catch_handler rt a e w1 = (r, w')"
      by (simp add: fetchApiData.simps [of rt a w])
    with "1.prems"(2) show ?thesis
      by (auto simp: catch_handler_def proxy_fallback_def do_fetch_def Let_def success_def failure_def
          split: sum.splits option.splits if_splits)
  qed
qed

lemma compare_strings_total: "compare_strings x y \<le> 0 \<or> compare_strings y x \<le> 0"
  by (induction x y rule: compare_strings.induct) auto

lemma compare_strings_antisym:
  "compare_strings x y \<le> 0 \<Longrightarrow> compare_strings y x \<le> 0 \<Longrightarrow> x = y"
  by (induction x y rule: compare_strings.induct) (auto split: if_splits)

lemma compare_strings_trans:
  "compare_strings x y \<le> 0 \<Longrightarrow> compare_strings y z \<le> 0 \<Longrightarrow> compare_strings x z \<le> 0"
proof (induction x y arbitrary: z rule: compare_strings.induct)
  case 1
  then show ?case by simp
next
  case (2 d ds)
  then show ?case by (cases z) simp_all
next
  case (3 c cs)
  then show ?case by simp
next
  case (4 c cs d ds)
  show ?case
  proof (cases z)
    case Nil
    with "4.prems" show ?thesis by simp
  next
    case (Cons e es)
    with "4.prems" "4.IH" [of es] show ?thesis
      by (auto split: if_splits)
  qed
qed

lemma compare_strings_preorder: "total_preorder compare_strings"
  unfolding total_preorder_def
  using compare_strings_total compare_strings_trans by blast

lemma compare_strings_separates: "separates compare_strings names"
  unfolding separates_def using compare_strings_antisym by blast

text \<open>
  C1 (as amended). Let \<^verbatim>\<open>localeCompare\<close> be a consistent comparison (total and transitive).
  Two URLs with the same origin and path whose query parameters are the same pairs in a
  different order get the same cache key for the same credential, provided no two of the
  parameter names compare equal: no name is repeated, and no two different names are
  taken for equal by \<^verbatim>\<open>localeCompare\<close>. After a call with \<open>cacheTTL = T > 0\<close> returned a fresh
  payload without error, the payload is stored under the call's key with expiry \<open>T\<close>
  seconds after its timestamp; and a later call with the same key, \<open>cacheTTL > 0\<close> and
  \<open>bypassCache = false\<close>, made in any world that still holds that entry and whose clock is
  before the expiry, returns the same payload marked \<open>fromCache\<close> and leaves the world as it
  found it, the request log included. A call with \<open>bypassCache = true\<close> never answers from
  the cache; when the rate-limit check reports the origin not limited it issues its
  request, whatever the cache holds, and on success its payload replaces the entry.
\<close>

theorem C1_cache_idempotence:
  "(parseURL rt u1 = Inr q1 \<and> parseURL rt u2 = Inr q2
      \<and> origin q1 = origin q2 \<and> pathname q1 = pathname q2
      \<and> set (searchParams q1) = set (searchParams q2)
      \<and> distinct (map fst (searchParams q1)) \<and> distinct (map fst (searchParams q2))
      \<and> total_preorder (localeCompare rt)
      \<and> separates (localeCompare rt) (fst ` set (searchParams q1))
      \<longrightarrow> generateCacheKey rt u1 k h = generateCacheKey rt u2 k h)
   \<and> (fetchApiData rt a w = (r, w1) \<and> r_error r = None \<and> \<not> fromCache r
        \<and> cacheTTL a = Some T \<and> 0 < T
        \<longrightarrow> responseCache w1 (cache_key rt a) =
              Some \<lparr>data = r_data r, timestamp = r_timestamp r,
                    expiresAt = r_timestamp r + T * 1000, url = req_url a\<rparr>
            \<and> (cache_on b \<and> \<not> bypassCache b \<and> cache_key rt b = cache_key rt a
                 \<and> responseCache v (cache_key rt a) = responseCache w1 (cache_key rt a)
                 \<and> clock v < r_timestamp r + T * 1000
                 \<longrightarrow> fetchApiData rt b v =
                       (\<lparr>r_data = r_data r, r_error = None, r_timestamp = r_timestamp r,
                         fromCache = True,
                         cacheAge = Some ((clock v - r_timestamp r) div 1000)\<rparr>, v)))
   \<and> (bypassCache c \<and> fetchApiData rt c w3 = (r3, w3')
        \<longrightarrow> \<not> fromCache r3
            \<and> (checkRateLimit rt (req_url c) w3 = Inr (None, v3) \<longrightarrow>
                  (\<exists>more. requests w3' = requests w3 @ build_request c # more))
            \<and> (r_error r3 = None \<and> cacheTTL c = Some T3 \<and> 0 < T3 \<longrightarrow>
                  responseCache w3' (cache_key rt c) =
                    Some \<lparr>data = r_data r3, timestamp = r_timestamp r3,
                          expiresAt = r_timestamp r3 + T3 * 1000, url = req_url c\<rparr>))"
proof (intro conjI impI)
  assume "parseURL rt u1 = Inr q1 \<and> parseURL rt u2 = Inr q2
      \<and> origin q1 = origin q2 \<and> pathname q1 = pathname q2
      \<and> set (searchParams q1) = set (searchParams q2)
      \<and> distinct (map fst (searchParams q1)) \<and> distinct (map fst (searchParams q2))
      \<and> total_preorder (localeCompare rt)
      \<and> separates (localeCompare rt) (fst ` set (searchParams q1))"
  then have "parseURL rt u1 = Inr q1" "parseURL rt u2 = Inr q2"
    "origin q1 = origin q2" "pathname q1 = pathname q2"
    "set (searchParams q1) = set (searchParams q2)"
    "distinct (map fst (searchParams q1))" "distinct (map fst (searchParams q2))"
    "total_preorder (localeCompare rt)"
    "separates (localeCompare rt) (fst ` set (searchParams q1))"
    by blast+
  then show "generateCacheKey rt u1 k h = generateCacheKey rt u2 k h"
    by (rule cache_key_permutation)
next
  assume h: "fetchApiData rt a w = (r, w1) \<and> r_error r = None \<and> \<not> fromCache r
        \<and> cacheTTL a = Some T \<and> 0 < T"
  then have run: "fetchApiData rt a w = (r, w1)" and ok: "r_error r = None"
    and fresh: "\<not> fromCache r" and ttl: "cacheTTL a = Some T" and pos: "0 < T"
    by simp_all
  from success_cached [OF run ok fresh ttl pos]
  show stored: "responseCache w1 (cache_key rt a) =
              Some \<lparr>data = r_data r, timestamp = r_timestamp r,
                    expiresAt = r_timestamp r + T * 1000, url = req_url a\<rparr>" .
  assume g: "cache_on b \<and> \<not> bypassCache b \<and> cache_key rt b = cache_key rt a
                 \<and> responseCache v (cache_key rt a) = responseCache w1 (cache_key rt a)
                 \<and> clock v < r_timestamp r + T * 1000"
  then have on: "cache_on b" and nb: "\<not> bypassCache b" and key: "cache_key rt b = cache_key rt a"
    and still: "responseCache v (cache_key rt a) = responseCache w1 (cache_key rt a)"
    and early: "clock v < r_timestamp r + T * 1000"
    by simp_all
  let ?e = "\<lparr>data = r_data r, timestamp = r_timestamp r,
             expiresAt = r_timestamp r + T * 1000, url = req_url a\<rparr>"
  from still stored key have e: "responseCache v (cache_key rt b) = Some ?e" by simp
  from early have lt: "clock v < expiresAt ?e" by simp
  from cache_hit [OF on nb e lt]
  show "fetchApiData rt b v =
                       (\<lparr>r_data = r_data r, r_error = None, r_timestamp = r_timestamp r,
                         fromCache = True,
                         cacheAge = Some ((clock v - r_timestamp r) div 1000)\<rparr>, v)"
    by simp
next
  assume h: "bypassCache c \<and> fetchApiData rt c w3 = (r3, w3')"
  then have byp: "bypassCache c" and run: "fetchApiData rt c w3 = (r3, w3')" by simp_all
  from from_cache_only [OF run] byp show fresh: "\<not> fromCache r3" by blast
  {
    assume "checkRateLimit rt (req_url c) w3 = Inr (None, v3)"
    from bypass_reaches_network [OF byp this] run
    show "\<exists>more. requests w3' = requests w3 @ build_request c # more" by simp
  }
  {
    assume "r_error r3 = None \<and> cacheTTL c = Some T3 \<and> 0 < T3"
    then have "r_error r3 = None" "cacheTTL c = Some T3" "0 < T3" by simp_all
    from success_cached [OF run this(1) fresh this(2,3)]
    show "responseCache w3' (cache_key rt c) =
                    Some \<lparr>data = r_data r3, timestamp = r_timestamp r3,
                          expiresAt = r_timestamp r3 + T3 * 1000, url = req_url c\<rparr>" .
  }
qed

lemma always_ok_run:
  "fetchApiData (demo_rt net_always_ok) quote_args (start_world 1000) =
     (\<lparr>r_data = JObj [(''price'', JNum 100)], r_error = None, r_timestamp = 1020,
       fromCache = False, cacheAge = None\<rparr>, stored_world)"
  by (simp add: fetchApiData.simps fetch_eval demo_eval quote_args_def net_always_ok_def
      quote_entry_def quote_request_def stored_world_def)

lemma force_run:
  "fetchApiData (demo_rt net_always_ok) force_args (stored_world\<lparr>clock := 5000\<rparr>) =
     (\<lparr>r_data = JObj [(''price'', JNum 100)], r_error = None, r_timestamp = 5020,
       fromCache = False, cacheAge = None\<rparr>,
      \<lparr>responseCache =
         [''https://api.example.com/quote?symbol=IBM'' \<mapsto>
            \<lparr>data = JObj [(''price'', JNum 100)], timestamp = 5020, expiresAt = 35020,
             url = ''https://api.example.com/quote?symbol=IBM''\<rparr>],
       rateLimitCache = Map.empty, clock = 5020, requests = [quote_request, quote_request],
       slept = 0\<rparr>)"
  by (simp add: fetchApiData.simps fetch_eval demo_eval force_args_def quote_args_def
      net_always_ok_def quote_entry_def quote_request_def stored_world_def)

lemma dup_first_run:
  "fetchApiData (demo_rt net_always_ok) (dup_args ''https://api.example.com/q?a=1&a=2'')
     (start_world 1000) =
     (\<lparr>r_data = JObj [(''price'', JNum 100)], r_error = None, r_timestamp = 1020,
       fromCache = False, cacheAge = None\<rparr>, dup_world)"
  by (simp add: fetchApiData.simps fetch_eval demo_eval dup_args_def quote_args_def
      net_always_ok_def dup_world_def)

lemma dup_second_run:
  "fetchApiData (demo_rt net_always_ok) (dup_args ''https://api.example.com/q?a=2&a=1'') dup_world =
     (\<lparr>r_data = JObj [(''price'', JNum 100)], r_error = None, r_timestamp = 1040,
       fromCache = False, cacheAge = None\<rparr>,
      \<lparr>responseCache =
         [''https://api.example.com/q?a=1&a=2'' \<mapsto>
            \<lparr>data = JObj [(''price'', JNum 100)], timestamp = 1020, expiresAt = 31020,
             url = ''https://api.example.com/q?a=1&a=2''\<rparr>,
          ''https://api.example.com/q?a=2&a=1'' \<mapsto>
            \<lparr>data = JObj [(''price'', JNum 100)], timestamp = 1040, expiresAt = 31040,
             url = ''https://api.example.com/q?a=2&a=1''\<rparr>],
       rateLimitCache = Map.empty, clock = 1040,
       requests = [\<lparr>target = Direct ''https://api.example.com/q?a=1&a=2'', headers = []\<rparr>,
                   \<lparr>target = Direct ''https://api.example.com/q?a=2&a=1'', headers = []\<rparr>],
       slept = 0\<rparr>)"
  by (simp add: fetchApiData.simps fetch_eval demo_eval dup_args_def quote_args_def
      net_always_ok_def dup_world_def)

text \<open>
  C1 as stated fails in two places. The sort compares the names only and is stable, so
  two parameters whose names compare equal keep the order they have in the URL: with a
  repeated name the two orders get different keys, and the second call, within the TTL,
  goes to the network; and so do two different names that \<^verbatim>\<open>localeCompare\<close> takes for equal,
  as it does the two spellings of e with acute accent. And a call with
  \<open>bypassCache = true\<close> for a blocked origin ends at the rate-limit check: no request is
  issued.
\<close>

theorem C1_repeated_name_counterexample:
  "parseURL (demo_rt net_always_ok) ''https://api.example.com/q?a=1&a=2''
     = Inr \<lparr>origin = ''https://api.example.com'', pathname = ''/q'',
            searchParams = [(''a'', ''1''), (''a'', ''2'')]\<rparr>
   \<and> parseURL (demo_rt net_always_ok) ''https://api.example.com/q?a=2&a=1''
     = Inr \<lparr>origin = ''https://api.example.com'', pathname = ''/q'',
            searchParams = [(''a'', ''2''), (''a'', ''1'')]\<rparr>
   \<and> generateCacheKey (demo_rt net_always_ok) ''https://api.example.com/q?a=1&a=2'' None None
       = ''https://api.example.com/q?a=1&a=2''
   \<and> generateCacheKey (demo_rt net_always_ok) ''https://api.example.com/q?a=2&a=1'' None None
       = ''https://api.example.com/q?a=2&a=1''
   \<and> snd (fetchApiData (demo_rt net_always_ok) (dup_args ''https://api.example.com/q?a=1&a=2'')
            (start_world 1000)) = dup_world
   \<and> \<not> bypassCache (dup_args ''https://api.example.com/q?a=2&a=1'')
   \<and> clock dup_world < 31020
   \<and> \<not> fromCache (fst (fetchApiData (demo_rt net_always_ok)
                          (dup_args ''https://api.example.com/q?a=2&a=1'') dup_world))
   \<and> requests (snd (fetchApiData (demo_rt net_always_ok)
                       (dup_args ''https://api.example.com/q?a=2&a=1'') dup_world))
       = [\<lparr>target = Direct ''https://api.example.com/q?a=1&a=2'', headers = []\<rparr>,
          \<lparr>target = Direct ''https://api.example.com/q?a=2&a=1'', headers = []\<rparr>]
   \<and> parseURL collating_rt ''https://api.example.com/q?%C3%A9=1&e%CC%81=2''
     = Inr \<lparr>origin = ''https://api.example.com'', pathname = ''/q'',
            searchParams = [([CHR 0xC3, CHR 0xA9], ''1''), ([CHR ''e'', CHR 0xCC, CHR 0x81], ''2'')]\<rparr>
   \<and> parseURL collating_rt ''https://api.example.com/q?e%CC%81=2&%C3%A9=1''
     = Inr \<lparr>origin = ''https://api.example.com'', pathname = ''/q'',
            searchParams = [([CHR ''e'', CHR 0xCC, CHR 0x81], ''2''), ([CHR 0xC3, CHR 0xA9], ''1'')]\<rparr>
   \<and> [CHR 0xC3, CHR 0xA9] \<noteq> [CHR ''e'', CHR 0xCC, CHR 0x81]
   \<and> localeCompare collating_rt [CHR 0xC3, CHR 0xA9] [CHR ''e'', CHR 0xCC, CHR 0x81] = 0
   \<and> localeCompare collating_rt [CHR ''e'', CHR 0xCC, CHR 0x81] [CHR 0xC3, CHR 0xA9] = 0
   \<and> generateCacheKey collating_rt ''https://api.example.com/q?%C3%A9=1&e%CC%81=2'' None None
       = ''https://api.example.com/q?'' @ [CHR 0xC3, CHR 0xA9] @ ''=1&e'' @ [CHR 0xCC, CHR 0x81] @ ''=2''
   \<and> generateCacheKey collating_rt ''https://api.example.com/q?e%CC%81=2&%C3%A9=1'' None None
       = ''https://api.example.com/q?e'' @ [CHR 0xCC, CHR 0x81] @ ''=2&'' @ [CHR 0xC3, CHR 0xA9] @ ''=1''
   \<and> generateCacheKey collating_rt ''https://api.example.com/q?%C3%A9=1&e%CC%81=2'' None None
       \<noteq> generateCacheKey collating_rt ''https://api.example.com/q?e%CC%81=2&%C3%A9=1'' None None
   \<and> bypassCache force_args
   \<and> requests (snd (fetchApiData (demo_rt net_ok_then_429) force_args limited_world))
       = requests limited_world"
proof -
  have c: "localeCompare collating_rt [CHR 0xC3, CHR 0xA9] [CHR ''e'', CHR 0xCC, CHR 0x81] = 0"
    "localeCompare collating_rt [CHR ''e'', CHR 0xCC, CHR 0x81] [CHR 0xC3, CHR 0xA9] = 0"
    by (simp_all add: collating_rt_def canonical_compare_def)
  have q: "parseURL collating_rt ''https://api.example.com/q?%C3%A9=1&e%CC%81=2''
     = Inr \<lparr>origin = ''https://api.example.com'', pathname = ''/q'',
            searchParams = [([CHR 0xC3, CHR 0xA9], ''1''), ([CHR ''e'', CHR 0xCC, CHR 0x81], ''2'')]\<rparr>"
    "parseURL collating_rt ''https://api.example.com/q?e%CC%81=2&%C3%A9=1''
     = Inr \<lparr>origin = ''https://api.example.com'', pathname = ''/q'',
            searchParams = [([CHR ''e'', CHR 0xCC, CHR 0x81], ''2''), ([CHR 0xC3, CHR 0xA9], ''1'')]\<rparr>"
    by (simp_all add: collating_rt_def demo_parse_def)
  have g: "generateCacheKey collating_rt ''https://api.example.com/q?%C3%A9=1&e%CC%81=2'' None None
       = ''https://api.example.com/q?'' @ [CHR 0xC3, CHR 0xA9] @ ''=1&e'' @ [CHR 0xCC, CHR 0x81] @ ''=2''"
    "generateCacheKey collating_rt ''https://api.example.com/q?e%CC%81=2&%C3%A9=1'' None None
       = ''https://api.example.com/q?e'' @ [CHR 0xCC, CHR 0x81] @ ''=2&'' @ [CHR 0xC3, CHR 0xA9] @ ''=1''"
    by (simp_all add: generateCacheKey_def sort_entries_def q c)
  have n: "generateCacheKey collating_rt ''https://api.example.com/q?%C3%A9=1&e%CC%81=2'' None None
       \<noteq> generateCacheKey collating_rt ''https://api.example.com/q?e%CC%81=2&%C3%A9=1'' None None"
    unfolding g by simp
  have k: "generateCacheKey (demo_rt net_always_ok) ''https://api.example.com/q?a=1&a=2'' None None
       = ''https://api.example.com/q?a=1&a=2''"
    "generateCacheKey (demo_rt net_always_ok) ''https://api.example.com/q?a=2&a=1'' None None
       = ''https://api.example.com/q?a=2&a=1''"
    by (simp_all add: generateCacheKey_def sort_entries_def demo_eval)
  have p: "parseURL (demo_rt net_always_ok) ''https://api.example.com/q?a=1&a=2''
     = Inr \<lparr>origin = ''https://api.example.com'', pathname = ''/q'',
            searchParams = [(''a'', ''1''), (''a'', ''2'')]\<rparr>"
    "parseURL (demo_rt net_always_ok) ''https://api.example.com/q?a=2&a=1''
     = Inr \<lparr>origin = ''https://api.example.com'', pathname = ''/q'',
            searchParams = [(''a'', ''2''), (''a'', ''1'')]\<rparr>"
    by (simp_all add: demo_eval)
  have b: "\<not> bypassCache (dup_args ''https://api.example.com/q?a=2&a=1'')" "bypassCache force_args"
    "clock dup_world < 31020"
    by (simp_all add: dup_args_def force_args_def quote_args_def dup_world_def)
  have s: "requests (snd (fetchApiData (demo_rt net_ok_then_429) force_args limited_world))
       = requests limited_world"
    unfolding force_args_def by (simp add: short_circuit_run)
  from k p b s c q g n show ?thesis
    by (simp add: dup_first_run dup_second_run)
qed

theorem C1_cache_idempotence_witness:
  "generateCacheKey (demo_rt net_always_ok) ''https://api.example.com/q?b=2&a=1''
       (Some ''secretkey123'') (Some ''X-Api-Key'')
     = generateCacheKey (demo_rt net_always_ok) ''https://api.example.com/q?a=1&b=2''
       (Some ''secretkey123'') (Some ''X-Api-Key'')
   \<and> total_preorder (localeCompare (demo_rt net_always_ok))
   \<and> r_error (fst (fetchApiData (demo_rt net_always_ok) quote_args (start_world 1000))) = None
   \<and> snd (fetchApiData (demo_rt net_always_ok) quote_args (start_world 1000)) = stored_world
   \<and> cacheTTL quote_args = Some 30
   \<and> responseCache stored_world (cache_key (demo_rt net_always_ok) quote_args) = Some quote_entry
   \<and> clock (stored_world\<lparr>clock := 5000\<rparr>) < 1020 + 30 * 1000
   \<and> fetchApiData (demo_rt net_always_ok) quote_args (stored_world\<lparr>clock := 5000\<rparr>)
       = (\<lparr>r_data = JObj [(''price'', JNum 100)], r_error = None, r_timestamp = 1020,
           fromCache = True, cacheAge = Some 3\<rparr>, stored_world\<lparr>clock := 5000\<rparr>)
   \<and> bypassCache force_args
   \<and> checkRateLimit (demo_rt net_always_ok) (req_url force_args) (stored_world\<lparr>clock := 5000\<rparr>)
       = Inr (None, stored_world\<lparr>clock := 5000\<rparr>)
   \<and> (\<exists>more. requests (snd (fetchApiData (demo_rt net_always_ok) force_args
                               (stored_world\<lparr>clock := 5000\<rparr>)))
         = requests (stored_world\<lparr>clock := 5000\<rparr>) @ build_request force_args # more)
   \<and> responseCache (snd (fetchApiData (demo_rt net_always_ok) force_args
                            (stored_world\<lparr>clock := 5000\<rparr>)))
        (cache_key (demo_rt net_always_ok) force_args)
       = Some \<lparr>data = JObj [(''price'', JNum 100)], timestamp = 5020, expiresAt = 35020,
               url = ''https://api.example.com/quote?symbol=IBM''\<rparr>"
proof -
  let ?rt = "demo_rt net_always_ok"
  let ?u1 = "''https://api.example.com/q?b=2&a=1''"
  let ?u2 = "''https://api.example.com/q?a=1&b=2''"
  let ?q1 = "\<lparr>origin = ''https://api.example.com'', pathname = ''/q'',
             searchParams = [(''b'', ''2''), (''a'', ''1'')]\<rparr>"
  let ?q2 = "\<lparr>origin = ''https://api.example.com'', pathname = ''/q'',
             searchParams = [(''a'', ''1''), (''b'', ''2'')]\<rparr>"
  let ?r = "\<lparr>r_data = JObj [(''price'', JNum 100)], r_error = None, r_timestamp = 1020,
       fromCache = False, cacheAge = None\<rparr>"
  let ?v = "stored_world\<lparr>clock := 5000\<rparr>"
  let ?r3 = "\<lparr>r_data = JObj [(''price'', JNum 100)], r_error = None, r_timestamp = 5020,
       fromCache = False, cacheAge = None\<rparr>"
  let ?w3' = "\<lparr>responseCache =
         [''https://api.example.com/quote?symbol=IBM'' \<mapsto>
            \<lparr>data = JObj [(''price'', JNum 100)], timestamp = 5020, expiresAt = 35020,
             url = ''https://api.example.com/quote?symbol=IBM''\<rparr>],
       rateLimitCache = Map.empty, clock = 5020, requests = [quote_request, quote_request],
       slept = 0\<rparr>"
  have a1: "parseURL ?rt ?u1 = Inr ?q1" "parseURL ?rt ?u2 = Inr ?q2"
    by (simp_all add: demo_eval)
  have a2: "origin ?q1 = origin ?q2" "pathname ?q1 = pathname ?q2"
    "set (searchParams ?q1) = set (searchParams ?q2)"
    "distinct (map fst (searchParams ?q1))" "distinct (map fst (searchParams ?q2))"
    by auto
  have a3: "total_preorder (localeCompare ?rt)"
    "separates (localeCompare ?rt) (fst ` set (searchParams ?q1))"
    by (simp_all add: demo_rt_def compare_strings_preorder compare_strings_separates)
  have b1: "r_error ?r = None" "\<not> fromCache ?r" "cacheTTL quote_args = Some 30" "(0::int) < 30"
    by (simp_all add: quote_args_def)
  have b2: "cache_on quote_args" "\<not> bypassCache quote_args"
    "cache_key ?rt quote_args = cache_key ?rt quote_args"
    "responseCache ?v (cache_key ?rt quote_args) = responseCache stored_world (cache_key ?rt quote_args)"
    "clock ?v < r_timestamp ?r + 30 * 1000"
    by (simp_all add: cache_on_def quote_args_def stored_world_def)
  have c1: "bypassCache force_args" "cacheTTL force_args = Some 30"
    by (simp_all add: force_args_def quote_args_def)
  have c2: "checkRateLimit ?rt (req_url force_args) ?v = Inr (None, ?v)"
    by (simp add: checkRateLimit_def demo_eval force_args_def quote_args_def stored_world_def)
  have c3: "r_error ?r3 = None" by simp
  note t = C1_cache_idempotence [of ?rt ?u1 ?q1 ?u2 ?q2 "Some ''secretkey123''" "Some ''X-Api-Key''"
      quote_args "start_world 1000" ?r stored_world 30 quote_args ?v
      force_args ?v ?r3 ?w3' ?v 30]
  from t a1 a2 a3
  have d1: "generateCacheKey ?rt ?u1 (Some ''secretkey123'') (Some ''X-Api-Key'')
     = generateCacheKey ?rt ?u2 (Some ''secretkey123'') (Some ''X-Api-Key'')"
    by blast
  from t always_ok_run b1
  have d2: "responseCache stored_world (cache_key ?rt quote_args) =
      Some \<lparr>data = r_data ?r, timestamp = r_timestamp ?r,
            expiresAt = r_timestamp ?r + 30 * 1000, url = req_url quote_args\<rparr>"
    by blast
  from t always_ok_run b1 b2
  have d3: "fetchApiData ?rt quote_args ?v =
      (\<lparr>r_data = r_data ?r, r_error = None, r_timestamp = r_timestamp ?r, fromCache = True,
        cacheAge = Some ((clock ?v - r_timestamp ?r) div 1000)\<rparr>, ?v)"
    by blast
  from t c1(1) force_run c2
  have d4: "\<exists>more. requests ?w3' = requests ?v @ build_request force_args # more"
    by blast
  from t c1 force_run c3 b1(4)
  have d5: "responseCache ?w3' (cache_key ?rt force_args) =
      Some \<lparr>data = r_data ?r3, timestamp = r_timestamp ?r3,
            expiresAt = r_timestamp ?r3 + 30 * 1000, url = req_url force_args\<rparr>"
    by blast
  from d2 have d2': "responseCache stored_world (cache_key ?rt quote_args) = Some quote_entry"
    by (simp add: quote_entry_def quote_args_def)
  from d3 have d3': "fetchApiData ?rt quote_args ?v
       = (\<lparr>r_data = JObj [(''price'', JNum 100)], r_error = None, r_timestamp = 1020,
           fromCache = True, cacheAge = Some 3\<rparr>, ?v)"
    by simp
  from d4 force_run have d4': "\<exists>more. requests (snd (fetchApiData ?rt force_args ?v))
         = requests ?v @ build_request force_args # more"
    by simp
  from d5 force_run have d5': "responseCache (snd (fetchApiData ?rt force_args ?v)) (cache_key ?rt force_args)
       = Some \<lparr>data = JObj [(''price'', JNum 100)], timestamp = 5020, expiresAt = 35020,
               url = ''https://api.example.com/quote?symbol=IBM''\<rparr>"
    by (simp add: force_args_def quote_args_def)
  have e: "r_error (fst (fetchApiData ?rt quote_args (start_world 1000))) = None"
    "snd (fetchApiData ?rt quote_args (start_world 1000)) = stored_world"
    by (simp_all add: always_ok_run)
  have f: "clock ?v < 1020 + 30 * 1000" by simp
  from d1 a3(1) e b1(3) d2' f d3' c1(1) c2 d4' d5' show ?thesis by blast
qed

end
